(* ===== verification/Prelude.thy ===== *)
theory Prelude
  imports Main "HOL-Library.AList" "HOL-Library.Multiset"
begin

text \<open>
  Shared ground of the development: the outcome of a Go call (a value, an error, a panic),
  Go maps and the order in which a \<open>range\<close> visits them, the string functions of the Go
  standard library the program calls, 64-bit arithmetic and \<open>time.Time\<close>.
\<close>

named_theorems go_simps \<open>unfolding rules of the small combinators\<close>

section \<open>Outcomes\<close>

text \<open>
  A Go call returns a value (\<open>Ok\<close>), returns a non-nil error (\<open>Err\<close>, with the text of the
  error) or panics (\<open>Panic\<close>: a nil dereference, an index out of range).
\<close>

datatype 'a res = Ok 'a | Err string | Panic string

fun res_bind :: "'a res \<Rightarrow> ('a \<Rightarrow> 'b res) \<Rightarrow> 'b res" where
  "res_bind (Ok a) f = f a"
| "res_bind (Err e) f = Err e"
| "res_bind (Panic p) f = Panic p"

text \<open>\<open>map_err\<close> is \<open>if err != nil { return wrap(err) }\<close>.\<close>

fun map_err :: "(string \<Rightarrow> string) \<Rightarrow> 'a res \<Rightarrow> 'a res" where
  "map_err f (Ok a) = Ok a"
| "map_err f (Err e) = Err (f e)"
| "map_err f (Panic p) = Panic p"

fun is_panic :: "'a res \<Rightarrow> bool" where
  "is_panic (Panic p) = True"
| "is_panic _ = False"

fun is_ok :: "'a res \<Rightarrow> bool" where
  "is_ok (Ok a) = True"
| "is_ok _ = False"

text \<open>A loop whose body may return or panic: the first failure ends it.\<close>

fun foldM :: "('s \<Rightarrow> 'x \<Rightarrow> 's res) \<Rightarrow> 's \<Rightarrow> 'x list \<Rightarrow> 's res" where
  "foldM f s [] = Ok s"
| "foldM f s (x # xs) = res_bind (f s x) (\<lambda>s'. foldM f s' xs)"

abbreviation nil_deref :: "'a res" where
  "nil_deref \<equiv> Panic ''invalid memory address or nil pointer dereference''"

lemma res_bind_Ok_iff [go_simps]:
  "res_bind m f = Ok b \<longleftrightarrow> (\<exists>a. m = Ok a \<and> f a = Ok b)"
  by (cases m) auto

lemma map_err_Ok_iff [go_simps]: "map_err f m = Ok a \<longleftrightarrow> m = Ok a"
  by (cases m) auto

lemma res_bind_Panic_iff [go_simps]:
  "is_panic (res_bind m f) \<longleftrightarrow> is_panic m \<or> (\<exists>a. m = Ok a \<and> is_panic (f a))"
  by (cases m) auto

lemma map_err_Panic_iff [go_simps]: "is_panic (map_err f m) \<longleftrightarrow> is_panic m"
  by (cases m) auto

lemma is_ok_iff [go_simps]: "is_ok m \<longleftrightarrow> (\<exists>a. m = Ok a)"
  by (cases m) auto

lemma foldM_append: "foldM f s (xs @ ys) = res_bind (foldM f s xs) (\<lambda>s'. foldM f s' ys)"
proof (induction xs arbitrary: s)
  case Nil
  then show ?case by simp
next
  case (Cons x xs)
  then show ?case by (cases "f s x") auto
qed

text \<open>An invariant of the loop body is an invariant of the loop.\<close>

lemma foldM_invariant:
  assumes "\<And>s x s'. x \<in> set xs \<Longrightarrow> I s \<Longrightarrow> f s x = Ok s' \<Longrightarrow> I s'"
    and "I s" and "foldM f s xs = Ok s'"
  shows "I s'"
  using assms
proof (induction xs arbitrary: s)
  case Nil
  then show ?case by simp
next
  case (Cons x xs)
  from Cons.prems(3) obtain t where t: "f s x = Ok t" "foldM f t xs = Ok s'"
    by (auto simp: go_simps)
  have "I t" using Cons.prems(1) [of x s t] Cons.prems(2) t(1) by simp
  moreover have "\<And>u y u'. y \<in> set xs \<Longrightarrow> I u \<Longrightarrow> f u y = Ok u' \<Longrightarrow> I u'"
    using Cons.prems(1) by (meson list.set_intros(2))
  ultimately show ?case using Cons.IH t(2) by blast
qed

lemma foldM_no_panic:
  assumes "\<And>s x. x \<in> set xs \<Longrightarrow> I s \<Longrightarrow> \<not> is_panic (f s x)"
    and "\<And>s x s'. x \<in> set xs \<Longrightarrow> I s \<Longrightarrow> f s x = Ok s' \<Longrightarrow> I s'"
    and "I s"
  shows "\<not> is_panic (foldM f s xs)"
  using assms
proof (induction xs arbitrary: s)
  case Nil
  then show ?case by simp
next
  case (Cons x xs)
  show ?case
  proof (cases "f s x")
    case (Ok t)
    have "I t" using Cons.prems(2) [of x s t] Cons.prems(3) Ok by simp
    moreover have "\<And>u y. y \<in> set xs \<Longrightarrow> I u \<Longrightarrow> \<not> is_panic (f u y)"
      using Cons.prems(1) by simp
    moreover have "\<And>u y u'. y \<in> set xs \<Longrightarrow> I u \<Longrightarrow> f u y = Ok u' \<Longrightarrow> I u'"
      using Cons.prems(2) by (meson list.set_intros(2))
    ultimately have "\<not> is_panic (foldM f t xs)" using Cons.IH by blast
    with Ok show ?thesis by simp
  next
    case (Err e)
    then show ?thesis by simp
  next
    case (Panic p)
    then show ?thesis using Cons.prems(1) [of x s] Cons.prems(3) by simp
  qed
qed

text \<open>A loop whose body never fails is a plain fold.\<close>

lemma foldM_Ok: "(\<And>s x. x \<in> set xs \<Longrightarrow> f s x = Ok (g s x)) \<Longrightarrow> foldM f s xs = Ok (foldl g s xs)"
  by (induction xs arbitrary: s) auto

lemma foldM_cong: "(\<And>s x. x \<in> set xs \<Longrightarrow> f s x = g s x) \<Longrightarrow> foldM f s xs = foldM g s xs"
proof (induction xs arbitrary: s)
  case Nil
  then show ?case by simp
next
  case (Cons x xs)
  then show ?case by (cases "g s x") simp_all
qed

section \<open>Go maps and range\<close>

text \<open>
  A \<open>map[string]T\<close> is an association list with distinct keys; \<open>map_of\<close> is what a lookup
  sees. Go does not specify the order in which \<open>range\<close> visits a map, and two ranges over
  the same map may differ. The order is a parameter \<open>r\<close>: it is given the path of the
  range statement (which loop, in which call, in which iteration of the loops around it)
  and the keys, and answers the keys in the order of the visit. \<open>valid_rng\<close> is the language's
  promise that every key is visited exactly once. A \<open>path\<close> is extended by \<open>at\<close>, so each
  dynamic execution of a range statement has an order of its own.
\<close>

type_synonym 'v gomap = "(string \<times> 'v) list"

type_synonym rng = "string list \<Rightarrow> string list \<Rightarrow> string list"

definition at :: "string \<Rightarrow> rng \<Rightarrow> rng" where
  "at x r = (\<lambda>p. r (x # p))"

definition valid_rng :: "rng \<Rightarrow> bool" where
  "valid_rng r \<longleftrightarrow> (\<forall>p ks. mset (r p ks) = mset ks)"

definition map_keys :: "'v gomap \<Rightarrow> string list" where
  "map_keys m = map fst m"

abbreviation map_wf :: "'v gomap \<Rightarrow> bool" where
  "map_wf m \<equiv> distinct (map fst m)"

fun visit :: "'v gomap \<Rightarrow> string list \<Rightarrow> (string \<times> 'v) list" where
  "visit m [] = []"
| "visit m (k # ks) = (case map_of m k of None \<Rightarrow> visit m ks | Some v \<Rightarrow> (k, v) # visit m ks)"

definition go_range :: "rng \<Rightarrow> 'v gomap \<Rightarrow> (string \<times> 'v) list" where
  "go_range r m = visit m (r [] (map_keys m))"

abbreviation map_put :: "string \<Rightarrow> 'v \<Rightarrow> 'v gomap \<Rightarrow> 'v gomap" where
  "map_put k v m \<equiv> AList.update k v m"

abbreviation map_del :: "string \<Rightarrow> 'v gomap \<Rightarrow> 'v gomap" where
  "map_del k m \<equiv> AList.delete k m"

lemma valid_rng_at [simp]: "valid_rng r \<Longrightarrow> valid_rng (at x r)"
  by (simp add: valid_rng_def at_def)

lemma at_const [simp]: "at x (\<lambda>p. f) = (\<lambda>p. f)"
  by (simp add: at_def)

lemma valid_rng_id [simp]: "valid_rng (\<lambda>p ks. ks)"
  by (simp add: valid_rng_def)

lemma valid_rng_rev [simp]: "valid_rng (\<lambda>p. rev)"
  by (simp add: valid_rng_def)

lemma map_keys_simps [simp]:
  "map_keys [] = []" "map_keys ((k, v) # m) = k # map_keys m"
  by (simp_all add: map_keys_def)

lemma set_map_keys: "set (map_keys m) = dom (map_of m)"
  by (simp add: map_keys_def dom_map_of_conv_image_fst)

lemma visit_mem: "(k, v) \<in> set (visit m ks) \<longleftrightarrow> k \<in> set ks \<and> map_of m k = Some v"
  by (induction ks) (auto split: option.splits)

lemma visit_keys: "set ks \<subseteq> dom (map_of m) \<Longrightarrow> map fst (visit m ks) = ks"
  by (induction ks) (auto split: option.splits)

lemma valid_rng_set: "valid_rng r \<Longrightarrow> set (r p ks) = set ks"
  by (metis valid_rng_def set_mset_mset)

lemma valid_rng_distinct: "valid_rng r \<Longrightarrow> distinct (r p ks) = distinct ks"
  by (metis valid_rng_def mset_eq_imp_distinct_iff)

lemma go_range_mem: "valid_rng r \<Longrightarrow> (k, v) \<in> set (go_range r m) \<longleftrightarrow> map_of m k = Some v"
  by (auto simp: go_range_def visit_mem valid_rng_set set_map_keys)

lemma go_range_sound: "(k, v) \<in> set (go_range r m) \<Longrightarrow> map_of m k = Some v"
  by (simp add: go_range_def visit_mem)

lemma go_range_subset: "set (go_range r m) \<subseteq> set m"
  using go_range_sound map_of_SomeD by fastforce

lemma go_range_keys: "valid_rng r \<Longrightarrow> map fst (go_range r m) = r [] (map_keys m)"
  by (simp add: go_range_def visit_keys valid_rng_set set_map_keys)

lemma go_range_dom: "valid_rng r \<Longrightarrow> fst ` set (go_range r m) = dom (map_of m)"
  using go_range_keys [of r m] by (metis set_map valid_rng_set set_map_keys)

lemma go_range_distinct: "valid_rng r \<Longrightarrow> map_wf m \<Longrightarrow> distinct (map fst (go_range r m))"
  by (simp add: go_range_keys valid_rng_distinct map_keys_def)

lemma go_range_mset: "valid_rng r \<Longrightarrow> map_wf m \<Longrightarrow> mset (go_range r m) = mset m"
  by (rule set_eq_iff_mset_eq_distinct [THEN iffD1])
    (auto simp: go_range_mem distinct_map go_range_distinct [unfolded distinct_map]
      dest: map_of_SomeD)

lemma go_range_Nil [simp]: "valid_rng r \<Longrightarrow> go_range r [] = []"
  using valid_rng_set [of r "[]" "[]"] by (simp add: go_range_def)

lemma go_range_single: "valid_rng r \<Longrightarrow> go_range r [(k, v)] = [(k, v)]"
proof -
  assume "valid_rng r"
  then have "mset (r [] [k]) = {#k#}" by (simp add: valid_rng_def)
  then have "r [] [k] = [k]" by simp
  then show ?thesis by (simp add: go_range_def)
qed

lemma map_of_go_range: "valid_rng r \<Longrightarrow> map_wf m \<Longrightarrow> map_of (go_range r m) = map_of m"
  by (simp add: go_range_mset map_of_inject_set go_range_distinct
      flip: set_mset_mset)

text \<open>Copying a map key by key gives the same map, whatever the order.\<close>

lemma map_of_foldl_put:
  "map_of (foldl (\<lambda>m (k, v). map_put k v m) m0 kvs) = map_of m0 ++ map_of (rev kvs)"
  by (induction kvs arbitrary: m0) (auto simp: update_conv' map_add_def fun_eq_iff split: option.splits)

lemma map_wf_foldl_put: "map_wf m0 \<Longrightarrow> map_wf (foldl (\<lambda>m (k, v). map_put k v m) m0 kvs)"
  by (induction kvs arbitrary: m0) (auto simp: distinct_update)

lemma map_of_rev_distinct: "distinct (map fst kvs) \<Longrightarrow> map_of (rev kvs) = map_of kvs"
  by (rule map_of_inject_set [THEN iffD2]) (auto simp: rev_map [symmetric])

section \<open>64-bit arithmetic and time\<close>

text \<open>
  \<open>int\<close> and \<open>int64\<close> are 64 bits wide. Where a result can leave the range the model writes
  the wrap-around out with \<open>wrap64\<close>; an \<open>int\<close> that is only stored and compared stays a
  HOL \<open>int\<close>.
\<close>

definition wrap64 :: "int \<Rightarrow> int" where
  "wrap64 x = (x + 2 ^ 63) mod 2 ^ 64 - 2 ^ 63"

lemma wrap64_id: "- (2 ^ 63) \<le> x \<Longrightarrow> x < 2 ^ 63 \<Longrightarrow> wrap64 x = x"
  by (simp add: wrap64_def)

lemma wrap64_range: "- (2 ^ 63) \<le> wrap64 x \<and> wrap64 x < 2 ^ 63"
  using pos_mod_bound [of "2 ^ 64" "x + 2 ^ 63"] pos_mod_sign [of "2 ^ 64" "x + 2 ^ 63"]
  by (simp add: wrap64_def)

text \<open>
  A \<open>time.Time\<close> is the number of nanoseconds since the zero time (1 January of year 1), so
  the zero value of the type is \<open>GoTime 0\<close>; \<open>Before\<close> and \<open>After\<close> are the two directions of
  the order, which the type class \<open>linorder\<close> carries.
\<close>

datatype gotime = GoTime (nanos: int)

instantiation gotime :: linorder
begin

definition less_eq_gotime :: "gotime \<Rightarrow> gotime \<Rightarrow> bool" where
  "less_eq_gotime s t \<longleftrightarrow> nanos s \<le> nanos t"

definition less_gotime :: "gotime \<Rightarrow> gotime \<Rightarrow> bool" where
  "less_gotime s t \<longleftrightarrow> nanos s < nanos t"

instance
  by standard (auto simp: less_eq_gotime_def less_gotime_def gotime.expand)

end

lemma gotime_less [simp]: "GoTime a < GoTime b \<longleftrightarrow> a < b"
  by (simp add: less_gotime_def)

lemma gotime_le [simp]: "GoTime a \<le> GoTime b \<longleftrightarrow> a \<le> b"
  by (simp add: less_eq_gotime_def)

definition zero_time :: gotime where
  "zero_time = GoTime 0"

definition IsZero :: "gotime \<Rightarrow> bool" where
  "IsZero t \<longleftrightarrow> t = zero_time"

definition second :: int where
  "second = 1000000000"

definition unixToInternal :: int where
  "unixToInternal = 62135596800"

text \<open>\<open>Time.Unix\<close> and \<open>time.Unix\<close>; the seconds field of a \<open>Time\<close> is an \<open>int64\<close>.\<close>

definition Unix :: "gotime \<Rightarrow> int" where
  "Unix t = wrap64 (nanos t div second - unixToInternal)"

definition time_Unix :: "int \<Rightarrow> gotime" where
  "time_Unix s = GoTime (wrap64 (s + unixToInternal) * second)"

text \<open>\<open>Time.Add\<close> takes a \<open>Duration\<close>, an \<open>int64\<close> count of nanoseconds.\<close>

definition time_Add :: "gotime \<Rightarrow> int \<Rightarrow> gotime" where
  "time_Add t d =
     GoTime (wrap64 ((nanos t + d) div second) * second + (nanos t + d) mod second)"

lemma second_pos [simp]: "0 < second"
  by (simp add: second_def)

lemma second_not_0 [simp]: "second \<noteq> 0"
  by (simp add: second_def)

lemma time_Add_id:
  "- (2 ^ 63) \<le> (nanos t + d) div second \<Longrightarrow> (nanos t + d) div second < 2 ^ 63 \<Longrightarrow>
    time_Add t d = GoTime (nanos t + d)"
  by (simp add: time_Add_def wrap64_id)

text \<open>Reading back the seconds a time was made from; the wrap-arounds cancel.\<close>

lemma wrap64_cong: "(x - y) mod 2 ^ 64 = 0 \<Longrightarrow> wrap64 x = wrap64 y"
proof -
  assume "(x - y) mod 2 ^ 64 = 0"
  then have "x mod 2 ^ 64 = y mod 2 ^ 64" by (simp only: mod_eq_dvd_iff mod_0_imp_dvd)
  from mod_add_cong [OF this refl, of "2 ^ 63"] show "wrap64 x = wrap64 y" by (simp only: wrap64_def)
qed

lemma Unix_time_Unix: "- (2 ^ 63) \<le> s \<Longrightarrow> s < 2 ^ 63 \<Longrightarrow> Unix (time_Unix s) = s"
proof -
  assume s: "- (2 ^ 63) \<le> s" "s < 2 ^ 63"
  have "(wrap64 (s + unixToInternal) - unixToInternal - s) mod 2 ^ 64 = 0"
    by (simp add: wrap64_def mod_eq_0_iff_dvd mod_eq_dvd_iff [symmetric] algebra_simps)
  then have "wrap64 (wrap64 (s + unixToInternal) - unixToInternal) = wrap64 s"
    by (rule wrap64_cong)
  with s show ?thesis
    by (simp add: Unix_def time_Unix_def wrap64_id)
qed

end
