(* ===== verification/Config_Types.thy ===== *)
theory Config_Types
  imports Go_Strings
begin

text \<open>
  The configuration data (config/config.go): one record per struct, one field per field of
  the struct, in its order. A pointer is an \<open>option\<close> (\<open>None\<close> is nil), also inside slices and
  maps, since the decoders leave nil there for a JSON or YAML null. An \<open>int\<close> or \<open>int64\<close> is a
  HOL \<open>int\<close>: the program stores and compares these values, and where it computes with one
  the computing theory writes the 64-bit wrap-around out.
\<close>

record cfg_Tls =
  ct_CertFile :: string
  ct_KeyFile :: string

record cfg_DataStoreGitUser =
  cu_FriendlyName :: string
  cu_Email :: string
  cu_Name :: string
  cu_Pass :: string

record cfg_DataStoreGit =
  cg_Url :: string
  cg_DataStoreGitUser :: "cfg_DataStoreGitUser option"
  cg_PoolSize :: int
  cg_Structure :: "string list"
  cg_IncludeReadmeOverviews :: bool
  cg_DataDir :: string

record cfg_DataStore =
  cds_Type :: string
  cds_DataStoreGit :: "cfg_DataStoreGit option"

record cfg_JobSchedule =
  cs_Cron :: string
  cs_Duration :: string
  cs_Iso8601 :: string
  cs_Fixed :: int

record cfg_JobCommand =
  cc_Command :: string
  cc_Expect :: "string list"
  cc_ExpectNot :: "string list"
  cc_Timeout :: "int option"
  cc_ImplicitEnter :: "bool option"

record cfg_JobFile =
  cf_Compression :: string

record cfg_JobScrubber =
  csc_Type :: string
  csc_Search :: string
  csc_Replace :: string

record cfg_Job =
  cj_Generic :: string
  cj_Type :: string
  cj_JobSchedule :: "cfg_JobSchedule option"
  cj_Commands :: "cfg_JobCommand option list"
  cj_CommandGeneric :: "cfg_JobCommand option"
  cj_JobFile :: "cfg_JobFile option gomap"
  cj_Scrubbers :: "cfg_JobScrubber option list"
  cj_TemplateValues :: "string gomap"

record cfg_JobStoreLocal =
  cjl_JobGenerics :: "cfg_Job option gomap"
  cjl_Jobs :: "cfg_Job option gomap"

record cfg_JobStore =
  cjs_Type :: string
  cjs_JobStoreLocal :: "cfg_JobStoreLocal option"

record cfg_DeviceProtocolSsh =
  cps_Port :: int
  cps_IncludeCbcCiphers :: bool

record cfg_DeviceProtocol =
  cp_Type :: string
  cp_DeviceProtocolSsh :: "cfg_DeviceProtocolSsh option"

record cfg_DeviceCredentials =
  ccr_User :: string
  ccr_Pass :: string

record cfg_Device =
  cd_Generic :: string
  cd_Host :: string
  cd_DeviceProtocol :: "cfg_DeviceProtocol option"
  cd_Tags :: "string list"
  cd_DeviceCredentials :: "cfg_DeviceCredentials option"
  cd_Jobs :: "cfg_Job option gomap"

record cfg_DeviceStoreLocal =
  cdl_DeviceGenerics :: "cfg_Device option gomap"
  cdl_Devices :: "cfg_Device option gomap"

record cfg_DeviceStore =
  cdvs_Type :: string
  cdvs_DeviceStoreLocal :: "cfg_DeviceStoreLocal option"

record cfg_Config =
  c_Ip :: string
  c_Port :: int
  c_Username :: string
  c_Password :: string
  c_LogLevel :: string
  c_Syslog :: bool
  c_MaxJobBytes :: int
  c_Tls :: "cfg_Tls option"
  c_DataStore :: "cfg_DataStore option"
  c_JobStore :: "cfg_JobStore option"
  c_DeviceStore :: "cfg_DeviceStore option"

section \<open>Zero values\<close>

text \<open>What Go's zero value (\<open>&Config{}\<close>) of each struct is; a decoder fills in the rest.\<close>

definition zero_JobSchedule :: cfg_JobSchedule where
  "zero_JobSchedule = \<lparr>cs_Cron = [], cs_Duration = [], cs_Iso8601 = [], cs_Fixed = 0\<rparr>"

definition zero_JobCommand :: cfg_JobCommand where
  "zero_JobCommand = \<lparr>cc_Command = [], cc_Expect = [], cc_ExpectNot = [], cc_Timeout = None,
     cc_ImplicitEnter = None\<rparr>"

definition zero_Job :: cfg_Job where
  "zero_Job = \<lparr>cj_Generic = [], cj_Type = [], cj_JobSchedule = None, cj_Commands = [],
     cj_CommandGeneric = None, cj_JobFile = [], cj_Scrubbers = [], cj_TemplateValues = []\<rparr>"

definition zero_Device :: cfg_Device where
  "zero_Device = \<lparr>cd_Generic = [], cd_Host = [], cd_DeviceProtocol = None, cd_Tags = [],
     cd_DeviceCredentials = None, cd_Jobs = []\<rparr>"

definition zero_DataStoreGit :: cfg_DataStoreGit where
  "zero_DataStoreGit = \<lparr>cg_Url = [], cg_DataStoreGitUser = None, cg_PoolSize = 0,
     cg_Structure = [], cg_IncludeReadmeOverviews = False, cg_DataDir = []\<rparr>"

text \<open>\<open>config.NewDefault\<close>.\<close>

definition NewDefault :: cfg_Config where
  "NewDefault = \<lparr>c_Ip = [], c_Port = 0, c_Username = [], c_Password = [], c_LogLevel = [],
     c_Syslog = False, c_MaxJobBytes = 0, c_Tls = None, c_DataStore = None, c_JobStore = None,
     c_DeviceStore = None\<rparr>"

lemmas zero_defs [go_simps] =
  zero_JobSchedule_def zero_JobCommand_def zero_Job_def zero_Device_def zero_DataStoreGit_def

end
