(* ===== verification/Command_Set.thy ===== *)
theory Command_Set
  imports Config_Types
begin

text \<open>
  Command sets (model/command_set.go, model/util.go): the commands of a job, each with the
  patterns its output must and must not match. \<open>Generic\<close> is the template every configured
  command starts from. It is a pointer: \<open>NewDefaultCommandSet\<close> sets it and \<open>DeepCopy\<close> leaves
  it nil, and a nil \<open>Generic\<close> makes \<open>ApplyConfig\<close> panic where it is dereferenced. The regular
  expression compiler is a parameter \<open>re_compile\<close>, \<open>None\<close> for a pattern that compiles and
  \<open>Some msg\<close> for one that does not.
\<close>

section \<open>Patterns\<close>

definition sanitizeRegex :: "string \<Rightarrow> string" where
  "sanitizeRegex regex =
     (let regex = (if \<not> HasPrefix regex ''^'' then ''.*'' @ regex else regex)
      in if \<not> HasSuffix regex ''$'' then regex @ ''.*'' else regex)"

text \<open>Quoting of a value in a message: \<open>'%v'\<close>.\<close>

definition quoted :: "string \<Rightarrow> string" where
  "quoted s = CHR 0x27 # s @ [CHR 0x27]"

section \<open>Commands\<close>

record CommandSetCommand =
  cmd_Command :: string
  cmd_Expect :: "string list"
  cmd_ExpectNot :: "string list"
  cmd_Timeout :: int
  cmd_ImplicitEnter :: bool

definition NewDefaultCommandSetCommand :: CommandSetCommand where
  "NewDefaultCommandSetCommand =
     \<lparr>cmd_Command = [], cmd_Expect = [], cmd_ExpectNot = [], cmd_Timeout = 120,
      cmd_ImplicitEnter = True\<rparr>"

definition CommandSetCommand_ApplyConfig ::
    "CommandSetCommand \<Rightarrow> cfg_JobCommand \<Rightarrow> CommandSetCommand" where
  "CommandSetCommand_ApplyConfig c conf =
     c\<lparr>cmd_Command := (if cc_Command conf \<noteq> [] then cc_Command conf else cmd_Command c),
       cmd_Expect := cmd_Expect c @ map sanitizeRegex (cc_Expect conf),
       cmd_ExpectNot := cmd_ExpectNot c @ map sanitizeRegex (cc_ExpectNot conf),
       cmd_Timeout := (case cc_Timeout conf of None \<Rightarrow> cmd_Timeout c | Some t \<Rightarrow> t),
       cmd_ImplicitEnter :=
         (case cc_ImplicitEnter conf of None \<Rightarrow> cmd_ImplicitEnter c | Some b \<Rightarrow> b)\<rparr>"

text \<open>
  The same method on a nil receiver: it returns unless it reaches an assignment to a field.
\<close>

definition ApplyConfig_derefs :: "cfg_JobCommand \<Rightarrow> bool" where
  "ApplyConfig_derefs conf \<longleftrightarrow>
     cc_Command conf \<noteq> [] \<or> cc_Expect conf \<noteq> [] \<or> cc_ExpectNot conf \<noteq> [] \<or>
     cc_Timeout conf \<noteq> None \<or> cc_ImplicitEnter conf \<noteq> None"

text \<open>The messages for the patterns that are free of \<open>{{\<close> and do not compile.\<close>

definition pattern_errors :: "(string \<Rightarrow> string option) \<Rightarrow> string list \<Rightarrow> string list" where
  "pattern_errors re_compile exps =
     concat (map (\<lambda>exp.
       if \<not> Contains exp ''{{'' then
         (case re_compile exp of None \<Rightarrow> []
          | Some err \<Rightarrow> [''Invalid regex '' @ quoted exp @ '': '' @ err])
       else []) exps)"

definition CommandSetCommand_Validate ::
    "(string \<Rightarrow> string option) \<Rightarrow> CommandSetCommand \<Rightarrow> string list" where
  "CommandSetCommand_Validate re_compile c =
     (if cmd_Command c = [] then [''Command is empty''] else [])
     @ pattern_errors re_compile (cmd_Expect c)
     @ pattern_errors re_compile (cmd_ExpectNot c)
     @ (if cmd_Timeout c = 0 \<and> (cmd_Expect c \<noteq> [] \<or> cmd_ExpectNot c \<noteq> [])
        then [''Timeout can only be 0 when there are no expectations''] else [])"

definition CommandSetCommand_DeepCopy :: "CommandSetCommand \<Rightarrow> CommandSetCommand" where
  "CommandSetCommand_DeepCopy c =
     \<lparr>cmd_Command = cmd_Command c, cmd_Expect = cmd_Expect c, cmd_ExpectNot = cmd_ExpectNot c,
      cmd_Timeout = cmd_Timeout c, cmd_ImplicitEnter = cmd_ImplicitEnter c\<rparr>"

section \<open>Command sets\<close>

record CommandSet =
  cset_Generic :: "CommandSetCommand option"
  cset_Commands :: "CommandSetCommand list"

definition NewDefaultCommandSet :: CommandSet where
  "NewDefaultCommandSet =
     \<lparr>cset_Generic = Some NewDefaultCommandSetCommand, cset_Commands = []\<rparr>"

definition apply_generic ::
    "CommandSetCommand option \<Rightarrow> cfg_JobCommand option \<Rightarrow> CommandSetCommand option res" where
  "apply_generic generic conf =
     (case conf of None \<Rightarrow> Ok generic
      | Some gconf \<Rightarrow>
          (case generic of
             Some g \<Rightarrow> Ok (Some (CommandSetCommand_ApplyConfig g gconf))
           | None \<Rightarrow> if ApplyConfig_derefs gconf then nil_deref else Ok None))"

text \<open>
  One round of the loop over \<open>conf.Commands\<close>: \<open>c.Generic.DeepCopy()\<close> dereferences \<open>Generic\<close>,
  \<open>setCmd.ApplyConfig(cmd)\<close> dereferences \<open>cmd\<close>.
\<close>

definition add_command ::
    "CommandSetCommand option \<Rightarrow> CommandSetCommand list \<Rightarrow> cfg_JobCommand option
      \<Rightarrow> CommandSetCommand list res" where
  "add_command generic cmds conf =
     (case generic of None \<Rightarrow> nil_deref
      | Some g \<Rightarrow>
          (case conf of None \<Rightarrow> nil_deref
           | Some cmd \<Rightarrow>
               Ok (cmds @ [CommandSetCommand_ApplyConfig (CommandSetCommand_DeepCopy g) cmd])))"

definition CommandSet_ApplyConfig :: "CommandSet \<Rightarrow> cfg_Job \<Rightarrow> CommandSet res" where
  "CommandSet_ApplyConfig c conf =
     res_bind (apply_generic (cset_Generic c) (cj_CommandGeneric conf)) (\<lambda>g.
     res_bind (foldM (add_command g) (cset_Commands c) (cj_Commands conf)) (\<lambda>cmds.
     Ok (c\<lparr>cset_Generic := g, cset_Commands := cmds\<rparr>)))"

definition CommandSet_Validate :: "(string \<Rightarrow> string option) \<Rightarrow> CommandSet \<Rightarrow> string list" where
  "CommandSet_Validate re_compile c =
     (if cset_Commands c = [] then [''No commands in set''] else [])
     @ concat (map (\<lambda>cmd.
         map (\<lambda>err. ''Command '' @ quoted (cmd_Command cmd) @ '' invalid: '' @ err)
           (CommandSetCommand_Validate re_compile cmd)) (cset_Commands c))"

text \<open>The copy has no \<open>Generic\<close>.\<close>

definition CommandSet_DeepCopy :: "CommandSet \<Rightarrow> CommandSet" where
  "CommandSet_DeepCopy c =
     \<lparr>cset_Generic = None, cset_Commands = map CommandSetCommand_DeepCopy (cset_Commands c)\<rparr>"

section \<open>Lemmas\<close>

text \<open>
  The given pattern is kept as it is, between what sanitizing puts before and after it.
\<close>

lemma sanitizeRegex_eq:
  "sanitizeRegex re =
     (if HasPrefix re ''^'' then [] else ''.*'') @ re @ (if HasSuffix re ''$'' then [] else ''.*'')"
proof -
  have "HasSuffix (''.*'' @ re) ''$'' \<longleftrightarrow> HasSuffix re ''$''"
    by (cases re rule: rev_cases) (auto simp: HasSuffix_iff append_eq_append_conv2 Cons_eq_append_conv)
  then show ?thesis by (simp add: sanitizeRegex_def Let_def)
qed

lemma CommandSetCommand_DeepCopy_id [simp]: "CommandSetCommand_DeepCopy c = c"
  by (simp add: CommandSetCommand_DeepCopy_def)

lemma map_DeepCopy_id [simp]: "map CommandSetCommand_DeepCopy cs = cs"
  by (simp add: map_idI)

lemma CommandSet_DeepCopy_Commands [simp]:
  "cset_Commands (CommandSet_DeepCopy c) = cset_Commands c"
  "cset_Generic (CommandSet_DeepCopy c) = None"
  by (simp_all add: CommandSet_DeepCopy_def)

lemma CommandSet_Validate_DeepCopy [simp]:
  "CommandSet_Validate re (CommandSet_DeepCopy c) = CommandSet_Validate re c"
  by (simp add: CommandSet_Validate_def)

text \<open>What validation accepts.\<close>

lemma pattern_errors_Nil_iff:
  "pattern_errors re exps = [] \<longleftrightarrow>
     (\<forall>e \<in> set exps. \<not> Contains e ''{{'' \<longrightarrow> re e = None)"
  by (induction exps) (auto simp: pattern_errors_def split: option.splits)

lemma CommandSetCommand_Validate_Nil_iff:
  "CommandSetCommand_Validate re c = [] \<longleftrightarrow>
     cmd_Command c \<noteq> [] \<and>
     (\<forall>e \<in> set (cmd_Expect c) \<union> set (cmd_ExpectNot c). \<not> Contains e ''{{'' \<longrightarrow> re e = None) \<and>
     (cmd_Timeout c = 0 \<longrightarrow> cmd_Expect c = [] \<and> cmd_ExpectNot c = [])"
  by (auto simp: CommandSetCommand_Validate_def pattern_errors_Nil_iff)

lemma CommandSet_Validate_Nil_iff:
  "CommandSet_Validate re c = [] \<longleftrightarrow>
     cset_Commands c \<noteq> [] \<and> (\<forall>cmd \<in> set (cset_Commands c). CommandSetCommand_Validate re cmd = [])"
  by (auto simp: CommandSet_Validate_def)

text \<open>With a \<open>Generic\<close> and no nil entry, applying a configuration appends one command each.\<close>

lemma foldM_add_command:
  "None \<notin> set confs \<Longrightarrow>
   foldM (add_command (Some g)) cmds confs =
     Ok (cmds @ map (\<lambda>conf. CommandSetCommand_ApplyConfig g (the conf)) confs)"
proof (induction confs arbitrary: cmds)
  case Nil
  then show ?case by simp
next
  case (Cons conf confs)
  then show ?case by (cases conf) (simp_all add: add_command_def)
qed

lemma CommandSet_ApplyConfig_Some:
  assumes "cset_Generic c = Some g" and "None \<notin> set (cj_Commands conf)"
  defines "g' \<equiv> (case cj_CommandGeneric conf of None \<Rightarrow> g
                  | Some gc \<Rightarrow> CommandSetCommand_ApplyConfig g gc)"
  shows "CommandSet_ApplyConfig c conf =
     Ok \<lparr>cset_Generic = Some g',
         cset_Commands = cset_Commands c @
           map (\<lambda>cmd. CommandSetCommand_ApplyConfig g' (the cmd)) (cj_Commands conf)\<rparr>"
  using assms
  by (simp add: CommandSet_ApplyConfig_def apply_generic_def foldM_add_command split: option.split)

text \<open>Without a \<open>Generic\<close> any configured command, and any generic setting, panics.\<close>

lemma foldM_add_command_nil: "confs \<noteq> [] \<Longrightarrow> foldM (add_command None) cmds confs = nil_deref"
  by (cases confs) (simp_all add: add_command_def)

lemma CommandSet_ApplyConfig_nil_Generic:
  assumes "cset_Generic c = None"
  shows "is_panic (CommandSet_ApplyConfig c conf) \<longleftrightarrow>
     cj_Commands conf \<noteq> [] \<or>
     (\<exists>gc. cj_CommandGeneric conf = Some gc \<and> ApplyConfig_derefs gc)"
  using assms
  by (cases "cj_Commands conf = []")
    (auto simp: CommandSet_ApplyConfig_def apply_generic_def foldM_add_command_nil
      split: option.splits)

lemma foldM_add_command_never_Err: "foldM (add_command g) cmds confs \<noteq> Err e"
proof (induction confs arbitrary: cmds)
  case Nil
  then show ?case by simp
next
  case (Cons conf confs)
  have "add_command g cmds conf \<noteq> Err e"
    by (simp add: add_command_def split: option.split)
  with Cons show ?case by (cases "add_command g cmds conf") simp_all
qed

lemma CommandSet_ApplyConfig_never_Err: "CommandSet_ApplyConfig c conf \<noteq> Err e"
proof -
  have "res_bind (foldM (add_command g) cmds confs) (\<lambda>cmds. Ok (h cmds)) \<noteq> Err e"
    for g cmds confs and h :: "CommandSetCommand list \<Rightarrow> CommandSet"
    using foldM_add_command_never_Err [of g cmds confs e]
    by (cases "foldM (add_command g) cmds confs") simp_all
  then show ?thesis
    by (simp add: CommandSet_ApplyConfig_def apply_generic_def split: option.split)
qed

end
