(* ===== verification/File_Set.thy ===== *)
theory File_Set
  imports Config_Types Command_Set
begin

text \<open>
  File sets (model/file_set.go): the files a job of type \<open>file\<close> fetches. The configured
  files are a map, so the order in which they enter the set is the order of a range.
\<close>

record FileSetFile =
  file_Name :: string
  file_Compression :: string

definition NewDefaultFileSetFile :: FileSetFile where
  "NewDefaultFileSetFile = \<lparr>file_Name = [], file_Compression = []\<rparr>"

definition FileSetFile_ApplyConfig :: "FileSetFile \<Rightarrow> string \<Rightarrow> cfg_JobFile \<Rightarrow> FileSetFile" where
  "FileSetFile_ApplyConfig f fileName conf =
     f\<lparr>file_Name := (if fileName \<noteq> [] then fileName else file_Name f),
       file_Compression :=
         (if cf_Compression conf \<noteq> [] then cf_Compression conf else file_Compression f)\<rparr>"

definition FileSetFile_Validate :: "FileSetFile \<Rightarrow> string list" where
  "FileSetFile_Validate f =
     (if length (file_Name f) = 0 then [''No files in set''] else [])
     @ (if file_Compression f \<noteq> [] \<and> file_Compression f \<noteq> ''gzip''
        then [''Unrecognized compression: '' @ file_Compression f] else [])"

definition FileSetFile_DeepCopy :: "FileSetFile \<Rightarrow> FileSetFile" where
  "FileSetFile_DeepCopy f =
     \<lparr>file_Name = file_Name f, file_Compression = file_Compression f\<rparr>"

record FileSet =
  fset_Files :: "FileSetFile list"

definition NewDefaultFileSet :: FileSet where
  "NewDefaultFileSet = \<lparr>fset_Files = []\<rparr>"

text \<open>One round of the loop; a nil \<open>fileConf\<close> is dereferenced in \<open>file.ApplyConfig\<close>.\<close>

fun add_file :: "FileSetFile list \<Rightarrow> string \<times> cfg_JobFile option \<Rightarrow> FileSetFile list res" where
  "add_file files (fileName, None) = nil_deref"
| "add_file files (fileName, Some fileConf) =
     Ok (files @ [FileSetFile_ApplyConfig NewDefaultFileSetFile fileName fileConf])"

definition FileSet_ApplyConfig :: "rng \<Rightarrow> FileSet \<Rightarrow> cfg_Job \<Rightarrow> FileSet res" where
  "FileSet_ApplyConfig r f conf =
     res_bind (foldM add_file (fset_Files f) (go_range r (cj_JobFile conf))) (\<lambda>files.
     Ok (f\<lparr>fset_Files := files\<rparr>))"

definition FileSet_Validate :: "FileSet \<Rightarrow> string list" where
  "FileSet_Validate f =
     (if fset_Files f = [] then [''No files in set''] else [])
     @ concat (map (\<lambda>file.
         map (\<lambda>err. ''File '' @ quoted (file_Name file) @ '' invalid: '' @ err)
           (FileSetFile_Validate file)) (fset_Files f))"

definition FileSet_DeepCopy :: "FileSet \<Rightarrow> FileSet" where
  "FileSet_DeepCopy f = \<lparr>fset_Files = map FileSetFile_DeepCopy (fset_Files f)\<rparr>"

section \<open>Lemmas\<close>

lemma FileSetFile_DeepCopy_id [simp]: "FileSetFile_DeepCopy f = f"
  by (simp add: FileSetFile_DeepCopy_def)

lemma FileSet_DeepCopy_id [simp]: "FileSet_DeepCopy f = f"
  by (simp add: FileSet_DeepCopy_def map_idI)

lemma FileSetFile_Validate_Nil_iff:
  "FileSetFile_Validate f = [] \<longleftrightarrow>
     file_Name f \<noteq> [] \<and> (file_Compression f = [] \<or> file_Compression f = ''gzip'')"
  by (auto simp: FileSetFile_Validate_def)

lemma FileSet_Validate_Nil_iff:
  "FileSet_Validate f = [] \<longleftrightarrow>
     fset_Files f \<noteq> [] \<and> (\<forall>file \<in> set (fset_Files f). FileSetFile_Validate file = [])"
  by (auto simp: FileSet_Validate_def)

text \<open>The file a map entry stands for.\<close>

definition file_of :: "string \<times> cfg_JobFile option \<Rightarrow> FileSetFile" where
  "file_of kv = \<lparr>file_Name = fst kv, file_Compression = cf_Compression (the (snd kv))\<rparr>"

lemma FileSetFile_ApplyConfig_default:
  "FileSetFile_ApplyConfig NewDefaultFileSetFile k fc = file_of (k, Some fc)"
  by (simp add: FileSetFile_ApplyConfig_def NewDefaultFileSetFile_def file_of_def)

lemma foldM_add_file:
  "None \<notin> snd ` set kvs \<Longrightarrow> foldM add_file files kvs = Ok (files @ map file_of kvs)"
proof (induction kvs arbitrary: files)
  case Nil
  then show ?case by simp
next
  case (Cons kv kvs)
  then obtain k fc where "kv = (k, Some fc)" by (cases kv; cases "snd kv") auto
  with Cons show ?case by (simp add: FileSetFile_ApplyConfig_default)
qed

lemma foldM_add_file_never_Err: "foldM add_file files kvs \<noteq> Err e"
proof (induction kvs arbitrary: files)
  case Nil
  then show ?case by simp
next
  case (Cons kv kvs)
  then show ?case by (cases kv; cases "snd kv") auto
qed

lemma FileSet_ApplyConfig_never_Err: "FileSet_ApplyConfig r f conf \<noteq> Err e"
  using foldM_add_file_never_Err [of "fset_Files f" "go_range r (cj_JobFile conf)" e]
  by (cases "foldM add_file (fset_Files f) (go_range r (cj_JobFile conf))")
    (simp_all add: FileSet_ApplyConfig_def)

text \<open>Without a nil entry every configured file is added, whatever the order of the range.\<close>

lemma FileSet_ApplyConfig_files:
  assumes "valid_rng r" "map_wf (cj_JobFile conf)" "None \<notin> snd ` set (cj_JobFile conf)"
  shows "\<exists>files. FileSet_ApplyConfig r f conf = Ok \<lparr>fset_Files = fset_Files f @ files\<rparr> \<and>
    mset files = image_mset file_of (mset (cj_JobFile conf))"
proof -
  have m: "mset (go_range r (cj_JobFile conf)) = mset (cj_JobFile conf)"
    by (rule go_range_mset) fact+
  then have "None \<notin> snd ` set (go_range r (cj_JobFile conf))"
    using assms(3) by (metis set_mset_mset)
  then show ?thesis
    by (intro exI [of _ "map file_of (go_range r (cj_JobFile conf))"])
      (simp add: FileSet_ApplyConfig_def foldM_add_file m)
qed

end
