(* ===== verification/Schedules.thy ===== *)
theory Schedules
  imports Config_Types
begin

text \<open>
  Schedules (model/schedule.go). A schedule is an interface with one implementation, the
  cron schedule, over the package cronexpr, which is not part of the repository: \<open>cron_lib\<close>
  holds its two functions. A parsed expression is an opaque handle. \<open>Next\<close> is exclusive: a
  time strictly after the given one, or the zero time when there is none; \<open>cron_ok\<close> states
  it for the library.
\<close>

type_synonym cronexpr = nat

record cron_lib =
  cron_Parse :: "string \<Rightarrow> string + cronexpr"
  cron_Next :: "cronexpr \<Rightarrow> gotime \<Rightarrow> gotime"

definition cron_ok :: "cron_lib \<Rightarrow> bool" where
  "cron_ok lib \<longleftrightarrow> (\<forall>e t. cron_Next lib e t = zero_time \<or> t < cron_Next lib e t)"

record CronSchedule =
  originalString :: string
  expr :: cronexpr

definition NewCronSchedule :: "cron_lib \<Rightarrow> string \<Rightarrow> CronSchedule res" where
  "NewCronSchedule lib cron =
     (case cron_Parse lib cron of
        Inl err \<Rightarrow> Err err
      | Inr e \<Rightarrow> Ok \<lparr>originalString = cron, expr = e\<rparr>)"

definition NewScheduleFromConfig :: "cron_lib \<Rightarrow> cfg_JobSchedule \<Rightarrow> CronSchedule res" where
  "NewScheduleFromConfig lib sched =
     (if cs_Cron sched = [] then Err ''Only cron supported currently''
      else NewCronSchedule lib (cs_Cron sched))"

definition Schedule_Next :: "cron_lib \<Rightarrow> CronSchedule \<Rightarrow> gotime \<Rightarrow> gotime" where
  "Schedule_Next lib c start = cron_Next lib (expr c) start"

text \<open>The copy parses the original string again and panics when that fails.\<close>

definition Schedule_DeepCopy :: "cron_lib \<Rightarrow> CronSchedule \<Rightarrow> CronSchedule res" where
  "Schedule_DeepCopy lib c =
     (case NewCronSchedule lib (originalString c) of
        Ok ret \<Rightarrow> Ok ret
      | Err err \<Rightarrow> Panic err
      | Panic p \<Rightarrow> Panic p)"

text \<open>A schedule the program made: its expression is what its string parses to.\<close>

definition Schedule_wf :: "cron_lib \<Rightarrow> CronSchedule \<Rightarrow> bool" where
  "Schedule_wf lib c \<longleftrightarrow> cron_Parse lib (originalString c) = Inr (expr c)"

section \<open>The interface\<close>

text \<open>
  What the clients of a schedule (jobs, the scheduler) rely on: copying one that was made
  by a constructor succeeds and the copy fires at the same times.
\<close>

locale schedule_iface =
  fixes next_of :: "'s \<Rightarrow> gotime \<Rightarrow> gotime"
    and copy_of :: "'s \<Rightarrow> 's res"
    and wf :: "'s \<Rightarrow> bool"
  assumes copy_total: "wf s \<Longrightarrow> \<exists>s'. copy_of s = Ok s'"
    and copy_wf: "wf s \<Longrightarrow> copy_of s = Ok s' \<Longrightarrow> wf s'"
    and copy_next: "wf s \<Longrightarrow> copy_of s = Ok s' \<Longrightarrow> next_of s' t = next_of s t"
begin

text \<open>Copies of copies, any number deep, still fire at the same times.\<close>

fun copies :: "nat \<Rightarrow> 's \<Rightarrow> 's res" where
  "copies 0 s = Ok s"
| "copies (Suc n) s = res_bind (copy_of s) (copies n)"

lemma copies_fire_alike:
  assumes "wf s"
  shows "\<exists>s'. copies n s = Ok s' \<and> wf s' \<and> (\<forall>t. next_of s' t = next_of s t)"
  using assms
proof (induction n arbitrary: s)
  case 0
  then show ?case by simp
next
  case (Suc n)
  obtain s1 where s1: "copy_of s = Ok s1" "wf s1"
    using copy_total [OF Suc.prems] copy_wf [OF Suc.prems] by blast
  from Suc.IH [OF s1(2)] obtain s' where
    "copies n s1 = Ok s'" "wf s'" "\<forall>t. next_of s' t = next_of s1 t" by blast
  then show ?case using s1(1) copy_next [OF Suc.prems s1(1)] by simp
qed

lemma copy_no_panic: "wf s \<Longrightarrow> \<not> is_panic (copy_of s)"
  using copy_total by (metis is_panic.simps(2))

end

lemma NewCronSchedule_wf: "NewCronSchedule lib s = Ok c \<Longrightarrow> Schedule_wf lib c"
  by (auto simp: NewCronSchedule_def Schedule_wf_def split: sum.splits)

lemma NewScheduleFromConfig_wf: "NewScheduleFromConfig lib s = Ok c \<Longrightarrow> Schedule_wf lib c"
  by (auto simp: NewScheduleFromConfig_def NewCronSchedule_wf split: if_splits)

lemma NewScheduleFromConfig_no_panic: "\<not> is_panic (NewScheduleFromConfig lib s)"
  by (simp add: NewScheduleFromConfig_def NewCronSchedule_def split: sum.split)

lemma Schedule_DeepCopy_wf: "Schedule_wf lib c \<Longrightarrow> Schedule_DeepCopy lib c = Ok c"
  by (simp add: Schedule_DeepCopy_def NewCronSchedule_def Schedule_wf_def)

interpretation cron: schedule_iface "Schedule_Next lib" "Schedule_DeepCopy lib" "Schedule_wf lib"
  for lib
  by unfold_locales (auto simp: Schedule_DeepCopy_wf)

end
