(* ===== verification/Templates.thy ===== *)
theory Templates
  imports Go_Strings
begin

text \<open>
  \<open>strings.Replace(s, old, new, -1)\<close> and template texts. A text in which every \<open>{{key}}\<close>
  stands alone (no variable inside another, no other brace) is the rendering of a list of
  tokens; on such texts replacing one variable is a map over the tokens, so replacing
  several in a row, in any order, is the simultaneous substitution of them all.
\<close>

section \<open>Replacing every occurrence\<close>

text \<open>
  The leftmost occurrence is replaced and the scan goes on after it. \<open>old\<close> is not empty
  wherever the program calls \<open>strings.Replace\<close>: it is \<open>{{key}}\<close>.
\<close>

function replace_ne :: "string \<Rightarrow> string \<Rightarrow> string \<Rightarrow> string" where
  "replace_ne old new [] = []"
| "replace_ne old new (c # cs) =
     (if old \<noteq> [] \<and> HasPrefix (c # cs) old
      then new @ replace_ne old new (drop (length old - 1) cs)
      else c # replace_ne old new cs)"
  by pat_completeness auto
termination
  by (relation "measure (\<lambda>(old, new, s). length s)") auto

lemma replace_ne_absent: "\<not> Contains s old \<Longrightarrow> replace_ne old new s = s"
  by (induction s) auto

lemma replace_ne_prefix:
  assumes "old \<noteq> []"
  shows "replace_ne old new (old @ s) = new @ replace_ne old new s"
proof -
  from assms obtain c cs where "old = c # cs" by (cases old) auto
  then show ?thesis by simp
qed

text \<open>A stretch of text in which no occurrence starts is copied.\<close>

lemma replace_ne_skip:
  assumes "\<And>i. i < length p \<Longrightarrow> \<not> HasPrefix (drop i p @ s) old"
  shows "replace_ne old new (p @ s) = p @ replace_ne old new s"
  using assms
proof (induction p)
  case Nil
  then show ?case by simp
next
  case (Cons c p)
  have "\<not> HasPrefix (c # p @ s) old"
    using Cons.prems [of 0] by simp
  moreover have "\<And>i. i < length p \<Longrightarrow> \<not> HasPrefix (drop i p @ s) old"
    using Cons.prems [of "Suc i" for i] by simp
  ultimately show ?case using Cons.IH by simp
qed

section \<open>Template variables\<close>

definition template_var :: "string \<Rightarrow> string" where
  "template_var key = ''{{'' @ key @ ''}}''"

definition brace_free :: "string \<Rightarrow> bool" where
  "brace_free s \<longleftrightarrow> CHR ''{'' \<notin> set s \<and> CHR ''}'' \<notin> set s"

text \<open>\<open>strings.Replace(s, "{{"+key+"}}", value, -1)\<close>.\<close>

definition replace_var :: "string \<Rightarrow> string \<Rightarrow> string \<Rightarrow> string" where
  "replace_var key val s = replace_ne (template_var key) val s"

datatype token = Lit string | Var string

fun token_ok :: "token \<Rightarrow> bool" where
  "token_ok (Lit s) = brace_free s"
| "token_ok (Var k) = brace_free k"

fun render1 :: "token \<Rightarrow> string" where
  "render1 (Lit s) = s"
| "render1 (Var k) = template_var k"

definition render :: "token list \<Rightarrow> string" where
  "render ts = concat (map render1 ts)"

fun subst1 :: "(string \<rightharpoonup> string) \<Rightarrow> token \<Rightarrow> token" where
  "subst1 m (Lit s) = Lit s"
| "subst1 m (Var k) = (case m k of None \<Rightarrow> Var k | Some v \<Rightarrow> Lit v)"

definition flat :: "token list \<Rightarrow> bool" where
  "flat ts \<longleftrightarrow> (\<forall>t \<in> set ts. token_ok t)"

lemma template_var_nonempty [simp]: "template_var k \<noteq> []"
  by (simp add: template_var_def)

lemma brace_free_Cons [simp]:
  "brace_free (c # s) \<longleftrightarrow> c \<noteq> CHR ''{'' \<and> c \<noteq> CHR ''}'' \<and> brace_free s"
  by (auto simp: brace_free_def)

lemma brace_free_Nil [simp]: "brace_free []"
  by (simp add: brace_free_def)

lemma flat_Cons [simp]: "flat (t # ts) \<longleftrightarrow> token_ok t \<and> flat ts"
  by (simp add: flat_def)

lemma flat_Nil [simp]: "flat []"
  by (simp add: flat_def)

lemma render_Cons [simp]: "render (t # ts) = render1 t @ render ts"
  by (simp add: render_def)

lemma render_Nil [simp]: "render [] = []"
  by (simp add: render_def)

text \<open>An occurrence of a variable starts with two opening braces.\<close>

lemma HasPrefix_var: "HasPrefix s (template_var k) \<Longrightarrow> \<exists>t. s = CHR ''{'' # CHR ''{'' # t"
  by (auto simp: HasPrefix_iff template_var_def)

lemma replace_var_brace_free:
  assumes "brace_free p"
  shows "replace_var k v (p @ s) = p @ replace_var k v s"
  unfolding replace_var_def
proof (rule replace_ne_skip)
  fix i
  assume "i < length p"
  then have "hd (drop i p @ s) = p ! i" "drop i p @ s \<noteq> []"
    by (simp_all add: hd_drop_conv_nth)
  moreover have "p ! i \<noteq> CHR ''{''"
    using assms \<open>i < length p\<close> by (metis brace_free_def nth_mem)
  ultimately show "\<not> HasPrefix (drop i p @ s) (template_var k)"
    using HasPrefix_var by fastforce
qed

text \<open>Two brace-free texts, each followed by a closing brace, are equal when one is a prefix.\<close>

lemma closing_brace_unique:
  assumes "brace_free a" "brace_free b" "a @ CHR ''}'' # x = b @ CHR ''}'' # y"
  shows "a = b"
  using assms
proof (induction a arbitrary: b)
  case Nil
  then show ?case by (cases b) auto
next
  case (Cons c a)
  then show ?case by (cases b) auto
qed

lemma HasPrefix_var_var:
  assumes "brace_free k" "brace_free k'"
  shows "HasPrefix (template_var k' @ s) (template_var k) \<longleftrightarrow> k' = k"
proof
  assume "HasPrefix (template_var k' @ s) (template_var k)"
  then obtain t where "k' @ CHR ''}'' # CHR ''}'' # s = k @ CHR ''}'' # CHR ''}'' # t"
    by (auto simp: HasPrefix_iff template_var_def)
  then show "k' = k" using assms closing_brace_unique by blast
qed simp

lemma replace_var_other:
  assumes "brace_free k" "brace_free k'" "k' \<noteq> k"
  shows "replace_var k v (template_var k' @ s) = template_var k' @ replace_var k v s"
  unfolding replace_var_def
proof (rule replace_ne_skip)
  fix i
  assume i: "i < length (template_var k')"
  show "\<not> HasPrefix (drop i (template_var k') @ s) (template_var k)"
  proof (cases i)
    case 0
    then show ?thesis using assms by (simp add: HasPrefix_var_var)
  next
    case (Suc j)
    then have j: "j < length (CHR ''{'' # k' @ ''}}'')"
      and eq: "drop i (template_var k') = drop j (CHR ''{'' # k' @ ''}}'')"
      using i by (simp_all add: template_var_def)
    show ?thesis
    proof (cases j)
      case 0
      have "\<forall>t. CHR ''{'' # k' @ CHR ''}'' # CHR ''}'' # s \<noteq> CHR ''{'' # CHR ''{'' # t"
        using assms(2) by (cases k') auto
      then show ?thesis using eq 0 HasPrefix_var by fastforce
    next
      case (Suc l)
      then have l: "l < length (k' @ ''}}'')" using j by simp
      have "(k' @ ''}}'') ! l \<noteq> CHR ''{''"
        using l assms(2) by (auto simp: nth_append nth_Cons' brace_free_def dest: nth_mem)
      then have "hd (drop l (k' @ ''}}'') @ s) \<noteq> CHR ''{''"
        using l by (metis hd_append2 hd_drop_conv_nth drop_eq_Nil not_le)
      then show ?thesis using eq Suc HasPrefix_var by fastforce
    qed
  qed
qed

text \<open>Replacing one variable in a flat text substitutes it in the tokens.\<close>

lemma replace_var_render:
  assumes "brace_free k" "flat ts"
  shows "replace_var k v (render ts) = render (map (subst1 [k \<mapsto> v]) ts)"
  using assms(2)
proof (induction ts)
  case Nil
  then show ?case by (simp add: replace_var_def)
next
  case (Cons t ts)
  show ?case
  proof (cases t)
    case (Lit s)
    then show ?thesis using Cons by (simp add: replace_var_brace_free)
  next
    case (Var k')
    show ?thesis
    proof (cases "k' = k")
      case True
      then show ?thesis using Cons Var by (simp add: replace_var_def replace_ne_prefix)
    next
      case False
      then show ?thesis using Cons Var assms(1) by (simp add: replace_var_other)
    qed
  qed
qed

lemma token_ok_subst1:
  "token_ok t \<Longrightarrow> (\<And>k v. m k = Some v \<Longrightarrow> brace_free v) \<Longrightarrow> token_ok (subst1 m t)"
  by (cases t) (simp_all split: option.split)

lemma flat_subst1:
  "flat ts \<Longrightarrow> (\<And>k v. m k = Some v \<Longrightarrow> brace_free v) \<Longrightarrow> flat (map (subst1 m) ts)"
  by (simp add: flat_def token_ok_subst1)

text \<open>Replacing the variables of a list one after the other.\<close>

definition replace_vars :: "(string \<times> string) list \<Rightarrow> string \<Rightarrow> string" where
  "replace_vars kvs s = foldl (\<lambda>s (k, v). replace_var k v s) s kvs"

definition template_ok :: "(string \<times> string) list \<Rightarrow> bool" where
  "template_ok kvs \<longleftrightarrow> (\<forall>(k, v) \<in> set kvs. brace_free k \<and> brace_free v)"

lemma replace_vars_Nil [simp]: "replace_vars [] s = s"
  by (simp add: replace_vars_def)

lemma replace_vars_Cons [simp]: "replace_vars ((k, v) # kvs) s = replace_vars kvs (replace_var k v s)"
  by (simp add: replace_vars_def)

lemma subst1_comp: "subst1 (map_of kvs) \<circ> subst1 [k \<mapsto> v] = subst1 (map_of ((k, v) # kvs))"
proof
  fix t
  show "(subst1 (map_of kvs) \<circ> subst1 [k \<mapsto> v]) t = subst1 (map_of ((k, v) # kvs)) t"
    by (cases t) auto
qed

theorem replace_vars_render:
  assumes "template_ok kvs" "flat ts"
  shows "replace_vars kvs (render ts) = render (map (subst1 (map_of kvs)) ts)"
  using assms
proof (induction kvs arbitrary: ts)
  case Nil
  have "map (subst1 Map.empty) ts = ts"
    by (rule map_idI) (metis option.simps(4) subst1.elims)
  then show ?case by simp
next
  case (Cons kv kvs)
  obtain k v where kv: "kv = (k, v)" by (cases kv)
  have ok: "brace_free k" "brace_free v" "template_ok kvs"
    using Cons.prems(1) by (auto simp: template_ok_def kv)
  have "flat (map (subst1 [k \<mapsto> v]) ts)"
    by (rule flat_subst1) (use Cons.prems(2) ok in \<open>auto split: if_splits\<close>)
  then have "replace_vars kvs (render (map (subst1 [k \<mapsto> v]) ts)) =
      render (map (subst1 (map_of kvs)) (map (subst1 [k \<mapsto> v]) ts))"
    by (rule Cons.IH [OF ok(3)])
  then show ?case
    using Cons.prems(2) ok(1) by (simp add: kv replace_var_render subst1_comp del: map_of.simps)
qed

text \<open>So the order in which a range visits the variables does not matter on flat texts.\<close>

corollary replace_vars_order:
  assumes "template_ok kvs" "flat ts" "distinct (map fst kvs)" "mset kvs' = mset kvs"
  shows "replace_vars kvs' (render ts) = replace_vars kvs (render ts)"
proof -
  have set: "set kvs' = set kvs" and d: "distinct (map fst kvs')"
    using assms(3,4) by (metis set_mset_mset, metis mset_eq_imp_distinct_iff mset_map)
  then have "map_of kvs' = map_of kvs" using assms(3) by (simp add: map_of_inject_set)
  moreover have "template_ok kvs'" using assms(1) set by (simp add: template_ok_def)
  ultimately show ?thesis using assms(1,2) by (simp add: replace_vars_render)
qed

end
