(* ===== verification/Jobs.thy ===== *)
theory Jobs
  imports Command_Set File_Set Schedules Templates
begin

text \<open>
  Jobs (model/job.go): a command set or a file set, a schedule, scrubbers for the output and
  template values. A configuration is applied on top of what the job already holds, once per
  level of the chain (job generic, job, device generic, device).
\<close>

section \<open>Scrubbers\<close>

record JobScrubber =
  scr_Type :: string
  scr_Search :: string
  scr_Replace :: string

definition NewJobScrubberFromConfig :: "cfg_JobScrubber \<Rightarrow> JobScrubber" where
  "NewJobScrubberFromConfig conf =
     (let typ = (if csc_Type conf = [] then ''simple'' else csc_Type conf);
          search = (if typ = ''regex'' \<or> typ = ''regex_substitute''
                    then sanitizeRegex (csc_Search conf) else csc_Search conf)
      in \<lparr>scr_Type = typ, scr_Search = search, scr_Replace = csc_Replace conf\<rparr>)"

definition JobScrubber_DeepCopy :: "JobScrubber \<Rightarrow> JobScrubber" where
  "JobScrubber_DeepCopy j =
     \<lparr>scr_Type = scr_Type j, scr_Search = scr_Search j, scr_Replace = scr_Replace j\<rparr>"

text \<open>\<open>None\<close> is the nil error.\<close>

definition JobScrubber_Validate :: "(string \<Rightarrow> string option) \<Rightarrow> JobScrubber \<Rightarrow> string option" where
  "JobScrubber_Validate re_compile j =
     (if scr_Search j = [] then Some ''No search given''
      else if scr_Type j = ''regex'' \<or> scr_Type j = ''regex_substitute'' then
        (if \<not> Contains (scr_Search j) ''{{'' then
           (case re_compile (scr_Search j) of
              Some err \<Rightarrow> Some (''Invalid regex '' @ quoted (scr_Search j) @ '': '' @ err)
            | None \<Rightarrow> None)
         else None)
      else if scr_Type j \<noteq> ''simple'' then Some (''Unrecognized scrubber type: '' @ scr_Type j)
      else None)"

section \<open>Jobs\<close>

record Job =
  job_Name :: string
  job_CommandSet :: "CommandSet option"
  job_FileSet :: "FileSet option"
  job_Schedule :: "CronSchedule option"
  job_Scrubbers :: "JobScrubber list"
  job_TemplateValues :: "string gomap"

definition NewDefaultJob :: "string \<Rightarrow> Job" where
  "NewDefaultJob name =
     \<lparr>job_Name = name, job_CommandSet = None, job_FileSet = None, job_Schedule = None,
      job_Scrubbers = [], job_TemplateValues = []\<rparr>"

text \<open>The first part of \<open>ApplyConfig\<close>: which kind of job this is.\<close>

definition choose_set :: "Job \<Rightarrow> cfg_Job \<Rightarrow> Job res" where
  "choose_set j conf =
     (if cj_Type conf = ''command'' then
        if job_FileSet j \<noteq> None then Err ''Generic file set in job of type command''
        else Ok (if job_CommandSet j = None
                 then j\<lparr>job_CommandSet := Some NewDefaultCommandSet\<rparr> else j)
      else if cj_Type conf = ''file'' then
        if job_CommandSet j \<noteq> None then Err ''Generic command set in job of type file''
        else Ok (if job_FileSet j = None then j\<lparr>job_FileSet := Some NewDefaultFileSet\<rparr> else j)
      else if cj_Type conf = [] then
        Ok (if job_FileSet j = None \<and> job_CommandSet j = None
            then j\<lparr>job_CommandSet := Some NewDefaultCommandSet\<rparr> else j)
      else Err (''Unrecognized job type '' @ cj_Type conf))"

definition apply_sets :: "rng \<Rightarrow> Job \<Rightarrow> cfg_Job \<Rightarrow> Job res" where
  "apply_sets r j conf =
     res_bind (case job_CommandSet j of None \<Rightarrow> Ok j
       | Some c \<Rightarrow> res_bind (CommandSet_ApplyConfig c conf) (\<lambda>c'.
           Ok (j\<lparr>job_CommandSet := Some c'\<rparr>))) (\<lambda>j.
     case job_FileSet j of None \<Rightarrow> Ok j
       | Some f \<Rightarrow> res_bind (FileSet_ApplyConfig (at ''JobFile'' r) f conf) (\<lambda>f'.
           Ok (j\<lparr>job_FileSet := Some f'\<rparr>)))"

definition apply_schedule :: "cron_lib \<Rightarrow> Job \<Rightarrow> cfg_Job \<Rightarrow> Job res" where
  "apply_schedule lib j conf =
     (case cj_JobSchedule conf of None \<Rightarrow> Ok j
      | Some sc \<Rightarrow>
          res_bind (map_err (\<lambda>err. ''Invalid schedule: '' @ err) (NewScheduleFromConfig lib sc))
            (\<lambda>sched. Ok (j\<lparr>job_Schedule := Some sched\<rparr>)))"

definition add_scrubber :: "JobScrubber list \<Rightarrow> cfg_JobScrubber option \<Rightarrow> JobScrubber list res" where
  "add_scrubber ss conf =
     (case conf of None \<Rightarrow> nil_deref | Some sc \<Rightarrow> Ok (ss @ [NewJobScrubberFromConfig sc]))"

definition put_all :: "'v gomap \<Rightarrow> (string \<times> 'v) list \<Rightarrow> 'v gomap" where
  "put_all m kvs = foldl (\<lambda>m (k, v). map_put k v m) m kvs"

text \<open>\<open>conf\<close> is a pointer the callers take from a map, so it may be nil.\<close>

definition Job_ApplyConfig :: "cron_lib \<Rightarrow> rng \<Rightarrow> Job \<Rightarrow> cfg_Job option \<Rightarrow> Job res" where
  "Job_ApplyConfig lib r j conf_ptr =
     (case conf_ptr of None \<Rightarrow> nil_deref
      | Some conf \<Rightarrow>
          res_bind (choose_set j conf) (\<lambda>j.
          res_bind (apply_sets r j conf) (\<lambda>j.
          res_bind (apply_schedule lib j conf) (\<lambda>j.
          res_bind (foldM add_scrubber (job_Scrubbers j) (cj_Scrubbers conf)) (\<lambda>ss.
          Ok (j\<lparr>job_Scrubbers := ss,
                job_TemplateValues :=
                  put_all (job_TemplateValues j)
                    (go_range (at ''TemplateValues'' r) (cj_TemplateValues conf))\<rparr>))))))"

section \<open>Template values\<close>

definition command_replace :: "string \<Rightarrow> string \<Rightarrow> CommandSetCommand \<Rightarrow> CommandSetCommand" where
  "command_replace key val cmd =
     cmd\<lparr>cmd_Command := replace_var key val (cmd_Command cmd),
         cmd_Expect := map (replace_var key val) (cmd_Expect cmd),
         cmd_ExpectNot := map (replace_var key val) (cmd_ExpectNot cmd)\<rparr>"

definition scrubber_replace :: "string \<Rightarrow> string \<Rightarrow> JobScrubber \<Rightarrow> JobScrubber" where
  "scrubber_replace key val s =
     s\<lparr>scr_Search := replace_var key val (scr_Search s),
       scr_Replace := replace_var key val (scr_Replace s)\<rparr>"

text \<open>One round of the outer loop of \<open>ApplyTemplateValues\<close>.\<close>

definition template_step :: "Job \<Rightarrow> string \<times> string \<Rightarrow> Job" where
  "template_step j kv =
     (case kv of (key, val) \<Rightarrow>
        j\<lparr>job_CommandSet :=
            map_option (\<lambda>c. c\<lparr>cset_Commands := map (command_replace key val) (cset_Commands c)\<rparr>)
              (job_CommandSet j),
          job_Scrubbers := map (scrubber_replace key val) (job_Scrubbers j)\<rparr>)"

definition ApplyTemplateValues :: "rng \<Rightarrow> Job \<Rightarrow> Job" where
  "ApplyTemplateValues r j = foldl template_step j (go_range r (job_TemplateValues j))"

section \<open>Copying and validating\<close>

definition Job_DeepCopy :: "cron_lib \<Rightarrow> rng \<Rightarrow> Job \<Rightarrow> Job res" where
  "Job_DeepCopy lib r j =
     (case job_Schedule j of None \<Rightarrow> nil_deref
      | Some s \<Rightarrow>
          res_bind (Schedule_DeepCopy lib s) (\<lambda>s'.
          Ok \<lparr>job_Name = job_Name j,
              job_CommandSet = map_option CommandSet_DeepCopy (job_CommandSet j),
              job_FileSet = map_option FileSet_DeepCopy (job_FileSet j),
              job_Schedule = Some s',
              job_Scrubbers = map JobScrubber_DeepCopy (job_Scrubbers j),
              job_TemplateValues = put_all [] (go_range r (job_TemplateValues j))\<rparr>))"

definition Job_Validate :: "(string \<Rightarrow> string option) \<Rightarrow> Job \<Rightarrow> string list" where
  "Job_Validate re_compile j =
     (if job_Schedule j = None then [''Job schedule required''] else [])
     @ (case job_CommandSet j of None \<Rightarrow> [] | Some c \<Rightarrow> CommandSet_Validate re_compile c)
     @ (case job_FileSet j of None \<Rightarrow> [] | Some f \<Rightarrow> FileSet_Validate f)
     @ concat (map (\<lambda>s. case JobScrubber_Validate re_compile s of
           None \<Rightarrow> [] | Some err \<Rightarrow> [''Scrubber validation failed: '' @ err]) (job_Scrubbers j))"

section \<open>Invariant\<close>

text \<open>
  A job the program has built: never both a command set and a file set, a schedule only out
  of a constructor, a map with distinct keys.
\<close>

definition Job_wf :: "cron_lib \<Rightarrow> Job \<Rightarrow> bool" where
  "Job_wf lib j \<longleftrightarrow>
     (job_CommandSet j = None \<or> job_FileSet j = None) \<and>
     (\<forall>s. job_Schedule j = Some s \<longrightarrow> Schedule_wf lib s) \<and>
     map_wf (job_TemplateValues j)"

lemma NewDefaultJob_wf [simp]: "Job_wf lib (NewDefaultJob name)"
  by (simp add: Job_wf_def NewDefaultJob_def)

lemma put_all_wf [simp]: "map_wf m \<Longrightarrow> map_wf (put_all m kvs)"
  by (simp add: put_all_def map_wf_foldl_put)

lemma map_of_put_all:
  "distinct (map fst kvs) \<Longrightarrow> map_of (put_all m kvs) = map_of m ++ map_of kvs"
  by (simp add: put_all_def map_of_foldl_put map_of_rev_distinct)

lemma map_of_put_all_range:
  "valid_rng r \<Longrightarrow> map_wf tv \<Longrightarrow> map_of (put_all m (go_range r tv)) = map_of m ++ map_of tv"
  by (simp add: map_of_put_all go_range_distinct map_of_go_range)

text \<open>What each part of \<open>ApplyConfig\<close> leaves alone.\<close>

lemma choose_set_Ok:
  "choose_set j conf = Ok j' \<Longrightarrow> Job_wf lib j \<Longrightarrow>
     Job_wf lib j' \<and> (job_CommandSet j' \<noteq> None \<or> job_FileSet j' \<noteq> None) \<and>
     job_Name j' = job_Name j \<and> job_Schedule j' = job_Schedule j \<and>
     job_Scrubbers j' = job_Scrubbers j \<and> job_TemplateValues j' = job_TemplateValues j"
  by (auto simp: choose_set_def Job_wf_def split: if_splits)

lemma apply_sets_Ok:
  "apply_sets r j conf = Ok j' \<Longrightarrow>
     (job_CommandSet j' = None \<longleftrightarrow> job_CommandSet j = None) \<and>
     (job_FileSet j' = None \<longleftrightarrow> job_FileSet j = None) \<and>
     job_Name j' = job_Name j \<and> job_Schedule j' = job_Schedule j \<and>
     job_Scrubbers j' = job_Scrubbers j \<and> job_TemplateValues j' = job_TemplateValues j"
  by (auto simp: apply_sets_def go_simps split: option.splits)

lemma apply_schedule_Ok:
  "apply_schedule lib j conf = Ok j' \<Longrightarrow>
     job_CommandSet j' = job_CommandSet j \<and> job_FileSet j' = job_FileSet j \<and>
     job_Name j' = job_Name j \<and>
     job_Scrubbers j' = job_Scrubbers j \<and> job_TemplateValues j' = job_TemplateValues j"
  by (auto simp: apply_schedule_def go_simps split: option.splits)

lemma apply_schedule_Schedule:
  "apply_schedule lib j conf = Ok j' \<Longrightarrow>
     (case cj_JobSchedule conf of None \<Rightarrow> job_Schedule j' = job_Schedule j
      | Some sc \<Rightarrow> \<exists>s. NewScheduleFromConfig lib sc = Ok s \<and> job_Schedule j' = Some s)"
  by (auto simp: apply_schedule_def go_simps split: option.splits)

lemma apply_schedule_wf:
  "apply_schedule lib j conf = Ok j' \<Longrightarrow>
     (\<And>s. job_Schedule j = Some s \<Longrightarrow> Schedule_wf lib s) \<Longrightarrow>
     job_Schedule j' = Some s \<Longrightarrow> Schedule_wf lib s"
  by (auto dest!: apply_schedule_Schedule simp: NewScheduleFromConfig_wf split: option.splits)

text \<open>The steps of a successful \<open>ApplyConfig\<close>, for the proofs about it.\<close>

lemma Job_ApplyConfig_cases:
  assumes "Job_ApplyConfig lib r j conf = Ok j'"
  obtains c j1 j2 j3 ss where
    "conf = Some c" "choose_set j c = Ok j1" "apply_sets r j1 c = Ok j2"
    "apply_schedule lib j2 c = Ok j3" "foldM add_scrubber (job_Scrubbers j3) (cj_Scrubbers c) = Ok ss"
    "j' = j3\<lparr>job_Scrubbers := ss, job_TemplateValues := put_all (job_TemplateValues j3)
          (go_range (at ''TemplateValues'' r) (cj_TemplateValues c))\<rparr>"
  using assms by (auto simp: Job_ApplyConfig_def go_simps split: option.splits)

lemma Job_ApplyConfig_wf:
  assumes "Job_ApplyConfig lib r j conf = Ok j'" "Job_wf lib j"
  shows "Job_wf lib j' \<and> job_Name j' = job_Name j \<and>
     (job_CommandSet j' \<noteq> None \<or> job_FileSet j' \<noteq> None)"
  using assms(1)
proof (cases rule: Job_ApplyConfig_cases)
  case (1 c j1 j2 j3 ss)
  note facts = choose_set_Ok [OF 1(2) assms(2)] apply_sets_Ok [OF 1(3)] apply_schedule_Ok [OF 1(4)]
  have "\<forall>s. job_Schedule j3 = Some s \<longrightarrow> Schedule_wf lib s"
    using apply_schedule_wf [OF 1(4)] facts by (auto simp: Job_wf_def)
  with facts 1(6) show ?thesis by (auto simp: Job_wf_def)
qed

section \<open>Panics\<close>

text \<open>
  A configuration without null entries, and a job whose command set (if any) still has its
  \<open>Generic\<close>: then \<open>ApplyConfig\<close> does not panic, and the job stays ready for the next one.
\<close>

definition cfg_Job_no_nil :: "cfg_Job \<Rightarrow> bool" where
  "cfg_Job_no_nil c \<longleftrightarrow>
     None \<notin> set (cj_Commands c) \<and> None \<notin> set (cj_Scrubbers c) \<and>
     None \<notin> snd ` set (cj_JobFile c)"

definition generic_ready :: "Job \<Rightarrow> bool" where
  "generic_ready j \<longleftrightarrow> (\<forall>c. job_CommandSet j = Some c \<longrightarrow> cset_Generic c \<noteq> None)"

lemma NewDefaultJob_ready [simp]: "generic_ready (NewDefaultJob name)"
  by (simp add: generic_ready_def NewDefaultJob_def)

lemma choose_set_ready: "choose_set j c = Ok j' \<Longrightarrow> generic_ready j \<Longrightarrow> generic_ready j'"
  by (auto simp: choose_set_def generic_ready_def NewDefaultCommandSet_def split: if_splits)

lemma choose_set_no_panic: "\<not> is_panic (choose_set j c)"
  by (simp add: choose_set_def)

lemma CommandSet_ApplyConfig_ready:
  assumes "cset_Generic s \<noteq> None" "None \<notin> set (cj_Commands c)"
  shows "\<exists>s'. CommandSet_ApplyConfig s c = Ok s' \<and> cset_Generic s' \<noteq> None"
  using assms CommandSet_ApplyConfig_Some by fastforce

lemma visit_no_nil: "None \<notin> snd ` set m \<Longrightarrow> None \<notin> snd ` set (visit m ks)"
  by (auto simp: visit_mem dest!: map_of_SomeD)

lemma go_range_no_nil: "None \<notin> snd ` set m \<Longrightarrow> None \<notin> snd ` set (go_range r m)"
  by (simp add: go_range_def visit_no_nil)

lemma FileSet_ApplyConfig_total:
  "None \<notin> snd ` set (cj_JobFile c) \<Longrightarrow> \<exists>f'. FileSet_ApplyConfig r f c = Ok f'"
  by (simp add: FileSet_ApplyConfig_def foldM_add_file go_range_no_nil)

lemma apply_sets_ready:
  assumes "generic_ready j" "cfg_Job_no_nil c"
  shows "\<exists>j'. apply_sets r j c = Ok j' \<and> generic_ready j'"
proof -
  obtain j1 where j1: "(case job_CommandSet j of None \<Rightarrow> Ok j
       | Some cs \<Rightarrow> res_bind (CommandSet_ApplyConfig cs c) (\<lambda>c'.
           Ok (j\<lparr>job_CommandSet := Some c'\<rparr>))) = Ok j1" "generic_ready j1"
  proof (cases "job_CommandSet j")
    case None
    then show ?thesis using that assms(1) by simp
  next
    case (Some cs)
    then obtain cs' where "CommandSet_ApplyConfig cs c = Ok cs'" "cset_Generic cs' \<noteq> None"
      using assms CommandSet_ApplyConfig_ready
      by (metis cfg_Job_no_nil_def generic_ready_def)
    then show ?thesis using Some that by (simp add: generic_ready_def)
  qed
  show ?thesis
  proof (cases "job_FileSet j1")
    case None
    then show ?thesis using j1 by (simp add: apply_sets_def)
  next
    case (Some f)
    obtain f' where "FileSet_ApplyConfig (at ''JobFile'' r) f c = Ok f'"
      using assms(2) FileSet_ApplyConfig_total by (metis cfg_Job_no_nil_def)
    then show ?thesis using j1 Some by (simp add: apply_sets_def generic_ready_def)
  qed
qed

lemma apply_schedule_no_panic: "\<not> is_panic (apply_schedule lib j c)"
  by (auto simp: apply_schedule_def go_simps NewScheduleFromConfig_no_panic split: option.split)

lemma foldM_add_scrubber:
  "None \<notin> set confs \<Longrightarrow>
   foldM add_scrubber ss confs = Ok (ss @ map (\<lambda>sc. NewJobScrubberFromConfig (the sc)) confs)"
proof (induction confs arbitrary: ss)
  case Nil
  then show ?case by simp
next
  case (Cons sc confs)
  then show ?case by (cases sc) (simp_all add: add_scrubber_def)
qed

lemma Job_ApplyConfig_ready:
  assumes "generic_ready j" "cfg_Job_no_nil c"
  shows "\<not> is_panic (Job_ApplyConfig lib r j (Some c))"
    and "Job_ApplyConfig lib r j (Some c) = Ok j' \<Longrightarrow> generic_ready j'"
proof -
  have step: "\<exists>j2. apply_sets r j1 c = Ok j2 \<and> generic_ready j2" if "choose_set j c = Ok j1" for j1
    using apply_sets_ready choose_set_ready that assms by blast
  have scr: "None \<notin> set (cj_Scrubbers c)" using assms(2) by (simp add: cfg_Job_no_nil_def)
  show "\<not> is_panic (Job_ApplyConfig lib r j (Some c))"
    using step
    by (auto simp: Job_ApplyConfig_def go_simps choose_set_no_panic apply_schedule_no_panic
        foldM_add_scrubber [OF scr])
  show "generic_ready j'" if "Job_ApplyConfig lib r j (Some c) = Ok j'"
    using that
  proof (cases rule: Job_ApplyConfig_cases)
    case (1 c' j1 j2 j3 ss)
    then have "generic_ready j2" using step [of j1] by auto
    with 1(4,6) show ?thesis
      by (auto simp: generic_ready_def dest: apply_schedule_Ok)
  qed
qed

section \<open>Copies\<close>

text \<open>What a copy keeps: everything but the \<open>Generic\<close> of the command set.\<close>

definition same_job :: "Job \<Rightarrow> Job \<Rightarrow> bool" where
  "same_job j j' \<longleftrightarrow>
     job_Name j' = job_Name j \<and>
     map_option cset_Commands (job_CommandSet j') = map_option cset_Commands (job_CommandSet j) \<and>
     job_FileSet j' = job_FileSet j \<and> job_Schedule j' = job_Schedule j \<and>
     job_Scrubbers j' = job_Scrubbers j \<and>
     map_of (job_TemplateValues j') = map_of (job_TemplateValues j)"

lemma JobScrubber_DeepCopy_id [simp]: "JobScrubber_DeepCopy s = s"
  by (simp add: JobScrubber_DeepCopy_def)

lemma map_JobScrubber_DeepCopy_id [simp]: "map JobScrubber_DeepCopy ss = ss"
  by (simp add: map_idI)

lemma map_option_FileSet_DeepCopy [simp]: "map_option FileSet_DeepCopy x = x"
  by (cases x) simp_all

lemma map_option_Commands_DeepCopy [simp]:
  "map_option cset_Commands (map_option CommandSet_DeepCopy x) = map_option cset_Commands x"
  by (cases x) simp_all

lemma Job_DeepCopy_Ok:
  assumes "Job_wf lib j" "job_Schedule j = Some s"
  shows "Job_DeepCopy lib r j =
    Ok (j\<lparr>job_CommandSet := map_option CommandSet_DeepCopy (job_CommandSet j),
          job_TemplateValues := put_all [] (go_range r (job_TemplateValues j))\<rparr>)"
  using assms
  by (cases j) (simp add: Job_DeepCopy_def Job_wf_def Schedule_DeepCopy_wf)

lemma Job_DeepCopy_same:
  assumes "Job_wf lib j" "job_Schedule j = Some s" "valid_rng r"
  shows "\<exists>j'. Job_DeepCopy lib r j = Ok j' \<and> same_job j j' \<and> Job_wf lib j'"
  using assms
  by (simp add: Job_DeepCopy_Ok same_job_def Job_wf_def map_of_put_all_range
      del: option.map_comp)

lemma Job_Validate_same:
  assumes "same_job j j'"
  shows "Job_Validate re j' = Job_Validate re j"
proof -
  have "(case job_CommandSet j' of None \<Rightarrow> [] | Some c \<Rightarrow> CommandSet_Validate re c) =
      (case job_CommandSet j of None \<Rightarrow> [] | Some c \<Rightarrow> CommandSet_Validate re c)"
    using assms
    by (cases "job_CommandSet j"; cases "job_CommandSet j'")
      (auto simp: same_job_def CommandSet_Validate_def)
  with assms show ?thesis by (simp add: same_job_def Job_Validate_def)
qed

lemma Job_Validate_Nil_iff:
  "Job_Validate re j = [] \<longleftrightarrow>
     job_Schedule j \<noteq> None \<and>
     (\<forall>c. job_CommandSet j = Some c \<longrightarrow> CommandSet_Validate re c = []) \<and>
     (\<forall>f. job_FileSet j = Some f \<longrightarrow> FileSet_Validate f = []) \<and>
     (\<forall>s \<in> set (job_Scrubbers j). JobScrubber_Validate re s = None)"
  by (auto simp: Job_Validate_def split: option.splits)

end
