(* ===== verification/Job_Templates.thy ===== *)
theory Job_Templates
  imports Jobs
begin

text \<open>
  What \<open>ApplyTemplateValues\<close> does to a job as a whole: every text of the job (commands,
  patterns, scrubber searches and replacements) has the template values replaced, one after
  the other in the order of the range. On texts whose variables are not nested, with values
  free of braces, the order does not matter and the result is the simultaneous substitution;
  with a value that mentions another variable it does matter.
\<close>

section \<open>Texts of a job\<close>

definition command_map :: "(string \<Rightarrow> string) \<Rightarrow> CommandSetCommand \<Rightarrow> CommandSetCommand" where
  "command_map f cmd =
     cmd\<lparr>cmd_Command := f (cmd_Command cmd), cmd_Expect := map f (cmd_Expect cmd),
         cmd_ExpectNot := map f (cmd_ExpectNot cmd)\<rparr>"

definition scrubber_map :: "(string \<Rightarrow> string) \<Rightarrow> JobScrubber \<Rightarrow> JobScrubber" where
  "scrubber_map f s = s\<lparr>scr_Search := f (scr_Search s), scr_Replace := f (scr_Replace s)\<rparr>"

definition job_map :: "(string \<Rightarrow> string) \<Rightarrow> Job \<Rightarrow> Job" where
  "job_map f j =
     j\<lparr>job_CommandSet :=
         map_option (\<lambda>c. c\<lparr>cset_Commands := map (command_map f) (cset_Commands c)\<rparr>)
           (job_CommandSet j),
       job_Scrubbers := map (scrubber_map f) (job_Scrubbers j)\<rparr>"

definition command_texts :: "CommandSetCommand \<Rightarrow> string set" where
  "command_texts cmd = {cmd_Command cmd} \<union> set (cmd_Expect cmd) \<union> set (cmd_ExpectNot cmd)"

definition job_texts :: "Job \<Rightarrow> string set" where
  "job_texts j =
     (case job_CommandSet j of None \<Rightarrow> {}
      | Some c \<Rightarrow> \<Union> (command_texts ` set (cset_Commands c)))
     \<union> (\<Union>s \<in> set (job_Scrubbers j). {scr_Search s, scr_Replace s})"

lemma command_map_comp: "command_map g (command_map f c) = command_map (\<lambda>s. g (f s)) c"
  by (simp add: command_map_def)

lemma scrubber_map_comp: "scrubber_map g (scrubber_map f c) = scrubber_map (\<lambda>s. g (f s)) c"
  by (simp add: scrubber_map_def)

lemma job_map_comp: "job_map g (job_map f j) = job_map (\<lambda>s. g (f s)) j"
  by (cases "job_CommandSet j")
    (simp_all add: job_map_def command_map_comp scrubber_map_comp)

lemma job_map_id: "job_map (\<lambda>s. s) j = j"
proof -
  have "command_map (\<lambda>s. s) = (\<lambda>c. c)" "scrubber_map (\<lambda>s. s) = (\<lambda>c. c)"
    by (auto simp: command_map_def scrubber_map_def fun_eq_iff)
  then show ?thesis by (cases "job_CommandSet j") (simp_all add: job_map_def)
qed

lemma command_map_cong:
  "(\<And>s. s \<in> command_texts c \<Longrightarrow> f s = g s) \<Longrightarrow> command_map f c = command_map g c"
  by (simp add: command_map_def command_texts_def)

lemma job_map_cong:
  assumes "\<And>s. s \<in> job_texts j \<Longrightarrow> f s = g s"
  shows "job_map f j = job_map g j"
proof -
  have "map (scrubber_map f) (job_Scrubbers j) = map (scrubber_map g) (job_Scrubbers j)"
  proof (rule map_cong [OF refl])
    fix s
    assume "s \<in> set (job_Scrubbers j)"
    then have "f (scr_Search s) = g (scr_Search s)" "f (scr_Replace s) = g (scr_Replace s)"
      by (auto intro!: assms simp: job_texts_def)
    then show "scrubber_map f s = scrubber_map g s" by (simp add: scrubber_map_def)
  qed
  moreover have "map (command_map f) (cset_Commands c) = map (command_map g) (cset_Commands c)"
    if "job_CommandSet j = Some c" for c
    using assms that by (auto simp: job_texts_def intro!: command_map_cong)
  ultimately show ?thesis by (cases "job_CommandSet j") (simp_all add: job_map_def)
qed

section \<open>Applying the template values\<close>

lemma template_step_eq: "template_step j (k, v) = job_map (replace_var k v) j"
  by (simp add: template_step_def job_map_def command_map_def [abs_def] command_replace_def [abs_def]
      scrubber_map_def [abs_def] scrubber_replace_def [abs_def])

lemma foldl_template_step: "foldl template_step j kvs = job_map (replace_vars kvs) j"
proof (induction kvs arbitrary: j)
  case Nil
  then show ?case by (simp add: replace_vars_def [abs_def] job_map_id)
next
  case (Cons kv kvs)
  obtain k v where "kv = (k, v)" by (cases kv)
  with Cons show ?case by (simp add: template_step_eq job_map_comp)
qed

lemma ApplyTemplateValues_eq:
  "ApplyTemplateValues r j = job_map (replace_vars (go_range r (job_TemplateValues j))) j"
  by (simp add: ApplyTemplateValues_def foldl_template_step)

text \<open>\<open>tok\<close> splits every text of the job into literals and variables that stand alone.\<close>

definition tokenizes :: "(string \<Rightarrow> token list) \<Rightarrow> Job \<Rightarrow> bool" where
  "tokenizes tok j \<longleftrightarrow> (\<forall>s \<in> job_texts j. flat (tok s) \<and> render (tok s) = s)"

lemma template_ok_range: "valid_rng r \<Longrightarrow> template_ok tv \<Longrightarrow> template_ok (go_range r tv)"
  by (auto simp: template_ok_def go_range_mem dest!: map_of_SomeD)


definition sample_job :: "string \<Rightarrow> string gomap \<Rightarrow> Job" where
  "sample_job text tv =
     (NewDefaultJob ''job'')\<lparr>job_CommandSet := Some (NewDefaultCommandSet\<lparr>cset_Commands :=
          [NewDefaultCommandSetCommand\<lparr>cmd_Command := text\<rparr>]\<rparr>),
        job_TemplateValues := tv\<rparr>"

definition enable_tokens :: "string \<Rightarrow> token list" where
  "enable_tokens s = (if s = ''enable {{pw}}'' then [Lit ''enable '', Var ''pw''] else [Lit s])"


text \<open>
  Without that restriction the outcome depends on the order of the map: with a value that
  itself mentions a variable, two orders Go may choose give two different commands.
\<close>

theorem ApplyTemplateValues_order_dependent:
  "\<exists>r r' j. valid_rng r \<and> valid_rng r' \<and> map_wf (job_TemplateValues j) \<and>
     ApplyTemplateValues r j \<noteq> ApplyTemplateValues r' j"
proof -
  let ?tv = "[(''a'', ''{{b}}''), (''b'', ''c'')]"
  let ?j = "sample_job ''{{a}}'' ?tv"
  have tv: "job_TemplateValues ?j = ?tv" by (simp add: sample_job_def)
  have "ApplyTemplateValues (\<lambda>p ks. ks) ?j = job_map (replace_vars ?tv) ?j"
    by (simp add: ApplyTemplateValues_eq tv go_range_def)
  moreover have "ApplyTemplateValues (\<lambda>p. rev) ?j = job_map (replace_vars (rev ?tv)) ?j"
    by (simp add: ApplyTemplateValues_eq tv go_range_def)
  moreover have "replace_vars ?tv ''{{a}}'' = ''c''" "replace_vars (rev ?tv) ''{{a}}'' = ''{{b}}''"
    by (simp_all add: replace_var_def template_var_def)
  then have "job_map (replace_vars ?tv) ?j \<noteq> job_map (replace_vars (rev ?tv)) ?j"
    by (simp add: job_map_def command_map_def sample_job_def NewDefaultCommandSet_def
        NewDefaultCommandSetCommand_def NewDefaultJob_def)
  ultimately show ?thesis
    by (intro exI [of _ "\<lambda>p ks. ks"] exI [of _ "\<lambda>p. rev"] exI [of _ ?j])
      (simp add: tv)
qed

end
