(* ===== verification/Devices.thy ===== *)
theory Devices
  imports Jobs
begin

text \<open>
  Devices (model/device.go, model/execution.go): where to connect, with which protocol and
  credentials, and the jobs to run there. \<open>ApplyConfig\<close> is run for the device generic and then
  for the device itself; it configures only jobs the device already has.
\<close>

record SshDeviceProtocol =
  ssh_Port :: int
  ssh_IncludeCbcCiphers :: bool

record DeviceProtocol =
  dp_Type :: string
  dp_SshDeviceProtocol :: "SshDeviceProtocol option"

record DeviceCredentials =
  cred_User :: string
  cred_Pass :: string

record Device =
  dev_Name :: string
  dev_Host :: string
  dev_DeviceCredentials :: "DeviceCredentials option"
  dev_DeviceProtocol :: "DeviceProtocol option"
  dev_Tags :: "string list"
  dev_Jobs :: "Job gomap"

definition NewDefaultDevice :: "string \<Rightarrow> Device" where
  "NewDefaultDevice name =
     \<lparr>dev_Name = name, dev_Host = name, dev_DeviceCredentials = None,
      dev_DeviceProtocol = Some \<lparr>dp_Type = ''ssh'',
        dp_SshDeviceProtocol = Some \<lparr>ssh_Port = 22, ssh_IncludeCbcCiphers = False\<rparr>\<rparr>,
      dev_Tags = [], dev_Jobs = []\<rparr>"

text \<open>The \<open>switch\<close> on the protocol type; \<open>d.DeviceProtocol\<close> is dereferenced.\<close>

definition apply_protocol :: "Device \<Rightarrow> cfg_Device \<Rightarrow> Device res" where
  "apply_protocol d conf =
     (case cd_DeviceProtocol conf of None \<Rightarrow> Ok d
      | Some p \<Rightarrow>
          if cp_Type p = ''ssh'' then
            (case dev_DeviceProtocol d of None \<Rightarrow> nil_deref
             | Some dp \<Rightarrow>
                 let port = (case cp_DeviceProtocolSsh p of None \<Rightarrow> 22 | Some s \<Rightarrow> cps_Port s);
                     cbc = (case cp_DeviceProtocolSsh p of None \<Rightarrow> False
                            | Some s \<Rightarrow> cps_IncludeCbcCiphers s)
                 in Ok (d\<lparr>dev_DeviceProtocol := Some (dp\<lparr>dp_Type := ''ssh'',
                      dp_SshDeviceProtocol :=
                        Some \<lparr>ssh_Port = port, ssh_IncludeCbcCiphers = cbc\<rparr>\<rparr>)\<rparr>))
          else Err (''Unrecognized protocol type: '' @ cp_Type p))"

definition apply_credentials :: "DeviceCredentials option \<Rightarrow> cfg_DeviceCredentials option
    \<Rightarrow> DeviceCredentials option" where
  "apply_credentials creds conf =
     (case conf of None \<Rightarrow> creds
      | Some c \<Rightarrow>
          let cr = (case creds of None \<Rightarrow> \<lparr>cred_User = [], cred_Pass = []\<rparr> | Some cr \<Rightarrow> cr)
          in Some \<lparr>cred_User = (if ccr_User c \<noteq> [] then ccr_User c else cred_User cr),
                  cred_Pass = (if ccr_Pass c \<noteq> [] then ccr_Pass c else cred_Pass cr)\<rparr>)"

text \<open>One round of the loop over \<open>conf.Jobs\<close>: only a job the device has is configured.\<close>

fun apply_device_job ::
    "cron_lib \<Rightarrow> rng \<Rightarrow> Job gomap \<Rightarrow> string \<times> cfg_Job option \<Rightarrow> Job gomap res" where
  "apply_device_job lib r jobs (name, job) =
     (case map_of jobs name of None \<Rightarrow> Ok jobs
      | Some existing \<Rightarrow>
          res_bind
            (map_err (\<lambda>err. ''Unable to configure job '' @ name @ '': '' @ err)
              (Job_ApplyConfig lib (at ''config'' (at name r)) existing job))
            (\<lambda>j. Ok (map_put name (ApplyTemplateValues (at ''template'' (at name r)) j) jobs)))"

definition Device_ApplyConfig :: "cron_lib \<Rightarrow> rng \<Rightarrow> Device \<Rightarrow> cfg_Device \<Rightarrow> Device res" where
  "Device_ApplyConfig lib r d conf =
     res_bind
       (apply_protocol
         (if cd_Host conf \<noteq> [] then d\<lparr>dev_Host := cd_Host conf\<rparr> else d) conf) (\<lambda>d.
     let d = d\<lparr>dev_Tags := dev_Tags d @ cd_Tags conf,
               dev_DeviceCredentials :=
                 apply_credentials (dev_DeviceCredentials d) (cd_DeviceCredentials conf)\<rparr>
     in res_bind (foldM (apply_device_job lib r) (dev_Jobs d) (go_range r (cd_Jobs conf)))
          (\<lambda>jobs. Ok (d\<lparr>dev_Jobs := jobs\<rparr>)))"

definition Device_Validate :: "(string \<Rightarrow> string option) \<Rightarrow> rng \<Rightarrow> Device \<Rightarrow> string list" where
  "Device_Validate re_compile r d =
     (if dev_Host d = [] then [''Host required''] else [])
     @ (if dev_DeviceProtocol d = None then [''Protocol required''] else [])
     @ concat (map (\<lambda>(name, job).
         map (\<lambda>err. ''Invalid job '' @ name @ '': '' @ err) (Job_Validate re_compile job))
         (go_range r (dev_Jobs d)))"

record Execution =
  ex_Device :: Device
  ex_Job :: Job
  ex_Timestamp :: int

section \<open>Invariant\<close>

text \<open>
  What holds of a device the program builds, at every level of the configuration chain: it
  has an SSH protocol with its settings, and jobs with distinct names that are well formed.
\<close>

definition jobs_wf :: "cron_lib \<Rightarrow> Job gomap \<Rightarrow> bool" where
  "jobs_wf lib jobs \<longleftrightarrow>
     map_wf jobs \<and> (\<forall>(n, j) \<in> set jobs. job_Name j = n \<and> Job_wf lib j)"

definition has_ssh :: "Device \<Rightarrow> bool" where
  "has_ssh d \<longleftrightarrow> (\<exists>p s. dev_DeviceProtocol d = Some p \<and> dp_Type p = ''ssh'' \<and>
     dp_SshDeviceProtocol p = Some s)"

definition Device_wf :: "cron_lib \<Rightarrow> Device \<Rightarrow> bool" where
  "Device_wf lib d \<longleftrightarrow> has_ssh d \<and> jobs_wf lib (dev_Jobs d)"

lemma NewDefaultDevice_wf [simp]: "Device_wf lib (NewDefaultDevice name)"
  by (simp add: Device_wf_def has_ssh_def jobs_wf_def NewDefaultDevice_def)

lemma jobs_wf_iff:
  "jobs_wf lib jobs \<longleftrightarrow>
     map_wf jobs \<and> (\<forall>n j. map_of jobs n = Some j \<longrightarrow> job_Name j = n \<and> Job_wf lib j)"
  by (auto simp: jobs_wf_def dest: map_of_SomeD)

lemma jobs_wf_put:
  "jobs_wf lib jobs \<Longrightarrow> job_Name j = n \<Longrightarrow> Job_wf lib j \<Longrightarrow> jobs_wf lib (map_put n j jobs)"
  by (simp add: jobs_wf_iff distinct_update update_conv')

lemma template_step_frame:
  "job_Name (template_step j kv) = job_Name j"
  "job_Schedule (template_step j kv) = job_Schedule j"
  "job_FileSet (template_step j kv) = job_FileSet j"
  "job_TemplateValues (template_step j kv) = job_TemplateValues j"
  "job_CommandSet (template_step j kv) = None \<longleftrightarrow> job_CommandSet j = None"
  by (auto simp: template_step_def split: prod.split)

lemma template_step_wf: "Job_wf lib (template_step j kv) \<longleftrightarrow> Job_wf lib j"
  by (simp add: Job_wf_def template_step_frame)

lemma foldl_template_step_frame:
  "Job_wf lib (foldl template_step j kvs) = Job_wf lib j"
  "job_Name (foldl template_step j kvs) = job_Name j"
  "job_Schedule (foldl template_step j kvs) = job_Schedule j"
  by (induction kvs arbitrary: j) (simp_all add: template_step_frame template_step_wf)

lemma ApplyTemplateValues_frame [simp]:
  "Job_wf lib (ApplyTemplateValues r j) = Job_wf lib j"
  "job_Name (ApplyTemplateValues r j) = job_Name j"
  "job_Schedule (ApplyTemplateValues r j) = job_Schedule j"
  by (simp_all add: ApplyTemplateValues_def foldl_template_step_frame)

lemma apply_device_job_wf:
  assumes "apply_device_job lib r jobs kv = Ok jobs'" "jobs_wf lib jobs"
  shows "jobs_wf lib jobs' \<and> dom (map_of jobs') = dom (map_of jobs)"
proof (cases kv)
  case (Pair name job)
  show ?thesis
  proof (cases "map_of jobs name")
    case None
    then show ?thesis using assms Pair by simp
  next
    case (Some existing)
    obtain j where
      j: "Job_ApplyConfig lib (at ''config'' (at name r)) existing job = Ok j" and
      jobs': "jobs' = map_put name (ApplyTemplateValues (at ''template'' (at name r)) j) jobs"
      using assms(1) Pair Some by (auto simp: go_simps)
    have "Job_wf lib existing" "job_Name existing = name"
      using assms(2) Some by (auto simp: jobs_wf_iff)
    then have "Job_wf lib j" "job_Name j = name"
      using Job_ApplyConfig_wf [OF j] by auto
    then show ?thesis
      using assms(2) jobs' Some
      by (auto intro!: jobs_wf_put simp: update_conv')
  qed
qed

lemma apply_device_jobs_wf:
  assumes "foldM (apply_device_job lib r) jobs kvs = Ok jobs'" "jobs_wf lib jobs"
  shows "jobs_wf lib jobs' \<and> dom (map_of jobs') = dom (map_of jobs)"
  by (rule foldM_invariant [OF _ _ assms(1),
        where I = "\<lambda>js. jobs_wf lib js \<and> dom (map_of js) = dom (map_of jobs)"])
    (use assms(2) apply_device_job_wf in \<open>blast+\<close>)

lemma apply_protocol_Ok:
  "apply_protocol d conf = Ok d' \<Longrightarrow> has_ssh d \<Longrightarrow>
     has_ssh d' \<and> dev_Jobs d' = dev_Jobs d \<and> dev_Name d' = dev_Name d \<and>
     dev_Host d' = dev_Host d \<and> dev_Tags d' = dev_Tags d"
  by (auto simp: apply_protocol_def has_ssh_def Let_def split: option.splits if_splits)

lemma Device_ApplyConfig_wf:
  assumes "Device_ApplyConfig lib r d conf = Ok d'" "Device_wf lib d"
  shows "Device_wf lib d' \<and> dev_Name d' = dev_Name d \<and>
     dev_Tags d' = dev_Tags d @ cd_Tags conf \<and>
     dom (map_of (dev_Jobs d')) = dom (map_of (dev_Jobs d)) \<and>
     dev_Host d' = (if cd_Host conf \<noteq> [] then cd_Host conf else dev_Host d)"
proof -
  let ?d0 = "if cd_Host conf \<noteq> [] then d\<lparr>dev_Host := cd_Host conf\<rparr> else d"
  obtain d1 jobs where
    d1: "apply_protocol ?d0 conf = Ok d1" and
    jobs: "foldM (apply_device_job lib r) (dev_Jobs d1) (go_range r (cd_Jobs conf)) = Ok jobs" and
    d': "d' = d1\<lparr>dev_Tags := dev_Tags d1 @ cd_Tags conf,
               dev_DeviceCredentials :=
                 apply_credentials (dev_DeviceCredentials d1) (cd_DeviceCredentials conf),
               dev_Jobs := jobs\<rparr>"
    using assms(1) by (auto simp: Device_ApplyConfig_def go_simps Let_def)
  have "has_ssh ?d0" using assms(2) by (simp add: Device_wf_def has_ssh_def)
  note p = apply_protocol_Ok [OF d1 this]
  have "jobs_wf lib (dev_Jobs d1)" using assms(2) p by (simp add: Device_wf_def split: if_splits)
  note j = apply_device_jobs_wf [OF jobs this]
  have "dev_Jobs ?d0 = dev_Jobs d" "dev_Name ?d0 = dev_Name d" "dev_Tags ?d0 = dev_Tags d"
    by simp_all
  with p j d' show ?thesis by (simp add: Device_wf_def has_ssh_def)
qed

text \<open>Validation does not depend on the order of the range.\<close>

lemma Device_Validate_Nil_iff:
  assumes "valid_rng r"
  shows "Device_Validate re r d = [] \<longleftrightarrow>
     dev_Host d \<noteq> [] \<and> dev_DeviceProtocol d \<noteq> None \<and>
     (\<forall>n j. map_of (dev_Jobs d) n = Some j \<longrightarrow> Job_Validate re j = [])"
proof -
  have "(\<forall>x \<in> set (go_range r (dev_Jobs d)). Job_Validate re (snd x) = []) \<longleftrightarrow>
      (\<forall>n j. (n, j) \<in> set (go_range r (dev_Jobs d)) \<longrightarrow> Job_Validate re j = [])"
    by fastforce
  then show ?thesis by (auto simp: Device_Validate_def case_prod_unfold go_range_mem [OF assms])
qed

end
