(* ===== verification/Job_Store.thy ===== *)
theory Job_Store
  imports Jobs
begin

text \<open>
  The job store (controller/job_store.go): every configured job is built from the default
  job, a generic and its own configuration, and validated. All failures are collected, and
  any failure fails the construction. What a client may rely on is the locale
  \<open>job_store_iface\<close>.
\<close>

section \<open>The interface\<close>

text \<open>
  A store hands out a map of jobs. Every job of a store is well formed, carries the name it
  is listed under and passes validation, so it has a schedule and can be copied.
\<close>

locale job_store_iface =
  fixes lib :: cron_lib
    and re_compile :: "string \<Rightarrow> string option"
    and all_jobs :: "'st \<Rightarrow> Job gomap"
    and store_ok :: "'st \<Rightarrow> bool"
  assumes jobs_named: "store_ok st \<Longrightarrow> map_of (all_jobs st) n = Some j \<Longrightarrow> job_Name j = n"
    and jobs_well_formed: "store_ok st \<Longrightarrow> map_of (all_jobs st) n = Some j \<Longrightarrow> Job_wf lib j"
    and jobs_valid: "store_ok st \<Longrightarrow> map_of (all_jobs st) n = Some j \<Longrightarrow> Job_Validate re_compile j = []"
begin

lemma copy_of_stored_job:
  assumes "store_ok st" "map_of (all_jobs st) n = Some j" "valid_rng r"
  shows "\<exists>j'. Job_DeepCopy lib r j = Ok j' \<and> same_job j j' \<and> Job_wf lib j' \<and>
    Job_Validate re_compile j' = [] \<and> job_Name j' = n"
proof -
  from jobs_valid [OF assms(1,2)] obtain s where "job_Schedule j = Some s"
    by (auto simp: Job_Validate_Nil_iff)
  from Job_DeepCopy_same [OF jobs_well_formed [OF assms(1,2)] this assms(3)]
  obtain j' where j': "Job_DeepCopy lib r j = Ok j'" "same_job j j'" "Job_wf lib j'" by blast
  with Job_Validate_same [OF j'(2)] jobs_valid [OF assms(1,2)] jobs_named [OF assms(1,2)]
  show ?thesis by (auto simp: same_job_def)
qed

lemma copy_no_panic:
  "store_ok st \<Longrightarrow> map_of (all_jobs st) n = Some j \<Longrightarrow> valid_rng r \<Longrightarrow>
     \<not> is_panic (Job_DeepCopy lib r j)"
  using copy_of_stored_job by fastforce

end

section \<open>The local store\<close>

record localJobStore =
  ljs_jobs :: "Job gomap"

definition AllJobs :: "localJobStore \<Rightarrow> Job gomap" where
  "AllJobs l = ljs_jobs l"

text \<open>\<open>conf.Jobs[name]\<close> on a map of pointers: a missing key reads as nil.\<close>

definition lookup_ptr :: "'a option gomap \<Rightarrow> string \<Rightarrow> 'a option" where
  "lookup_ptr m k = (case map_of m k of None \<Rightarrow> None | Some p \<Rightarrow> p)"

text \<open>
  The generic part of one round. The named generic comes from \<open>JobGenerics\<close>; without a name the
  code looks for \<open>"default"\<close> in \<open>Jobs\<close>.
\<close>

definition apply_job_generic ::
    "cron_lib \<Rightarrow> rng \<Rightarrow> cfg_JobStoreLocal \<Rightarrow> Job \<Rightarrow> cfg_Job \<Rightarrow> Job res" where
  "apply_job_generic lib r conf job confJob =
     (if cj_Generic confJob \<noteq> [] then
        (case lookup_ptr (cjl_JobGenerics conf) (cj_Generic confJob) of
           None \<Rightarrow> Err (''Unable to find job generic named: '' @ cj_Generic confJob)
         | Some generic \<Rightarrow>
             map_err (\<lambda>err. ''Error applying job generic '' @ cj_Generic confJob @ '': '' @ err)
               (Job_ApplyConfig lib (at ''generic'' r) job (Some generic)))
      else
        (case lookup_ptr (cjl_Jobs conf) ''default'' of
           None \<Rightarrow> Ok job
         | Some generic \<Rightarrow>
             map_err (\<lambda>err. ''Error applying default job generic: '' @ err)
               (Job_ApplyConfig lib (at ''generic'' r) job (Some generic))))"

definition configure_job ::
    "cron_lib \<Rightarrow> rng \<Rightarrow> cfg_JobStoreLocal \<Rightarrow> string \<Rightarrow> cfg_Job \<Rightarrow> Job res" where
  "configure_job lib r conf name confJob =
     res_bind (apply_job_generic lib r conf (NewDefaultJob name) confJob) (\<lambda>job.
     map_err (\<lambda>err. ''Error configuring job '' @ job_Name job @ '': '' @ err)
       (Job_ApplyConfig lib (at ''specific'' r) job (Some confJob)))"

text \<open>
  One round of the loop over \<open>conf.Jobs\<close>, on the jobs stored and the errors collected so far;
  an \<open>Err\<close> of \<open>configure_job\<close> is the \<open>append\<close> and \<open>continue\<close> of the code.
\<close>

fun add_job :: "cron_lib \<Rightarrow> (string \<Rightarrow> string option) \<Rightarrow> rng \<Rightarrow> cfg_JobStoreLocal
    \<Rightarrow> Job gomap \<times> string list \<Rightarrow> string \<times> cfg_Job option \<Rightarrow> (Job gomap \<times> string list) res" where
  "add_job lib re_compile r conf (jobs, errs) (name, None) = nil_deref"
| "add_job lib re_compile r conf (jobs, errs) (name, Some confJob) =
     (case configure_job lib (at name r) conf name confJob of
        Panic p \<Rightarrow> Panic p
      | Err e \<Rightarrow> Ok (jobs, errs @ [e])
      | Ok job \<Rightarrow>
          if map_of jobs (job_Name job) \<noteq> None then
            Ok (jobs, errs @ [''Ambiguous job name '' @ job_Name job])
          else
            let validationErrors = Job_Validate re_compile job
            in if validationErrors \<noteq> [] then
                 Ok (jobs, errs @ map (\<lambda>err. ''Validation failed for job '' @ job_Name job @ '': '' @ err)
                   validationErrors)
               else Ok (map_put (job_Name job) job jobs, errs))"

definition newLocalJobStore :: "cron_lib \<Rightarrow> (string \<Rightarrow> string option) \<Rightarrow> rng
    \<Rightarrow> cfg_JobStoreLocal option \<Rightarrow> localJobStore res" where
  "newLocalJobStore lib re_compile r conf_ptr =
     (case conf_ptr of None \<Rightarrow> nil_deref
      | Some conf \<Rightarrow>
          res_bind (foldM (add_job lib re_compile r conf) ([], []) (go_range r (cjl_Jobs conf)))
            (\<lambda>(jobs, errs).
               if errs \<noteq> [] then
                 Err (''Job validation failed:'' @ concat (map (\<lambda>err. ''\<newline>'' @ err) errs))
               else Ok \<lparr>ljs_jobs = jobs\<rparr>))"

definition NewJobStoreFromConfig :: "cron_lib \<Rightarrow> (string \<Rightarrow> string option) \<Rightarrow> rng
    \<Rightarrow> cfg_JobStore \<Rightarrow> localJobStore res" where
  "NewJobStoreFromConfig lib re_compile r conf =
     (if cjs_Type conf = ''local'' then newLocalJobStore lib re_compile r (cjs_JobStoreLocal conf)
      else Err (''Unrecognized job store type: '' @ cjs_Type conf))"

section \<open>The store holds valid jobs\<close>

definition job_store_ok :: "cron_lib \<Rightarrow> (string \<Rightarrow> string option) \<Rightarrow> localJobStore \<Rightarrow> bool" where
  "job_store_ok lib re st \<longleftrightarrow>
     map_wf (ljs_jobs st) \<and>
     (\<forall>(n, j) \<in> set (ljs_jobs st). job_Name j = n \<and> Job_wf lib j \<and> Job_Validate re j = [])"

interpretation local_jobs: job_store_iface lib re AllJobs "job_store_ok lib re" for lib re
  by unfold_locales (auto simp: job_store_ok_def AllJobs_def dest!: map_of_SomeD)

lemma apply_job_generic_Ok:
  "apply_job_generic lib r conf job c = Ok j \<Longrightarrow>
     j = job \<or>
     (\<exists>g. (lookup_ptr (cjl_JobGenerics conf) (cj_Generic c) = Some g \<or>
           lookup_ptr (cjl_Jobs conf) ''default'' = Some g) \<and>
          Job_ApplyConfig lib (at ''generic'' r) job (Some g) = Ok j)"
  by (auto simp: apply_job_generic_def go_simps split: if_splits option.splits)

lemma configure_job_wf:
  assumes "configure_job lib r conf name c = Ok j"
  shows "Job_wf lib j \<and> job_Name j = name"
proof -
  obtain j1 where 1: "apply_job_generic lib r conf (NewDefaultJob name) c = Ok j1"
    and 2: "Job_ApplyConfig lib (at ''specific'' r) j1 (Some c) = Ok j"
    using assms by (auto simp: configure_job_def go_simps)
  have "Job_wf lib j1 \<and> job_Name j1 = name"
    using apply_job_generic_Ok [OF 1] Job_ApplyConfig_wf [OF _ NewDefaultJob_wf] NewDefaultJob_wf
    by (auto simp: NewDefaultJob_def)
  with Job_ApplyConfig_wf [OF 2] show ?thesis by simp
qed

section \<open>What the construction computes\<close>

text \<open>The entry of the configuration yields a job that validates.\<close>

definition good_job :: "cron_lib \<Rightarrow> (string \<Rightarrow> string option) \<Rightarrow> rng \<Rightarrow> cfg_JobStoreLocal
    \<Rightarrow> string \<Rightarrow> cfg_Job option \<Rightarrow> Job \<Rightarrow> bool" where
  "good_job lib re r conf n p j \<longleftrightarrow>
     (case p of None \<Rightarrow> False
      | Some c \<Rightarrow> configure_job lib (at n r) conf n c = Ok j \<and> Job_Validate re j = [])"

lemma good_job_unique: "good_job lib re r conf n p j \<Longrightarrow> good_job lib re r conf n p j' \<Longrightarrow> j' = j"
  by (auto simp: good_job_def split: option.splits)

lemma good_job_wf: "good_job lib re r conf n p j \<Longrightarrow>
    Job_wf lib j \<and> job_Name j = n \<and> Job_Validate re j = []"
  by (auto simp: good_job_def configure_job_wf split: option.splits)

lemma add_job_good:
  "good_job lib re r conf n p j \<Longrightarrow> map_of jobs n = None \<Longrightarrow>
     add_job lib re r conf (jobs, errs) (n, p) = Ok (map_put n j jobs, errs)"
  using good_job_wf [of lib re r conf n p j]
  by (cases p) (auto simp: good_job_def)

lemma add_job_errs:
  assumes "add_job lib re r conf (jobs, errs) (n, p) = Ok (jobs', errs')"
  shows "\<exists>es. errs' = errs @ es"
  using assms by (cases p) (auto simp: Let_def split: res.splits if_splits)

lemma add_job_no_errs:
  assumes "add_job lib re r conf (jobs, errs) (n, p) = Ok (jobs', errs)"
  shows "\<exists>j. good_job lib re r conf n p j \<and> map_of jobs n = None \<and> jobs' = map_put n j jobs"
  using assms configure_job_wf
  by (cases p) (fastforce simp: good_job_def Let_def split: res.splits if_splits)+

lemma foldM_add_job_errs:
  "foldM (add_job lib re r conf) (jobs, errs) kvs = Ok (jobs', errs') \<Longrightarrow> \<exists>es. errs' = errs @ es"
proof (induction kvs arbitrary: jobs errs)
  case Nil
  then show ?case by simp
next
  case (Cons kv kvs)
  then obtain jobs1 errs1 where
    1: "add_job lib re r conf (jobs, errs) kv = Ok (jobs1, errs1)"
    "foldM (add_job lib re r conf) (jobs1, errs1) kvs = Ok (jobs', errs')"
    by (auto simp: go_simps)
  obtain n p where "kv = (n, p)" by (cases kv)
  with 1 add_job_errs Cons.IH show ?case by (metis append.assoc)
qed

lemma foldM_add_job_sound:
  assumes "foldM (add_job lib re r conf) (jobs, []) kvs = Ok (jobs', [])"
  shows "(\<forall>(n, p) \<in> set kvs. \<exists>j. good_job lib re r conf n p j \<and> map_of jobs' n = Some j) \<and>
    (\<forall>n. n \<notin> fst ` set kvs \<longrightarrow> map_of jobs' n = map_of jobs n) \<and>
    (\<forall>n j. map_of jobs n = Some j \<longrightarrow> map_of jobs' n = Some j)"
  using assms
proof (induction kvs arbitrary: jobs)
  case Nil
  then show ?case by simp
next
  case (Cons kv kvs)
  obtain n p where kv: "kv = (n, p)" by (cases kv)
  obtain jobs1 errs1 where
    1: "add_job lib re r conf (jobs, []) (n, p) = Ok (jobs1, errs1)"
    "foldM (add_job lib re r conf) (jobs1, errs1) kvs = Ok (jobs', [])"
    using Cons.prems kv by (auto simp: go_simps)
  then have "errs1 = []" using foldM_add_job_errs by fastforce
  with 1 obtain j where j: "good_job lib re r conf n p j" "map_of jobs n = None"
    "jobs1 = map_put n j jobs"
    using add_job_no_errs by blast
  have IH: "(\<forall>(n, p) \<in> set kvs. \<exists>j. good_job lib re r conf n p j \<and> map_of jobs' n = Some j) \<and>
    (\<forall>n. n \<notin> fst ` set kvs \<longrightarrow> map_of jobs' n = map_of jobs1 n) \<and>
    (\<forall>n j. map_of jobs1 n = Some j \<longrightarrow> map_of jobs' n = Some j)"
    using Cons.IH 1(2) \<open>errs1 = []\<close> by blast
  have "map_of jobs' n = Some j" using IH j(3) by (simp add: update_conv')
  moreover have "map_of jobs' m = Some k" if "map_of jobs m = Some k" for m k
  proof -
    have "map_of jobs1 m = Some k" using j(2,3) that by (auto simp: update_conv')
    with IH show ?thesis by blast
  qed
  moreover have "map_of jobs' m = map_of jobs m" if "m \<notin> fst ` set (kv # kvs)" for m
    using IH j(3) that kv by (simp add: update_conv')
  ultimately show ?case using IH j(1) kv by auto
qed

lemma foldM_add_job_complete:
  assumes "\<And>n p. (n, p) \<in> set kvs \<Longrightarrow> \<exists>j. good_job lib re r conf n p j"
    and "distinct (map fst kvs)" and "\<And>n. n \<in> fst ` set kvs \<Longrightarrow> map_of jobs n = None"
  shows "\<exists>jobs'. foldM (add_job lib re r conf) (jobs, errs) kvs = Ok (jobs', errs)"
  using assms
proof (induction kvs arbitrary: jobs)
  case Nil
  then show ?case by simp
next
  case (Cons kv kvs)
  obtain n p where kv: "kv = (n, p)" by (cases kv)
  obtain j where j: "good_job lib re r conf n p j" using Cons.prems(1) kv by auto
  have "\<exists>jobs'. foldM (add_job lib re r conf) (map_put n j jobs, errs) kvs = Ok (jobs', errs)"
  proof (rule Cons.IH)
    show "map_of (map_put n j jobs) m = None" if "m \<in> fst ` set kvs" for m
      using Cons.prems(2,3) that kv by (auto simp: update_conv')
  qed (use Cons.prems in auto)
  moreover have "add_job lib re r conf (jobs, errs) kv = Ok (map_put n j jobs, errs)"
    using add_job_good [OF j] Cons.prems(3) kv by simp
  ultimately show ?case by simp
qed

lemma foldM_add_job_wf:
  assumes "foldM (add_job lib re r conf) s kvs = Ok s'" "map_wf (fst s)"
  shows "map_wf (fst s')"
proof (rule foldM_invariant [OF _ _ assms(1), where I = "\<lambda>s. map_wf (fst s)"])
  fix s x s'
  assume "map_wf (fst s)" "add_job lib re r conf s x = Ok s'"
  then show "map_wf (fst s')"
    by (cases s; cases x; cases "snd x")
      (auto simp: Let_def distinct_update split: res.splits if_splits)
qed (rule assms(2))

lemma newLocalJobStore_Ok_iff:
  "newLocalJobStore lib re r (Some conf) = Ok st \<longleftrightarrow>
     foldM (add_job lib re r conf) ([], []) (go_range r (cjl_Jobs conf)) = Ok (ljs_jobs st, [])"
  by (cases st) (auto simp: newLocalJobStore_def go_simps split: prod.splits if_splits)

lemma new_job_store:
  assumes "newLocalJobStore lib re r (Some conf) = Ok st" and "valid_rng r"
  shows "job_store_ok lib re st \<and>
    (\<forall>n. map_of (AllJobs st) n =
       (case lookup_ptr (cjl_Jobs conf) n of None \<Rightarrow> None
        | Some c \<Rightarrow> (case configure_job lib (at n r) conf n c of Ok j \<Rightarrow> Some j | _ \<Rightarrow> None)))"
proof -
  let ?kvs = "go_range r (cjl_Jobs conf)"
  have run: "foldM (add_job lib re r conf) ([], []) ?kvs = Ok (ljs_jobs st, [])"
    using assms(1) by (simp add: newLocalJobStore_Ok_iff)
  note sound = foldM_add_job_sound [OF run]
  have good: "\<exists>j. good_job lib re r conf n p j \<and> map_of (ljs_jobs st) n = Some j"
    if "map_of (cjl_Jobs conf) n = Some p" for n p
  proof -
    have "(n, p) \<in> set ?kvs" using that by (simp add: go_range_mem [OF assms(2)])
    from bspec [OF conjunct1 [OF sound] this] show ?thesis by simp
  qed
  have none: "map_of (ljs_jobs st) n = None" if "map_of (cjl_Jobs conf) n = None" for n
  proof -
    have "n \<notin> fst ` set ?kvs" using that by (auto dest: go_range_sound)
    then show ?thesis using sound by simp
  qed
  have wf: "map_wf (ljs_jobs st)" using foldM_add_job_wf [OF run] by simp
  have "job_Name j = n \<and> Job_wf lib j \<and> Job_Validate re j = []" if "(n, j) \<in> set (ljs_jobs st)" for n j
  proof -
    have m: "map_of (ljs_jobs st) n = Some j" using that wf by simp
    then obtain p where "map_of (cjl_Jobs conf) n = Some p" using none by fastforce
    with good m show ?thesis by (metis good_job_wf option.inject)
  qed
  then have store: "job_store_ok lib re st" using wf by (auto simp: job_store_ok_def)
  have entries: "map_of (AllJobs st) n =
       (case lookup_ptr (cjl_Jobs conf) n of None \<Rightarrow> None
        | Some c \<Rightarrow> (case configure_job lib (at n r) conf n c of Ok j \<Rightarrow> Some j | _ \<Rightarrow> None))" for n
  proof (cases "map_of (cjl_Jobs conf) n")
    case None
    then show ?thesis using none by (simp add: lookup_ptr_def AllJobs_def)
  next
    case (Some p)
    then obtain j where "good_job lib re r conf n p j" "map_of (ljs_jobs st) n = Some j"
      using good by blast
    with Some show ?thesis
      by (cases p) (simp_all add: lookup_ptr_def AllJobs_def good_job_def)
  qed
  show ?thesis by (rule conjI [OF store allI [OF entries]])
qed

text \<open>
  C24. A job store that could be built lists exactly the configured jobs: under each name the
  job that the default job, the generic and the configuration under that name produce, and
  every one of them is well formed, named as listed and valid.
\<close>

theorem newLocalJobStore_correct:
  assumes "newLocalJobStore lib re r (Some conf) = Ok st" and "valid_rng r"
  shows "job_store_ok lib re st \<and>
    (\<forall>n. map_of (AllJobs st) n =
       (case lookup_ptr (cjl_Jobs conf) n of None \<Rightarrow> None
        | Some c \<Rightarrow> (case configure_job lib (at n r) conf n c of Ok j \<Rightarrow> Some j | _ \<Rightarrow> None)))"
  by (rule new_job_store [OF assms])

text \<open>A sample configuration: one job over a named generic, as the integration tests use it.\<close>

definition sample_lib :: cron_lib where
  "sample_lib = \<lparr>cron_Parse = (\<lambda>s. if s = ''bad'' then Inl ''syntax error'' else Inr (length s)),
     cron_Next = (\<lambda>e t. GoTime (nanos t + int e * second))\<rparr>"

definition sample_re :: "string \<Rightarrow> string option" where
  "sample_re p = (if p = ''.*[.*'' then Some ''missing closing ]'' else None)"

definition sample_generic :: cfg_Job where
  "sample_generic = zero_Job\<lparr>cj_JobSchedule := Some (zero_JobSchedule\<lparr>cs_Cron := ''0 0 * * * * *''\<rparr>),
     cj_Commands := [Some (zero_JobCommand\<lparr>cc_Command := ''command1''\<rparr>)]\<rparr>"

definition sample_stores :: cfg_JobStoreLocal where
  "sample_stores = \<lparr>cjl_JobGenerics = [(''foo'', Some sample_generic)],
     cjl_Jobs = [(''bar'', Some (zero_Job\<lparr>cj_Generic := ''foo''\<rparr>))]\<rparr>"

definition sample_bar :: Job where
  "sample_bar = \<lparr>job_Name = ''bar'',
     job_CommandSet = Some \<lparr>cset_Generic = Some NewDefaultCommandSetCommand,
       cset_Commands = [NewDefaultCommandSetCommand\<lparr>cmd_Command := ''command1''\<rparr>]\<rparr>,
     job_FileSet = None,
     job_Schedule = Some \<lparr>originalString = ''0 0 * * * * *'', expr = 13\<rparr>,
     job_Scrubbers = [], job_TemplateValues = []\<rparr>"

lemmas job_defs = Job_ApplyConfig_def choose_set_def apply_sets_def apply_schedule_def
  CommandSet_ApplyConfig_def apply_generic_def add_command_def CommandSetCommand_ApplyConfig_def
  NewScheduleFromConfig_def NewCronSchedule_def NewDefaultJob_def NewDefaultCommandSet_def
  NewDefaultCommandSetCommand_def go_range_def put_all_def

lemma sample_configure:
  "configure_job sample_lib (\<lambda>p ks. ks) sample_stores ''bar''
     (zero_Job\<lparr>cj_Generic := ''foo''\<rparr>) = Ok sample_bar"
  by (simp add: configure_job_def apply_job_generic_def job_defs sample_stores_def lookup_ptr_def
      sample_generic_def zero_defs sample_lib_def sample_bar_def at_def)

lemma sample_bar_valid: "Job_Validate sample_re sample_bar = []"
  by (simp add: Job_Validate_def sample_bar_def CommandSet_Validate_def
      CommandSetCommand_Validate_def NewDefaultCommandSetCommand_def pattern_errors_def)

lemma sample_store:
  "newLocalJobStore sample_lib sample_re (\<lambda>p ks. ks) (Some sample_stores) =
     Ok \<lparr>ljs_jobs = [(''bar'', sample_bar)]\<rparr>"
proof -
  have "go_range (\<lambda>p ks. ks) (cjl_Jobs sample_stores) =
      [(''bar'', Some (zero_Job\<lparr>cj_Generic := ''foo''\<rparr>))]"
    by (simp add: sample_stores_def go_range_def)
  moreover have "job_Name sample_bar = ''bar''" by (simp add: sample_bar_def)
  ultimately show ?thesis
    by (simp add: newLocalJobStore_def sample_configure sample_bar_valid)
qed

theorem newLocalJobStore_correct_witness:
  "job_store_ok sample_lib sample_re \<lparr>ljs_jobs = [(''bar'', sample_bar)]\<rparr>"
  using newLocalJobStore_correct [OF sample_store valid_rng_id] by blast

definition no_nil_jobs :: "cfg_Job option gomap \<Rightarrow> bool" where
  "no_nil_jobs m \<longleftrightarrow> (\<forall>(n, p) \<in> set m. case p of None \<Rightarrow> False | Some c \<Rightarrow> cfg_Job_no_nil c)"

lemma lookup_no_nil: "no_nil_jobs m \<Longrightarrow> lookup_ptr m k = Some c \<Longrightarrow> cfg_Job_no_nil c"
  by (auto simp: no_nil_jobs_def lookup_ptr_def split: option.splits dest!: map_of_SomeD)

lemma configure_job_no_panic:
  assumes "no_nil_jobs (cjl_Jobs conf)" "no_nil_jobs (cjl_JobGenerics conf)" "cfg_Job_no_nil c"
  shows "\<not> is_panic (configure_job lib r conf name c)"
proof -
  have gen: "\<not> is_panic (apply_job_generic lib r conf (NewDefaultJob name) c)"
    using assms lookup_no_nil Job_ApplyConfig_ready(1) [OF NewDefaultJob_ready]
    by (auto simp: apply_job_generic_def go_simps split: option.split)
  have "generic_ready j" if "apply_job_generic lib r conf (NewDefaultJob name) c = Ok j" for j
    using apply_job_generic_Ok [OF that] assms lookup_no_nil
      Job_ApplyConfig_ready(2) [OF NewDefaultJob_ready] NewDefaultJob_ready
    by metis
  then show ?thesis
    using gen Job_ApplyConfig_ready(1) assms(3)
    by (auto simp: configure_job_def go_simps)
qed

lemma add_job_no_panic:
  assumes "\<not> is_panic (configure_job lib (at n r) conf n c)"
  shows "\<not> is_panic (add_job lib re r conf s (n, Some c))"
  using assms by (cases s) (auto simp: Let_def split: res.split)

text \<open>
  The construction does not panic on a local configuration without null entries: every
  failure is an error with a message.
\<close>

theorem newLocalJobStore_no_panic:
  assumes "no_nil_jobs (cjl_Jobs conf)" "no_nil_jobs (cjl_JobGenerics conf)"
  shows "\<not> is_panic (newLocalJobStore lib re r (Some conf))"
proof -
  have step: "\<not> is_panic (add_job lib re r conf s x)"
    if "x \<in> set (go_range r (cjl_Jobs conf))" for s x
  proof (cases x)
    case (Pair n p)
    then have "(n, p) \<in> set (cjl_Jobs conf)"
      using that go_range_sound map_of_SomeD by metis
    then obtain c where "p = Some c" "cfg_Job_no_nil c"
      using assms(1) by (auto simp: no_nil_jobs_def split: option.splits)
    with Pair show ?thesis
      using add_job_no_panic configure_job_no_panic [OF assms] by blast
  qed
  have "\<not> is_panic (foldM (add_job lib re r conf) ([], []) (go_range r (cjl_Jobs conf)))"
    by (rule foldM_no_panic [where I = "\<lambda>_. True"]) (use step in auto)
  then show ?thesis by (auto simp: newLocalJobStore_def go_simps split: prod.splits if_splits)
qed

theorem newLocalJobStore_no_panic_witness:
  "\<not> is_panic (newLocalJobStore sample_lib sample_re (\<lambda>p. rev) (Some sample_stores))"
  by (rule newLocalJobStore_no_panic)
    (simp_all add: no_nil_jobs_def cfg_Job_no_nil_def sample_stores_def sample_generic_def zero_defs)

text \<open>
  The generic called "default" in \<open>job_generics\<close>, which the documentation says every job
  without a generic of its own inherits, has no effect: unless a job names it, adding or
  changing it leaves the store as it was.
\<close>

theorem default_job_generic_ignored:
  assumes "\<And>n c. lookup_ptr (cjl_Jobs conf) n = Some c \<Longrightarrow> cj_Generic c \<noteq> ''default''"
  shows "newLocalJobStore lib re r
      (Some (conf\<lparr>cjl_JobGenerics := map_put ''default'' g (cjl_JobGenerics conf)\<rparr>)) =
    newLocalJobStore lib re r (Some conf)"
proof -
  let ?conf' = "conf\<lparr>cjl_JobGenerics := map_put ''default'' g (cjl_JobGenerics conf)\<rparr>"
  have step: "add_job lib re r ?conf' s x = add_job lib re r conf s x"
    if "x \<in> set (go_range r (cjl_Jobs conf))" for s x
  proof (cases x)
    case (Pair n p)
    show ?thesis
    proof (cases p)
      case None
      then show ?thesis using Pair by (cases s) simp
    next
      case (Some c)
      then have "lookup_ptr (cjl_Jobs conf) n = Some c"
        using that Pair by (auto simp: lookup_ptr_def dest: go_range_sound)
      then have "cj_Generic c \<noteq> ''default''" by (rule assms)
      then have "configure_job lib (at n r) ?conf' n c = configure_job lib (at n r) conf n c"
        by (simp add: configure_job_def apply_job_generic_def lookup_ptr_def update_conv')
      then show ?thesis using Pair Some by (cases s) simp
    qed
  qed
  then have "foldM (add_job lib re r ?conf') s (go_range r (cjl_Jobs conf)) =
      foldM (add_job lib re r conf) s (go_range r (cjl_Jobs conf))" for s
    by (rule foldM_cong)
  then show ?thesis by (simp add: newLocalJobStore_def)
qed

theorem default_job_generic_ignored_witness:
  "newLocalJobStore sample_lib sample_re (\<lambda>p ks. ks)
     (Some (sample_stores\<lparr>cjl_JobGenerics :=
        map_put ''default'' (Some sample_generic) (cjl_JobGenerics sample_stores)\<rparr>)) =
   Ok \<lparr>ljs_jobs = [(''bar'', sample_bar)]\<rparr>"
proof -
  have "cj_Generic c \<noteq> ''default''" if "lookup_ptr (cjl_Jobs sample_stores) n = Some c" for n c
    using that by (auto simp: sample_stores_def lookup_ptr_def zero_defs split: if_splits)
  then show ?thesis
    by (subst default_job_generic_ignored) (simp_all add: sample_store)
qed

text \<open>
  Instead, the job called "default" is the default: it is applied to every job without a
  generic, and to itself, so each of its commands is there twice.
\<close>

theorem default_job_applied_twice:
  "\<exists>st j. newLocalJobStore sample_lib sample_re (\<lambda>p ks. ks)
       (Some \<lparr>cjl_JobGenerics = [], cjl_Jobs = [(''default'', Some sample_generic)]\<rparr>) = Ok st \<and>
     map_of (AllJobs st) ''default'' = Some j \<and>
     map_option (map cmd_Command \<circ> cset_Commands) (job_CommandSet j) =
       Some [''command1'', ''command1'']"
proof -
  let ?conf = "\<lparr>cjl_JobGenerics = [], cjl_Jobs = [(''default'', Some sample_generic)]\<rparr>"
  let ?j = "sample_bar\<lparr>job_Name := ''default'', job_CommandSet := Some
     \<lparr>cset_Generic = Some NewDefaultCommandSetCommand,
      cset_Commands = replicate 2 (NewDefaultCommandSetCommand\<lparr>cmd_Command := ''command1''\<rparr>)\<rparr>\<rparr>"
  have "configure_job sample_lib (\<lambda>p ks. ks) ?conf ''default'' sample_generic = Ok ?j"
    by (simp add: configure_job_def apply_job_generic_def job_defs lookup_ptr_def numeral_2_eq_2
        sample_generic_def zero_defs sample_lib_def sample_bar_def at_def)
  moreover have "Job_Validate sample_re ?j = []"
    by (simp add: Job_Validate_def sample_bar_def CommandSet_Validate_def numeral_2_eq_2
        CommandSetCommand_Validate_def NewDefaultCommandSetCommand_def pattern_errors_def)
  ultimately have "newLocalJobStore sample_lib sample_re (\<lambda>p ks. ks) (Some ?conf) =
      Ok \<lparr>ljs_jobs = [(''default'', ?j)]\<rparr>"
    by (simp add: newLocalJobStore_def go_range_def)
  then show ?thesis
    by (intro exI [of _ "\<lparr>ljs_jobs = [(''default'', ?j)]\<rparr>"] exI [of _ ?j])
      (simp add: AllJobs_def numeral_2_eq_2)
qed

end
