(* ===== verification/Device_Store.thy ===== *)
theory Device_Store
  imports Devices Job_Store
begin

text \<open>
  The device store (controller/device_store.go): every configured device gets a copy of each
  of its jobs from the job store, then the device generic and its own configuration are
  applied and the device is validated. The scheduler relies on the locale
  \<open>device_store_iface\<close>.
\<close>

section \<open>The interface\<close>

locale device_store_iface =
  fixes lib :: cron_lib
    and re_compile :: "string \<Rightarrow> string option"
    and all_devices :: "'st \<Rightarrow> Device gomap"
    and store_ok :: "'st \<Rightarrow> bool"
  assumes devices_distinct: "store_ok st \<Longrightarrow> map_wf (all_devices st)"
    and devices_well_formed:
      "store_ok st \<Longrightarrow> map_of (all_devices st) n = Some d \<Longrightarrow> dev_Name d = n \<and> Device_wf lib d"
    and device_jobs_valid:
      "store_ok st \<Longrightarrow> map_of (all_devices st) n = Some d \<Longrightarrow> map_of (dev_Jobs d) k = Some j \<Longrightarrow>
         Job_Validate re_compile j = []"
begin

text \<open>Every job of a stored device has a schedule, so asking when it runs next is safe.\<close>

lemma device_jobs_scheduled:
  assumes "store_ok st" "map_of (all_devices st) n = Some d" "map_of (dev_Jobs d) k = Some j"
  shows "\<exists>s. job_Schedule j = Some s \<and> Schedule_wf lib s"
proof -
  obtain s where s: "job_Schedule j = Some s"
    using device_jobs_valid [OF assms] by (auto simp: Job_Validate_Nil_iff)
  have "Job_wf lib j"
    using devices_well_formed [OF assms(1,2)] assms(3) by (auto simp: Device_wf_def jobs_wf_iff)
  with s show ?thesis by (auto simp: Job_wf_def)
qed

end

section \<open>The local store\<close>

record localDeviceStore =
  lds_devices :: "Device gomap"

definition AllDevices :: "localDeviceStore \<Rightarrow> Device gomap" where
  "AllDevices l = lds_devices l"

text \<open>One round of the loop over \<open>confDevice.Jobs\<close>: a copy of the stored job, or a new one.\<close>

fun add_device_job_copy :: "cron_lib \<Rightarrow> rng \<Rightarrow> Job gomap \<Rightarrow> Job gomap \<Rightarrow> string \<times> cfg_Job option
    \<Rightarrow> Job gomap res" where
  "add_device_job_copy lib r all_jobs jobs (name, confJob) =
     (case map_of all_jobs name of
        None \<Rightarrow> Ok (map_put name (NewDefaultJob name) jobs)
      | Some job \<Rightarrow>
          res_bind (Job_DeepCopy lib (at ''copy'' (at name r)) job) (\<lambda>j. Ok (map_put name j jobs)))"

definition initial_device ::
    "cron_lib \<Rightarrow> rng \<Rightarrow> Job gomap \<Rightarrow> string \<Rightarrow> cfg_Device \<Rightarrow> Device res" where
  "initial_device lib r all_jobs name confDevice =
     res_bind (foldM (add_device_job_copy lib r all_jobs) [] (go_range r (cd_Jobs confDevice)))
       (\<lambda>jobs. Ok ((NewDefaultDevice name)\<lparr>dev_Jobs := jobs\<rparr>))"

definition apply_device_generic ::
    "cron_lib \<Rightarrow> rng \<Rightarrow> cfg_DeviceStoreLocal \<Rightarrow> Device \<Rightarrow> cfg_Device \<Rightarrow> Device res" where
  "apply_device_generic lib r conf device confDevice =
     (if cd_Generic confDevice \<noteq> [] then
        (case lookup_ptr (cdl_DeviceGenerics conf) (cd_Generic confDevice) of
           None \<Rightarrow> Err (''Unable to find device generic named: '' @ cd_Generic confDevice)
         | Some generic \<Rightarrow>
             map_err (\<lambda>err. ''Error applying device generic '' @ cd_Generic confDevice @ '': '' @ err)
               (Device_ApplyConfig lib (at ''generic'' r) device generic))
      else
        (case lookup_ptr (cdl_DeviceGenerics conf) ''default'' of
           None \<Rightarrow> Ok device
         | Some generic \<Rightarrow>
             map_err (\<lambda>err. ''Error applying default device generic: '' @ err)
               (Device_ApplyConfig lib (at ''generic'' r) device generic)))"

definition configure_device :: "cron_lib \<Rightarrow> rng \<Rightarrow> cfg_DeviceStoreLocal \<Rightarrow> Job gomap
    \<Rightarrow> string \<Rightarrow> cfg_Device \<Rightarrow> Device res" where
  "configure_device lib r conf all_jobs name confDevice =
     res_bind (initial_device lib (at ''jobs'' r) all_jobs name confDevice) (\<lambda>device.
     res_bind (apply_device_generic lib r conf device confDevice) (\<lambda>device.
     map_err (\<lambda>err. ''Error configuring device '' @ dev_Name device @ '': '' @ err)
       (Device_ApplyConfig lib (at ''specific'' r) device confDevice)))"

fun add_device :: "cron_lib \<Rightarrow> (string \<Rightarrow> string option) \<Rightarrow> rng \<Rightarrow> cfg_DeviceStoreLocal
    \<Rightarrow> Job gomap \<Rightarrow> Device gomap \<times> string list \<Rightarrow> string \<times> cfg_Device option
    \<Rightarrow> (Device gomap \<times> string list) res" where
  "add_device lib re_compile r conf all_jobs (devices, errs) (name, None) = nil_deref"
| "add_device lib re_compile r conf all_jobs (devices, errs) (name, Some confDevice) =
     (case configure_device lib (at name r) conf all_jobs name confDevice of
        Panic p \<Rightarrow> Panic p
      | Err e \<Rightarrow> Ok (devices, errs @ [e])
      | Ok device \<Rightarrow>
          if map_of devices (dev_Name device) \<noteq> None then
            Ok (devices, errs @ [''Ambiguous device name '' @ dev_Name device])
          else
            let validationErrors = Device_Validate re_compile (at ''validate'' (at name r)) device
            in if validationErrors \<noteq> [] then Ok (devices, errs @ validationErrors)
               else Ok (map_put (dev_Name device) device devices, errs))"

text \<open>\<open>jobStore.AllJobs()\<close> is read while the loop runs; nothing changes it there.\<close>

definition newLocalDeviceStore :: "cron_lib \<Rightarrow> (string \<Rightarrow> string option) \<Rightarrow> rng
    \<Rightarrow> cfg_DeviceStoreLocal option \<Rightarrow> Job gomap \<Rightarrow> localDeviceStore res" where
  "newLocalDeviceStore lib re_compile r conf_ptr all_jobs =
     (case conf_ptr of None \<Rightarrow> nil_deref
      | Some conf \<Rightarrow>
          res_bind
            (foldM (add_device lib re_compile r conf all_jobs) ([], []) (go_range r (cdl_Devices conf)))
            (\<lambda>(devices, errs).
               if errs \<noteq> [] then
                 Err (''Device validation failed:'' @ concat (map (\<lambda>err. ''\<newline>'' @ err) errs))
               else Ok \<lparr>lds_devices = devices\<rparr>))"

definition NewDeviceStoreFromConfig :: "cron_lib \<Rightarrow> (string \<Rightarrow> string option) \<Rightarrow> rng
    \<Rightarrow> cfg_DeviceStore \<Rightarrow> Job gomap \<Rightarrow> localDeviceStore res" where
  "NewDeviceStoreFromConfig lib re_compile r conf all_jobs =
     (if cdvs_Type conf = ''local'' then
        newLocalDeviceStore lib re_compile r (cdvs_DeviceStoreLocal conf) all_jobs
      else Err (''Unrecognized device store type: '' @ cdvs_Type conf))"

section \<open>The jobs of a new device\<close>

context job_store_iface
begin

text \<open>
  A client of any job store: the copies a device starts with are well formed and named by
  the keys of its configuration, and making them never fails.
\<close>

lemma add_device_job_copy_step:
  assumes "store_ok st" "valid_rng r" "jobs_wf lib jobs"
  shows "\<exists>j. add_device_job_copy lib r (all_jobs st) jobs (n, c) = Ok (map_put n j jobs) \<and>
    Job_wf lib j \<and> job_Name j = n"
proof (cases "map_of (all_jobs st) n")
  case None
  then show ?thesis
    by (intro exI [of _ "NewDefaultJob n"]) (simp, simp add: NewDefaultJob_def)
next
  case (Some j)
  from copy_of_stored_job [OF assms(1) Some, of "at ''copy'' (at n r)"] assms(2)
  obtain j' where "Job_DeepCopy lib (at ''copy'' (at n r)) j = Ok j'" "Job_wf lib j'" "job_Name j' = n"
    by auto
  with Some show ?thesis by auto
qed

lemma device_job_copies:
  assumes "store_ok st" "valid_rng r" "jobs_wf lib jobs"
  shows "\<exists>jobs'. foldM (add_device_job_copy lib r (all_jobs st)) jobs kvs = Ok jobs' \<and>
    jobs_wf lib jobs' \<and> dom (map_of jobs') = dom (map_of jobs) \<union> fst ` set kvs"
  using assms(3)
proof (induction kvs arbitrary: jobs)
  case Nil
  then show ?case by simp
next
  case (Cons kv kvs)
  obtain n c where kv: "kv = (n, c)" by (cases kv)
  obtain j where j: "add_device_job_copy lib r (all_jobs st) jobs (n, c) = Ok (map_put n j jobs)"
    "Job_wf lib j" "job_Name j = n"
    using add_device_job_copy_step [OF assms(1,2) Cons.prems] by blast
  have "jobs_wf lib (map_put n j jobs)" using Cons.prems j by (simp add: jobs_wf_put)
  from Cons.IH [OF this] j kv show ?case by (auto simp: update_conv')
qed

lemma initial_device_ok:
  assumes "store_ok st" "valid_rng r"
  shows "\<exists>d. initial_device lib r (all_jobs st) name c = Ok d \<and> Device_wf lib d \<and>
    dev_Name d = name \<and> dom (map_of (dev_Jobs d)) = dom (map_of (cd_Jobs c))"
proof -
  have "jobs_wf lib []" by (simp add: jobs_wf_def)
  from device_job_copies [OF assms this, of "go_range r (cd_Jobs c)"]
  obtain jobs where jobs: "foldM (add_device_job_copy lib r (all_jobs st)) [] (go_range r (cd_Jobs c)) = Ok jobs"
    "jobs_wf lib jobs" "dom (map_of jobs) = fst ` set (go_range r (cd_Jobs c))" by auto
  then have "dom (map_of jobs) = dom (map_of (cd_Jobs c))"
    by (simp add: go_range_dom [OF assms(2)])
  with jobs NewDefaultDevice_wf [of lib name] show ?thesis
    by (simp add: initial_device_def Device_wf_def has_ssh_def NewDefaultDevice_def)
qed

end

section \<open>The store holds valid devices\<close>

definition good_device :: "cron_lib \<Rightarrow> (string \<Rightarrow> string option) \<Rightarrow> string \<Rightarrow> Device \<Rightarrow> bool" where
  "good_device lib re n d \<longleftrightarrow>
     dev_Name d = n \<and> Device_wf lib d \<and> dev_Host d \<noteq> [] \<and>
     (\<forall>(k, j) \<in> set (dev_Jobs d). Job_Validate re j = [])"

definition device_store_ok :: "cron_lib \<Rightarrow> (string \<Rightarrow> string option) \<Rightarrow> localDeviceStore \<Rightarrow> bool" where
  "device_store_ok lib re st \<longleftrightarrow>
     map_wf (lds_devices st) \<and> (\<forall>(n, d) \<in> set (lds_devices st). good_device lib re n d)"

interpretation local_devices: device_store_iface lib re AllDevices "device_store_ok lib re" for lib re
  by unfold_locales
    (auto simp: device_store_ok_def AllDevices_def good_device_def dest!: map_of_SomeD)

lemma apply_device_generic_Ok:
  "apply_device_generic lib r conf d c = Ok d' \<Longrightarrow>
     d' = d \<or> (\<exists>g. Device_ApplyConfig lib (at ''generic'' r) d g = Ok d')"
  by (auto simp: apply_device_generic_def go_simps split: if_splits option.splits)

lemma configure_device_wf:
  assumes "configure_device lib r conf (AllJobs js) name c = Ok d"
    and "job_store_ok lib re js" "valid_rng r"
  shows "Device_wf lib d \<and> dev_Name d = name \<and> dom (map_of (dev_Jobs d)) = dom (map_of (cd_Jobs c))"
proof -
  obtain d0 d1 where
    0: "initial_device lib (at ''jobs'' r) (AllJobs js) name c = Ok d0" and
    1: "apply_device_generic lib r conf d0 c = Ok d1" and
    2: "Device_ApplyConfig lib (at ''specific'' r) d1 c = Ok d"
    using assms(1) by (auto simp: configure_device_def go_simps)
  have d0: "Device_wf lib d0 \<and> dev_Name d0 = name \<and>
      dom (map_of (dev_Jobs d0)) = dom (map_of (cd_Jobs c))"
    using local_jobs.initial_device_ok [OF assms(2), of "at ''jobs'' r" name c] 0 assms(3) by auto
  have d1: "Device_wf lib d1 \<and> dev_Name d1 = name \<and>
      dom (map_of (dev_Jobs d1)) = dom (map_of (cd_Jobs c))"
    using apply_device_generic_Ok [OF 1]
  proof
    assume "d1 = d0"
    with d0 show ?thesis by simp
  next
    assume "\<exists>g. Device_ApplyConfig lib (at ''generic'' r) d0 g = Ok d1"
    then show ?thesis using d0 Device_ApplyConfig_wf by metis
  qed
  from Device_ApplyConfig_wf [OF 2] d1 show ?thesis by simp
qed

text \<open>What a round of the loop keeps of the devices stored so far.\<close>

definition stored_ok :: "cron_lib \<Rightarrow> (string \<Rightarrow> string option) \<Rightarrow> (string \<Rightarrow> string set)
    \<Rightarrow> Device gomap \<Rightarrow> bool" where
  "stored_ok lib re names ds \<longleftrightarrow>
     device_store_ok lib re \<lparr>lds_devices = ds\<rparr> \<and>
     (\<forall>n d. map_of ds n = Some d \<longrightarrow> dom (map_of (dev_Jobs d)) = names n)"

lemma stored_ok_put:
  assumes "stored_ok lib re names ds" "Device_wf lib d" "dev_Name d = n"
    "Device_Validate re r d = []" "valid_rng r" "dom (map_of (dev_Jobs d)) = names n"
  shows "stored_ok lib re names (map_put n d ds)"
proof -
  have jobs: "map_wf (dev_Jobs d)" using assms(2) by (simp add: Device_wf_def jobs_wf_def)
  have "good_device lib re n d"
    using assms(2-4) jobs by (auto simp: Device_Validate_Nil_iff [OF assms(5)] good_device_def)
  moreover have "set (map_put n d ds) \<subseteq> insert (n, d) (set ds)"
    by (induction ds) auto
  ultimately have "device_store_ok lib re \<lparr>lds_devices = map_put n d ds\<rparr>"
    using assms(1) by (auto simp: stored_ok_def device_store_ok_def distinct_update)
  then show ?thesis
    using assms(1,6) by (simp add: stored_ok_def update_conv')
qed

lemma add_device_keeps:
  assumes "add_device lib re r conf (AllJobs js) s x = Ok s'"
    and "stored_ok lib re names (fst s)" "job_store_ok lib re js" "valid_rng r"
    and "\<And>c. x = (n, Some c) \<Longrightarrow> names n = dom (map_of (cd_Jobs c))" "fst x = n"
  shows "stored_ok lib re names (fst s')"
proof (cases "snd x")
  case None
  then show ?thesis using assms(1) by (cases s; cases x) simp
next
  case (Some c)
  obtain ds errs where s: "s = (ds, errs)" by (cases s)
  have x: "x = (n, Some c)" using Some assms(6) by (cases x) simp
  show ?thesis
  proof (cases "fst s' = ds")
    case True
    then show ?thesis using assms(2) s by simp
  next
    case False
    then obtain d where
      d: "configure_device lib (at n r) conf (AllJobs js) n c = Ok d"
        "Device_Validate re (at ''validate'' (at n r)) d = []"
        "fst s' = map_put (dev_Name d) d ds"
      using assms(1) x s by (auto simp: Let_def split: res.splits if_splits)
    have "Device_wf lib d \<and> dev_Name d = n \<and> dom (map_of (dev_Jobs d)) = dom (map_of (cd_Jobs c))"
      by (rule configure_device_wf [OF d(1) assms(3)]) (simp add: assms(4))
    moreover have "names n = dom (map_of (cd_Jobs c))" using assms(5) x by blast
    ultimately show ?thesis
      using d stored_ok_put [of lib re names ds d n "at ''validate'' (at n r)"] assms(2,4) s by simp
  qed
qed

section \<open>What the construction computes\<close>

lemma add_device_errs:
  assumes "add_device lib re r conf jobs (ds, errs) (n, p) = Ok (ds', errs')"
  shows "\<exists>es. errs' = errs @ es \<and>
    (es = [] \<longrightarrow> (\<exists>c d. p = Some c \<and> configure_device lib (at n r) conf jobs n c = Ok d \<and>
       ds' = map_put (dev_Name d) d ds))"
  using assms by (cases p) (auto simp: Let_def split: res.splits if_splits)

lemma foldM_add_device_errs:
  "foldM (add_device lib re r conf jobs) (ds, errs) kvs = Ok (ds', errs') \<Longrightarrow> \<exists>es. errs' = errs @ es"
proof (induction kvs arbitrary: ds errs)
  case Nil
  then show ?case by simp
next
  case (Cons kv kvs)
  then obtain ds1 errs1 where
    1: "add_device lib re r conf jobs (ds, errs) kv = Ok (ds1, errs1)"
    "foldM (add_device lib re r conf jobs) (ds1, errs1) kvs = Ok (ds', errs')"
    by (auto simp: go_simps)
  obtain n p where "kv = (n, p)" by (cases kv)
  with 1 add_device_errs Cons.IH show ?case by (metis append.assoc)
qed

lemma foldM_add_device_dom:
  assumes "foldM (add_device lib re r conf (AllJobs js)) (ds, []) kvs = Ok (ds', [])"
    and "job_store_ok lib re js" "valid_rng r"
  shows "dom (map_of ds') = dom (map_of ds) \<union> fst ` set kvs"
  using assms(1)
proof (induction kvs arbitrary: ds)
  case Nil
  then show ?case by simp
next
  case (Cons kv kvs)
  obtain n p where kv: "kv = (n, p)" by (cases kv)
  obtain ds1 errs1 where
    1: "add_device lib re r conf (AllJobs js) (ds, []) (n, p) = Ok (ds1, errs1)"
    "foldM (add_device lib re r conf (AllJobs js)) (ds1, errs1) kvs = Ok (ds', [])"
    using Cons.prems kv by (auto simp: go_simps)
  then have "errs1 = []" using foldM_add_device_errs by fastforce
  with add_device_errs [OF 1(1)] obtain c d where
    d: "configure_device lib (at n r) conf (AllJobs js) n c = Ok d" "ds1 = map_put (dev_Name d) d ds"
    by auto
  have "dev_Name d = n" using configure_device_wf [OF d(1) assms(2)] assms(3) by simp
  then show ?case using Cons.IH 1(2) \<open>errs1 = []\<close> d(2) kv by (auto simp: update_conv')
qed

definition configured_jobs :: "cfg_DeviceStoreLocal \<Rightarrow> string \<Rightarrow> string set" where
  "configured_jobs conf n =
     (case lookup_ptr (cdl_Devices conf) n of None \<Rightarrow> {} | Some c \<Rightarrow> dom (map_of (cd_Jobs c)))"

lemma newLocalDeviceStore_Ok_iff:
  "newLocalDeviceStore lib re r (Some conf) jobs = Ok st \<longleftrightarrow>
     foldM (add_device lib re r conf jobs) ([], []) (go_range r (cdl_Devices conf)) =
       Ok (lds_devices st, [])"
  by (cases st) (auto simp: newLocalDeviceStore_def go_simps split: prod.splits if_splits)

lemma new_device_store:
  assumes "newLocalDeviceStore lib re r (Some conf) (AllJobs js) = Ok st"
    and "job_store_ok lib re js" and "valid_rng r"
  shows "device_store_ok lib re st \<and>
    dom (map_of (AllDevices st)) = dom (map_of (cdl_Devices conf)) \<and>
    (\<forall>n d. map_of (AllDevices st) n = Some d \<longrightarrow>
       dom (map_of (dev_Jobs d)) = configured_jobs conf n)"
proof -
  let ?kvs = "go_range r (cdl_Devices conf)"
  have run: "foldM (add_device lib re r conf (AllJobs js)) ([], []) ?kvs = Ok (lds_devices st, [])"
    using assms(1) by (simp add: newLocalDeviceStore_Ok_iff)
  have "stored_ok lib re (configured_jobs conf) (fst (lds_devices st, [] :: string list))"
  proof (rule foldM_invariant [OF _ _ run, where I = "\<lambda>s. stored_ok lib re (configured_jobs conf) (fst s)"])
    fix s x s'
    assume x: "x \<in> set ?kvs" "stored_ok lib re (configured_jobs conf) (fst s)"
      "add_device lib re r conf (AllJobs js) s x = Ok s'"
    have "configured_jobs conf (fst x) = dom (map_of (cd_Jobs c))" if "x = (fst x, Some c)" for c
    proof -
      have "(fst x, Some c) \<in> set ?kvs" using x(1) that by simp
      then have "map_of (cdl_Devices conf) (fst x) = Some (Some c)" by (rule go_range_sound)
      then show ?thesis by (simp add: configured_jobs_def lookup_ptr_def)
    qed
    from add_device_keeps [OF x(3,2) assms(2,3) this refl]
    show "stored_ok lib re (configured_jobs conf) (fst s')" .
  qed (simp add: stored_ok_def device_store_ok_def)
  moreover have "dom (map_of (lds_devices st)) = dom (map_of (cdl_Devices conf))"
    using foldM_add_device_dom [OF run assms(2,3)] by (simp add: go_range_dom [OF assms(3)])
  ultimately show ?thesis
    by (simp add: stored_ok_def AllDevices_def device_store_ok_def)
qed

text \<open>
  C23. A device store that could be built over a valid job store holds exactly the configured
  devices, each valid, with an SSH protocol, and with exactly the jobs its configuration
  names, each of them well formed, scheduled and valid.
\<close>

theorem newLocalDeviceStore_correct:
  assumes "newLocalDeviceStore lib re r (Some conf) (AllJobs js) = Ok st"
    and "job_store_ok lib re js" and "valid_rng r"
  shows "device_store_ok lib re st \<and>
    dom (map_of (AllDevices st)) = dom (map_of (cdl_Devices conf)) \<and>
    (\<forall>n d. map_of (AllDevices st) n = Some d \<longrightarrow>
       dom (map_of (dev_Jobs d)) = configured_jobs conf n)"
  by (rule new_device_store [OF assms])

definition sample_device_conf :: cfg_Device where
  "sample_device_conf = zero_Device\<lparr>cd_Host := ''127.0.0.1'',
     cd_DeviceProtocol := Some \<lparr>cp_Type = ''ssh'', cp_DeviceProtocolSsh = None\<rparr>,
     cd_Tags := [''dmz''], cd_Jobs := [(''bar'', Some zero_Job)]\<rparr>"

definition sample_devices :: cfg_DeviceStoreLocal where
  "sample_devices = \<lparr>cdl_DeviceGenerics = [], cdl_Devices = [(''qux'', Some sample_device_conf)]\<rparr>"

definition sample_js :: localJobStore where
  "sample_js = \<lparr>ljs_jobs = [(''bar'', sample_bar)]\<rparr>"

text \<open>The job as it arrives on the device: a copy, so without a \<open>Generic\<close>.\<close>

definition sample_copy :: Job where
  "sample_copy = sample_bar\<lparr>job_CommandSet := Some \<lparr>cset_Generic = None,
     cset_Commands = [NewDefaultCommandSetCommand\<lparr>cmd_Command := ''command1''\<rparr>]\<rparr>\<rparr>"

definition sample_device :: Device where
  "sample_device = (NewDefaultDevice ''qux'')\<lparr>dev_Host := ''127.0.0.1'', dev_Tags := [''dmz''],
     dev_Jobs := [(''bar'', sample_copy)]\<rparr>"

lemma sample_js_ok: "job_store_ok sample_lib sample_re sample_js"
  using sample_bar_valid
  by (simp add: job_store_ok_def sample_js_def sample_bar_def Job_wf_def Schedule_wf_def
      sample_lib_def)

lemma sample_initial:
  "initial_device sample_lib (\<lambda>p ks. ks) (AllJobs sample_js) ''qux'' sample_device_conf =
     Ok ((NewDefaultDevice ''qux'')\<lparr>dev_Jobs := [(''bar'', sample_copy)]\<rparr>)"
  by (simp add: initial_device_def sample_device_conf_def AllJobs_def sample_js_def go_range_def
      zero_defs Job_DeepCopy_def sample_bar_def sample_copy_def Schedule_DeepCopy_def
      NewCronSchedule_def sample_lib_def CommandSet_DeepCopy_def put_all_def)

lemma sample_job_configured:
  "Job_ApplyConfig sample_lib (\<lambda>p ks. ks) sample_copy (Some zero_Job) = Ok sample_copy"
  by (simp add: job_defs zero_defs sample_copy_def sample_bar_def)

lemma sample_templates: "ApplyTemplateValues (\<lambda>p ks. ks) sample_copy = sample_copy"
  by (simp add: ApplyTemplateValues_def sample_copy_def sample_bar_def go_range_def)

lemma sample_configured:
  "configure_device sample_lib (\<lambda>p ks. ks) sample_devices (AllJobs sample_js) ''qux''
     sample_device_conf = Ok sample_device"
proof -
  have "Device_ApplyConfig sample_lib (\<lambda>p ks. ks)
      ((NewDefaultDevice ''qux'')\<lparr>dev_Jobs := [(''bar'', sample_copy)]\<rparr>) sample_device_conf =
      Ok sample_device"
    by (simp add: Device_ApplyConfig_def apply_protocol_def apply_credentials_def
        sample_device_conf_def NewDefaultDevice_def zero_Device_def go_range_def sample_job_configured
        sample_templates sample_device_def)
  moreover have "cd_Generic sample_device_conf = []"
    by (simp add: sample_device_conf_def zero_Device_def)
  ultimately show ?thesis
    by (simp add: configure_device_def sample_initial apply_device_generic_def sample_devices_def
        lookup_ptr_def)
qed

lemma sample_device_valid: "Device_Validate sample_re (\<lambda>p ks. ks) sample_device = []"
  by (simp add: Device_Validate_def sample_device_def NewDefaultDevice_def go_range_def
      Job_Validate_def sample_copy_def sample_bar_def CommandSet_Validate_def
      CommandSetCommand_Validate_def NewDefaultCommandSetCommand_def pattern_errors_def)

lemma sample_device_store:
  "newLocalDeviceStore sample_lib sample_re (\<lambda>p ks. ks) (Some sample_devices) (AllJobs sample_js) =
     Ok \<lparr>lds_devices = [(''qux'', sample_device)]\<rparr>"
proof -
  have "go_range (\<lambda>p ks. ks) (cdl_Devices sample_devices) = [(''qux'', Some sample_device_conf)]"
    by (simp add: sample_devices_def go_range_def)
  moreover have "dev_Name sample_device = ''qux''"
    by (simp add: sample_device_def NewDefaultDevice_def)
  ultimately show ?thesis
    by (simp add: newLocalDeviceStore_def sample_configured sample_device_valid)
qed

theorem newLocalDeviceStore_correct_witness:
  "device_store_ok sample_lib sample_re \<lparr>lds_devices = [(''qux'', sample_device)]\<rparr>"
  using newLocalDeviceStore_correct [OF sample_device_store sample_js_ok valid_rng_id] by blast

section \<open>Job settings on a device\<close>

text \<open>
  A copy has no \<open>Generic\<close>, so command settings in the device's entry for a stored job make
  \<open>CommandSet.ApplyConfig\<close> dereference nil.
\<close>

lemma Job_ApplyConfig_nil_Generic:
  assumes "job_CommandSet j = Some cs" "cset_Generic cs = None" "job_FileSet j = None"
    and "cj_Type c = [] \<or> cj_Type c = ''command''"
    and "cj_Commands c \<noteq> [] \<or> (\<exists>g. cj_CommandGeneric c = Some g \<and> ApplyConfig_derefs g)"
  shows "is_panic (Job_ApplyConfig lib r j (Some c))"
proof -
  have "choose_set j c = Ok j" using assms by (auto simp: choose_set_def)
  moreover have "is_panic (CommandSet_ApplyConfig cs c)"
    using CommandSet_ApplyConfig_nil_Generic [OF assms(2)] assms(5) by blast
  ultimately show ?thesis
    using assms(1) by (auto simp: Job_ApplyConfig_def apply_sets_def go_simps)
qed

lemma foldM_panics: "is_panic (f s x) \<Longrightarrow> is_panic (foldM f s (x # xs))"
  by (simp add: go_simps)

lemma foldM_add_device_panics:
  assumes "(n, p) \<in> set kvs" "\<And>s. is_panic (add_device lib re r conf jobs s (n, p))"
  shows "is_panic (foldM (add_device lib re r conf jobs) s kvs)"
  using assms(1)
proof (induction kvs arbitrary: s)
  case Nil
  then show ?case by simp
next
  case (Cons kv kvs)
  show ?case
  proof (cases "add_device lib re r conf jobs s kv")
    case (Ok s')
    then have "(n, p) \<in> set kvs" using Cons.prems assms(2) by (metis is_panic.simps(2) set_ConsD)
    with Cons.IH Ok show ?thesis by simp
  next
    case (Err e)
    then show ?thesis
      by (cases s; cases kv; cases "snd kv") (auto simp: Let_def split: res.splits if_splits)
  next
    case (Panic q)
    then show ?thesis by simp
  qed
qed

text \<open>
  C39. A device that gives commands of its own to a job of the job store crashes the
  controller while it starts: the documented override of a job's settings by the device ends
  in a nil dereference.
\<close>

theorem device_command_override_panics:
  assumes "job_store_ok lib re js" and "valid_rng r"
    and "map_of (AllJobs js) k = Some j" and "job_CommandSet j = Some cs"
    and "map_of (cdl_Devices conf) n = Some (Some cd)"
    and "cd_Generic cd = []" and "lookup_ptr (cdl_DeviceGenerics conf) ''default'' = None"
    and "cd_DeviceProtocol cd = None" and "cd_Jobs cd = [(k, Some c)]"
    and "cj_Type c = []" and "cj_Commands c \<noteq> []"
  shows "is_panic (newLocalDeviceStore lib re r (Some conf) (AllJobs js))"
proof -
  let ?r = "at n r"
  let ?rj = "at ''copy'' (at k (at ''jobs'' ?r))"
  obtain s where s: "job_Schedule j = Some s"
    using local_jobs.jobs_valid [OF assms(1,3)] by (auto simp: Job_Validate_Nil_iff)
  have wf: "Job_wf lib j" by (rule local_jobs.jobs_well_formed [OF assms(1,3)])
  define j' where "j' = j\<lparr>job_CommandSet := map_option CommandSet_DeepCopy (job_CommandSet j),
          job_TemplateValues := put_all [] (go_range ?rj (job_TemplateValues j))\<rparr>"
  have copy: "Job_DeepCopy lib ?rj j = Ok j'"
    unfolding j'_def by (rule Job_DeepCopy_Ok [OF wf s])
  have range: "go_range q [(k, Some c)] = [(k, Some c)]" if "valid_rng q" for q
    by (rule go_range_single [OF that])
  have "is_panic (Job_ApplyConfig lib q j' (Some c))" for q
    by (rule Job_ApplyConfig_nil_Generic [of _ "CommandSet_DeepCopy cs"])
      (use assms(4,10,11) wf in \<open>auto simp: j'_def Job_wf_def\<close>)
  then have "is_panic (configure_device lib ?r conf (AllJobs js) n cd)"
    using assms(3,6,7,8,9) copy range assms(2)
    by (simp add: configure_device_def initial_device_def apply_device_generic_def
        Device_ApplyConfig_def apply_protocol_def NewDefaultDevice_def go_simps)
  then have "is_panic (add_device lib re r conf (AllJobs js) s (n, Some cd))" for s
    by (cases s) (auto split: res.split)
  moreover have "(n, Some cd) \<in> set (go_range r (cdl_Devices conf))"
    using assms(2,5) by (simp add: go_range_mem)
  ultimately show ?thesis
    using foldM_add_device_panics by (simp add: newLocalDeviceStore_def go_simps)
qed

definition sample_override :: cfg_Job where
  "sample_override = zero_Job\<lparr>cj_Commands :=
     [Some (zero_JobCommand\<lparr>cc_Command := ''show run''\<rparr>)]\<rparr>"

theorem device_command_override_panics_witness:
  "is_panic (newLocalDeviceStore sample_lib sample_re (\<lambda>p ks. ks)
     (Some \<lparr>cdl_DeviceGenerics = [], cdl_Devices =
        [(''qux'', Some (zero_Device\<lparr>cd_Jobs := [(''bar'', Some sample_override)]\<rparr>))]\<rparr>)
     (AllJobs sample_js))"
  by (rule device_command_override_panics [OF sample_js_ok valid_rng_id,
        where k = "''bar''" and j = sample_bar and n = "''qux''" and c = sample_override
          and cs = "the (job_CommandSet sample_bar)"
          and cd = "zero_Device\<lparr>cd_Jobs := [(''bar'', Some sample_override)]\<rparr>"])
    (simp_all add: AllJobs_def sample_js_def sample_bar_def lookup_ptr_def zero_defs
      sample_override_def)

text \<open>Without such settings, and without null entries, no configuration crashes it.\<close>

definition quiet_job :: "cfg_Job option \<Rightarrow> bool" where
  "quiet_job p \<longleftrightarrow>
     (case p of None \<Rightarrow> False
      | Some c \<Rightarrow> cfg_Job_no_nil c \<and> cj_Commands c = [] \<and> cj_CommandGeneric c = None)"

definition quiet_device :: "cfg_Device \<Rightarrow> bool" where
  "quiet_device cd \<longleftrightarrow> (\<forall>(k, p) \<in> set (cd_Jobs cd). quiet_job p)"

lemma apply_sets_quiet:
  assumes "cj_Commands c = []" "cj_CommandGeneric c = None" "cfg_Job_no_nil c"
  shows "\<exists>j'. apply_sets r j c = Ok j'"
proof -
  have cs: "CommandSet_ApplyConfig cs c = Ok cs" for cs
    using assms(1,2) by (simp add: CommandSet_ApplyConfig_def apply_generic_def)
  have "\<exists>f'. FileSet_ApplyConfig (at ''JobFile'' r) f c = Ok f'" for f
    using assms(3) by (simp add: FileSet_ApplyConfig_total cfg_Job_no_nil_def)
  then obtain g where "FileSet_ApplyConfig (at ''JobFile'' r) f c = Ok (g f)" for f by metis
  then show ?thesis
    by (cases "job_CommandSet j"; cases "job_FileSet j") (simp_all add: apply_sets_def cs)
qed

lemma Job_ApplyConfig_quiet:
  assumes "quiet_job p"
  shows "\<not> is_panic (Job_ApplyConfig lib r j p)"
proof -
  obtain c where c: "p = Some c" "cfg_Job_no_nil c" "cj_Commands c = []" "cj_CommandGeneric c = None"
    using assms by (auto simp: quiet_job_def split: option.splits)
  have "\<exists>j'. apply_sets r j1 c = Ok j'" for j1
    by (rule apply_sets_quiet [OF c(3,4,2)])
  moreover have "None \<notin> set (cj_Scrubbers c)" using c(2) by (simp add: cfg_Job_no_nil_def)
  ultimately show ?thesis
    using c(1) choose_set_no_panic apply_schedule_no_panic
    by (auto simp: Job_ApplyConfig_def go_simps foldM_add_scrubber) (metis is_panic.simps(2))
qed

lemma apply_protocol_no_panic: "has_ssh d \<Longrightarrow> \<not> is_panic (apply_protocol d conf)"
  by (auto simp: apply_protocol_def has_ssh_def Let_def split: option.split)

lemma Device_ApplyConfig_quiet:
  assumes "has_ssh d" "quiet_device conf"
  shows "\<not> is_panic (Device_ApplyConfig lib r d conf)"
proof -
  have step: "\<not> is_panic (apply_device_job lib r jobs x)" if "x \<in> set (go_range r (cd_Jobs conf))" for jobs x
  proof (cases x)
    case (Pair k p)
    then have "(k, p) \<in> set (cd_Jobs conf)" using that go_range_sound map_of_SomeD by metis
    then have "quiet_job p" using assms(2) by (auto simp: quiet_device_def)
    with Pair Job_ApplyConfig_quiet show ?thesis by (auto simp: go_simps split: option.split)
  qed
  have "\<not> is_panic (foldM (apply_device_job lib r) jobs (go_range r (cd_Jobs conf)))" for jobs
    by (rule foldM_no_panic [where I = "\<lambda>_. True"]) (use step in auto)
  moreover have "\<not> is_panic (apply_protocol (if cd_Host conf \<noteq> [] then d\<lparr>dev_Host := cd_Host conf\<rparr> else d) conf)"
    by (rule apply_protocol_no_panic) (use assms(1) in \<open>simp add: has_ssh_def\<close>)
  ultimately show ?thesis by (auto simp: Device_ApplyConfig_def go_simps Let_def)
qed

definition quiet_devices :: "cfg_Device option gomap \<Rightarrow> bool" where
  "quiet_devices m \<longleftrightarrow> (\<forall>(n, p) \<in> set m. case p of None \<Rightarrow> False | Some c \<Rightarrow> quiet_device c)"

lemma lookup_quiet: "quiet_devices m \<Longrightarrow> lookup_ptr m k = Some c \<Longrightarrow> quiet_device c"
  by (auto simp: quiet_devices_def lookup_ptr_def split: option.splits dest!: map_of_SomeD)

lemma configure_device_quiet:
  assumes "job_store_ok lib re js" "valid_rng r" "quiet_devices (cdl_DeviceGenerics conf)"
    "quiet_device c"
  shows "\<not> is_panic (configure_device lib r conf (AllJobs js) n c)"
proof -
  obtain d0 where d0: "initial_device lib (at ''jobs'' r) (AllJobs js) n c = Ok d0" "Device_wf lib d0"
    using local_jobs.initial_device_ok [OF assms(1), of "at ''jobs'' r" n c] assms(2) by auto
  have ssh: "has_ssh d1" if "apply_device_generic lib r conf d0 c = Ok d1" for d1
    using apply_device_generic_Ok [OF that] d0(2) Device_ApplyConfig_wf
    by (metis Device_wf_def)
  have "\<not> is_panic (apply_device_generic lib r conf d0 c)"
    using lookup_quiet [OF assms(3)] Device_ApplyConfig_quiet d0(2)
    by (auto simp: apply_device_generic_def go_simps Device_wf_def split: option.split)
  then show ?thesis
    using d0(1) ssh Device_ApplyConfig_quiet assms(4) by (auto simp: configure_device_def go_simps)
qed

text \<open>
  Over a valid job store, building the device store never panics as long as the
  configuration has no null entry and no device entry overrides the commands of its jobs.
\<close>

theorem newLocalDeviceStore_no_panic:
  assumes "job_store_ok lib re js" and "valid_rng r"
    and "quiet_devices (cdl_DeviceGenerics conf)" and "quiet_devices (cdl_Devices conf)"
  shows "\<not> is_panic (newLocalDeviceStore lib re r (Some conf) (AllJobs js))"
proof -
  have step: "\<not> is_panic (add_device lib re r conf (AllJobs js) s x)"
    if "x \<in> set (go_range r (cdl_Devices conf))" for s x
  proof (cases x)
    case (Pair n p)
    then have "(n, p) \<in> set (cdl_Devices conf)" using that go_range_sound map_of_SomeD by metis
    then obtain c where c: "p = Some c" "quiet_device c"
      using assms(4) by (auto simp: quiet_devices_def split: option.splits)
    have "\<not> is_panic (configure_device lib (at n r) conf (AllJobs js) n c)"
      by (rule configure_device_quiet [OF assms(1) _ assms(3) c(2)]) (simp add: assms(2))
    then show ?thesis using Pair c(1) by (cases s) (auto simp: Let_def split: res.split)
  qed
  have "\<not> is_panic (foldM (add_device lib re r conf (AllJobs js)) ([], []) (go_range r (cdl_Devices conf)))"
    by (rule foldM_no_panic [where I = "\<lambda>_. True"]) (use step in auto)
  then show ?thesis by (auto simp: newLocalDeviceStore_def go_simps split: prod.splits if_splits)
qed

theorem newLocalDeviceStore_no_panic_witness:
  "\<not> is_panic (newLocalDeviceStore sample_lib sample_re (\<lambda>p. rev) (Some sample_devices)
     (AllJobs sample_js))"
  by (rule newLocalDeviceStore_no_panic [OF sample_js_ok valid_rng_rev])
    (simp_all add: quiet_devices_def quiet_device_def quiet_job_def cfg_Job_no_nil_def
      sample_devices_def sample_device_conf_def zero_defs)

end
