(* ===== verification/Scheduler.thy ===== *)
theory Scheduler
  imports Device_Store
begin

text \<open>
  The scheduler (controller/scheduler.go). A \<open>deviceJob\<close> is a heap object: a device with
  several tags is listed under each of them and all the lists share one object, whose
  \<open>lastRun\<close> advances whenever a worker is given a run of it. The model keeps the objects in
  \<open>sl_heap\<close>, a list indexed by the object's address, and addresses in the tag lists. The
  values of successive \<open>time.Now()\<close> calls are a sequence \<open>clk\<close>, of which \<open>sl_ticks\<close> were read;
  nothing is assumed of it (the wall clock may go backwards). Each call of \<open>nextRun\<close> holds the
  lock of its object, so calls from concurrent requests are ordered; the log lines of the
  verbose mode are left out.
\<close>

record deviceJob =
  dj_Device :: Device
  dj_Job :: Job
  dj_lastRun :: gotime

record schedulerLocal =
  sl_heap :: "deviceJob list"
  sl_byTag :: "nat list gomap"
  sl_ticks :: nat

type_synonym clock = "nat \<Rightarrow> gotime"

section \<open>Construction\<close>

definition jobs_of_tag :: "schedulerLocal \<Rightarrow> string \<Rightarrow> nat list" where
  "jobs_of_tag s tag = (case map_of (sl_byTag s) tag of None \<Rightarrow> [] | Some ids \<Rightarrow> ids)"

definition addDeviceJobToTag :: "nat \<Rightarrow> schedulerLocal \<Rightarrow> string \<Rightarrow> schedulerLocal" where
  "addDeviceJobToTag d s tag = s\<lparr>sl_byTag := map_put tag (jobs_of_tag s tag @ [d]) (sl_byTag s)\<rparr>"

text \<open>One round of the loop of \<open>addDeviceJob\<close> over the jobs of the device.\<close>

definition add_one_job :: "clock \<Rightarrow> Device \<Rightarrow> schedulerLocal \<Rightarrow> string \<times> Job \<Rightarrow> schedulerLocal" where
  "add_one_job clk dev s kv =
     (let d = length (sl_heap s);
          s = s\<lparr>sl_heap := sl_heap s @ [\<lparr>dj_Device = dev, dj_Job = snd kv,
                  dj_lastRun = clk (sl_ticks s)\<rparr>], sl_ticks := Suc (sl_ticks s)\<rparr>
      in if length (dev_Tags dev) = 0 then addDeviceJobToTag d s ''''
         else foldl (addDeviceJobToTag d) s (dev_Tags dev))"

definition addDeviceJob :: "rng \<Rightarrow> clock \<Rightarrow> schedulerLocal \<Rightarrow> string \<times> Device \<Rightarrow> schedulerLocal" where
  "addDeviceJob r clk s kv =
     foldl (add_one_job clk (snd kv)) s (go_range (at (fst kv) r) (dev_Jobs (snd kv)))"

definition NewLocalScheduler :: "rng \<Rightarrow> clock \<Rightarrow> Device gomap \<Rightarrow> schedulerLocal" where
  "NewLocalScheduler r clk devices =
     foldl (addDeviceJob r clk) \<lparr>sl_heap = [], sl_byTag = [], sl_ticks = 0\<rparr> (go_range r devices)"

section \<open>Handing out runs\<close>

text \<open>\<open>d.Job.Next\<close> on a job without a schedule dereferences nil.\<close>

definition nextRun :: "cron_lib \<Rightarrow> gotime \<Rightarrow> gotime \<Rightarrow> deviceJob \<Rightarrow> (gotime \<times> deviceJob) res" where
  "nextRun lib now before d =
     (let after = (if now < dj_lastRun d then dj_lastRun d else now)
      in case job_Schedule (dj_Job d) of None \<Rightarrow> nil_deref
         | Some sched \<Rightarrow>
             let ret = Schedule_Next lib sched after
             in if after < ret \<and> ret < before then Ok (ret, d\<lparr>dj_lastRun := ret\<rparr>)
                else Ok (zero_time, d))"

text \<open>The inner loop: the first object in the list that has a run, with the time of the run.\<close>

fun try_jobs :: "cron_lib \<Rightarrow> clock \<Rightarrow> gotime \<Rightarrow> nat list \<Rightarrow> schedulerLocal
    \<Rightarrow> ((nat \<times> gotime) option \<times> schedulerLocal) res" where
  "try_jobs lib clk before [] s = Ok (None, s)"
| "try_jobs lib clk before (i # ids) s =
     res_bind (nextRun lib (clk (sl_ticks s)) before (sl_heap s ! i)) (\<lambda>(runTime, d).
     let s' = s\<lparr>sl_heap := (sl_heap s)[i := d], sl_ticks := Suc (sl_ticks s)\<rparr>
     in if \<not> IsZero runTime then Ok (Some (i, runTime), s')
        else try_jobs lib clk before ids s')"

fun try_tags :: "cron_lib \<Rightarrow> clock \<Rightarrow> gotime \<Rightarrow> string list \<Rightarrow> schedulerLocal
    \<Rightarrow> ((nat \<times> gotime) option \<times> schedulerLocal) res" where
  "try_tags lib clk before [] s = Ok (None, s)"
| "try_tags lib clk before (tag # tags) s =
     res_bind (try_jobs lib clk before (jobs_of_tag s tag) s) (\<lambda>(found, s').
     case found of None \<Rightarrow> try_tags lib clk before tags s' | Some g \<Rightarrow> Ok (Some g, s'))"

definition effective_tags :: "string list \<Rightarrow> string list" where
  "effective_tags tags = (if length tags = 0 then [''''] else tags)"

definition execution_of :: "schedulerLocal \<Rightarrow> nat \<times> gotime \<Rightarrow> Execution" where
  "execution_of s g =
     \<lparr>ex_Device = dj_Device (sl_heap s ! fst g), ex_Job = dj_Job (sl_heap s ! fst g),
      ex_Timestamp = Unix (snd g)\<rparr>"

definition NextExecution :: "cron_lib \<Rightarrow> clock \<Rightarrow> schedulerLocal \<Rightarrow> string list \<Rightarrow> gotime
    \<Rightarrow> (Execution option \<times> schedulerLocal) res" where
  "NextExecution lib clk s tags before =
     res_bind (try_tags lib clk before (effective_tags tags) s) (\<lambda>(found, s').
     Ok (map_option (execution_of s') found, s'))"

section \<open>Invariant\<close>

text \<open>A tag list holds addresses of objects whose device carries the tag.\<close>

definition tag_match :: "string \<Rightarrow> Device \<Rightarrow> bool" where
  "tag_match tag d \<longleftrightarrow> tag \<in> set (dev_Tags d) \<or> (tag = '''' \<and> dev_Tags d = [])"

definition tags_ok :: "schedulerLocal \<Rightarrow> bool" where
  "tags_ok s \<longleftrightarrow> (\<forall>tag. \<forall>i \<in> set (jobs_of_tag s tag).
     i < length (sl_heap s) \<and> tag_match tag (dj_Device (sl_heap s ! i)))"

definition scheduled :: "schedulerLocal \<Rightarrow> bool" where
  "scheduled s \<longleftrightarrow> (\<forall>d \<in> set (sl_heap s). job_Schedule (dj_Job d) \<noteq> None)"

definition heap_names :: "schedulerLocal \<Rightarrow> (string \<times> string) list" where
  "heap_names s = map (\<lambda>d. (dev_Name (dj_Device d), job_Name (dj_Job d))) (sl_heap s)"

definition sched_ok :: "schedulerLocal \<Rightarrow> bool" where
  "sched_ok s \<longleftrightarrow> tags_ok s \<and> scheduled s \<and> distinct (heap_names s)"

lemma jobs_of_tag_frame [simp]:
  "jobs_of_tag (s\<lparr>sl_heap := h\<rparr>) t = jobs_of_tag s t"
  "jobs_of_tag (s\<lparr>sl_ticks := n\<rparr>) t = jobs_of_tag s t"
  by (simp_all add: jobs_of_tag_def)

lemma jobs_of_tag_add:
  "jobs_of_tag (addDeviceJobToTag d s tag) t =
     (if t = tag then jobs_of_tag s tag @ [d] else jobs_of_tag s t)"
  by (simp add: jobs_of_tag_def addDeviceJobToTag_def update_conv')

lemma addDeviceJobToTag_heap [simp]: "sl_heap (addDeviceJobToTag d s tag) = sl_heap s"
  by (simp add: addDeviceJobToTag_def)

lemma foldl_addDeviceJobToTag:
  "sl_heap (foldl (addDeviceJobToTag d) s tags) = sl_heap s"
  "set (jobs_of_tag (foldl (addDeviceJobToTag d) s tags) t) =
     set (jobs_of_tag s t) \<union> (if t \<in> set tags then {d} else {})"
  by (induction tags arbitrary: s) (auto simp: jobs_of_tag_add)

lemma add_one_job_heap:
  "sl_heap (add_one_job clk dev s kv) =
     sl_heap s @ [\<lparr>dj_Device = dev, dj_Job = snd kv, dj_lastRun = clk (sl_ticks s)\<rparr>]"
  by (simp add: add_one_job_def Let_def foldl_addDeviceJobToTag)

lemma add_one_job_tags:
  "set (jobs_of_tag (add_one_job clk dev s kv) t) =
     set (jobs_of_tag s t) \<union> (if tag_match t dev then {length (sl_heap s)} else {})"
  by (auto simp: add_one_job_def Let_def foldl_addDeviceJobToTag jobs_of_tag_add tag_match_def)

lemma add_one_job_tags_ok: "tags_ok s \<Longrightarrow> tags_ok (add_one_job clk dev s kv)"
  by (auto simp: tags_ok_def add_one_job_tags add_one_job_heap nth_append less_Suc_eq split: if_splits)

lemma add_one_job_scheduled:
  "scheduled s \<Longrightarrow> job_Schedule (snd kv) \<noteq> None \<Longrightarrow> scheduled (add_one_job clk dev s kv)"
  by (auto simp: scheduled_def add_one_job_heap)

lemma foldl_add_one_job:
  assumes "tags_ok s" "scheduled s" "\<And>k j. (k, j) \<in> set kvs \<Longrightarrow> job_Schedule j \<noteq> None"
  shows "tags_ok (foldl (add_one_job clk dev) s kvs) \<and> scheduled (foldl (add_one_job clk dev) s kvs) \<and>
    heap_names (foldl (add_one_job clk dev) s kvs) =
      heap_names s @ map (\<lambda>(k, j). (dev_Name dev, job_Name j)) kvs"
  using assms
proof (induction kvs arbitrary: s)
  case Nil
  then show ?case by simp
next
  case (Cons kv kvs)
  obtain k j where kv: "kv = (k, j)" by (cases kv)
  let ?s = "add_one_job clk dev s kv"
  have "tags_ok ?s" "scheduled ?s"
    using Cons.prems(1,2) Cons.prems(3) [of k j] kv
    by (simp_all add: add_one_job_tags_ok add_one_job_scheduled)
  moreover have "heap_names ?s = heap_names s @ [(dev_Name dev, job_Name j)]"
    by (simp add: heap_names_def add_one_job_heap kv)
  ultimately show ?case using Cons.IH [of ?s] Cons.prems(3) kv by auto
qed

text \<open>The devices a scheduler can be built from: named, with named and scheduled jobs.\<close>

definition schedulable :: "Device gomap \<Rightarrow> bool" where
  "schedulable ds \<longleftrightarrow>
     map_wf ds \<and>
     (\<forall>(n, d) \<in> set ds. dev_Name d = n \<and> map_wf (dev_Jobs d) \<and>
        (\<forall>(k, j) \<in> set (dev_Jobs d). job_Name j = k \<and> job_Schedule j \<noteq> None))"

definition device_names :: "rng \<Rightarrow> string \<times> Device \<Rightarrow> (string \<times> string) list" where
  "device_names r kv = map (\<lambda>k. (fst kv, fst k)) (go_range (at (fst kv) r) (dev_Jobs (snd kv)))"

lemma addDeviceJob_ok:
  assumes "tags_ok s" "scheduled s" "schedulable ds" "(n, d) \<in> set ds" "valid_rng r"
  shows "tags_ok (addDeviceJob r clk s (n, d)) \<and> scheduled (addDeviceJob r clk s (n, d)) \<and>
    heap_names (addDeviceJob r clk s (n, d)) = heap_names s @ device_names r (n, d)"
proof -
  let ?kvs = "go_range (at n r) (dev_Jobs d)"
  have d: "dev_Name d = n" "map_wf (dev_Jobs d)"
    "\<And>k j. (k, j) \<in> set (dev_Jobs d) \<Longrightarrow> job_Name j = k \<and> job_Schedule j \<noteq> None"
    using assms(3,4) by (auto simp: schedulable_def)
  have mem: "job_Name j = k \<and> job_Schedule j \<noteq> None" if "(k, j) \<in> set ?kvs" for k j
    using d(3) that map_of_SomeD go_range_sound by metis
  have "map (\<lambda>(k, j). (dev_Name d, job_Name j)) ?kvs = device_names r (n, d)"
    using mem d(1) by (auto simp: device_names_def)
  then show ?thesis
    using foldl_add_one_job [OF assms(1,2), of ?kvs clk d] mem by (simp add: addDeviceJob_def)
qed

lemma foldl_addDeviceJob:
  assumes "tags_ok s" "scheduled s" "schedulable ds" "set kvs \<subseteq> set ds" "valid_rng r"
  shows "tags_ok (foldl (addDeviceJob r clk) s kvs) \<and> scheduled (foldl (addDeviceJob r clk) s kvs) \<and>
    heap_names (foldl (addDeviceJob r clk) s kvs) = heap_names s @ concat (map (device_names r) kvs)"
  using assms(1,2,4)
proof (induction kvs arbitrary: s)
  case Nil
  then show ?case by simp
next
  case (Cons kv kvs)
  obtain n d where kv: "kv = (n, d)" by (cases kv)
  have "(n, d) \<in> set ds" using Cons.prems(3) kv by simp
  from addDeviceJob_ok [OF Cons.prems(1,2) assms(3) this assms(5)] Cons.IH Cons.prems(3) kv
  show ?case by auto
qed

lemma distinct_device_names:
  assumes "distinct (map fst kvs)" "\<And>n d. (n, d) \<in> set kvs \<Longrightarrow> map_wf (dev_Jobs d)" "valid_rng r"
  shows "distinct (concat (map (device_names r) kvs))"
  using assms(1,2)
proof (induction kvs)
  case Nil
  then show ?case by simp
next
  case (Cons kv kvs)
  obtain n d where kv: "kv = (n, d)" by (cases kv)
  have "distinct (map fst (go_range (at n r) (dev_Jobs d)))"
    by (rule go_range_distinct) (use assms(3) Cons.prems(2) kv in auto)
  then have "distinct (device_names r kv)"
    by (simp add: device_names_def kv distinct_map inj_on_def)
  moreover have "set (device_names r kv) \<inter> set (concat (map (device_names r) kvs)) = {}"
    using Cons.prems(1) by (auto simp: device_names_def kv image_iff)
  moreover have "distinct (concat (map (device_names r) kvs))"
    by (rule Cons.IH) (use Cons.prems in auto)
  ultimately show ?case by simp
qed

lemma NewLocalScheduler_ok:
  assumes "schedulable ds" "valid_rng r"
  shows "sched_ok (NewLocalScheduler r clk ds)"
proof -
  let ?s = "\<lparr>sl_heap = [], sl_byTag = [], sl_ticks = 0\<rparr>"
  have s: "tags_ok ?s" "scheduled ?s" "heap_names ?s = []"
    by (simp_all add: tags_ok_def scheduled_def jobs_of_tag_def heap_names_def)
  have sub: "set (go_range r ds) \<subseteq> set ds"
    by (rule go_range_subset)
  have "distinct (map fst (go_range r ds))"
    by (rule go_range_distinct) (use assms in \<open>auto simp: schedulable_def\<close>)
  then have "distinct (concat (map (device_names r) (go_range r ds)))"
    by (rule distinct_device_names) (use assms sub in \<open>auto simp: schedulable_def\<close>)
  with foldl_addDeviceJob [OF s(1,2) assms(1) sub assms(2), of clk] s(3)
  show ?thesis by (simp add: sched_ok_def NewLocalScheduler_def)
qed

text \<open>Every store that keeps the contract of the interface hands out schedulable devices.\<close>

context device_store_iface
begin

lemma store_schedulable: "store_ok st \<Longrightarrow> schedulable (all_devices st)"
proof -
  assume ok: "store_ok st"
  have "dev_Name d = n \<and> map_wf (dev_Jobs d) \<and>
      (\<forall>(k, j) \<in> set (dev_Jobs d). job_Name j = k \<and> job_Schedule j \<noteq> None)"
    if "(n, d) \<in> set (all_devices st)" for n d
  proof -
    have m: "map_of (all_devices st) n = Some d" using devices_distinct [OF ok] that by simp
    have wf: "jobs_wf lib (dev_Jobs d)" "dev_Name d = n"
      using devices_well_formed [OF ok m] by (simp_all add: Device_wf_def)
    have "job_Name j = k \<and> job_Schedule j \<noteq> None" if "(k, j) \<in> set (dev_Jobs d)" for k j
    proof -
      have "map_of (dev_Jobs d) k = Some j" using wf(1) that by (simp add: jobs_wf_def)
      then show ?thesis
        using device_jobs_scheduled [OF ok m] wf(1) by (fastforce simp: jobs_wf_iff)
    qed
    with wf show ?thesis by (auto simp: jobs_wf_def)
  qed
  then show ?thesis
    using devices_distinct [OF ok] unfolding schedulable_def by fast
qed

end

end
