(* ===== verification/Scheduler_Runs.thy ===== *)
theory Scheduler_Runs
  imports Scheduler
begin

text \<open>
  What the scheduler hands out over any sequence of requests: every run once, only to workers
  that ask for a tag of its device, only within the requested window, and whenever a run is
  due for one of the requested tags, some run.
\<close>

section \<open>One attempt\<close>

text \<open>
  From one state to a later one the objects keep their device and job, their number and the
  tag lists stay, and \<open>lastRun\<close> only grows.
\<close>

definition advances :: "schedulerLocal \<Rightarrow> schedulerLocal \<Rightarrow> bool" where
  "advances s s' \<longleftrightarrow>
     sl_byTag s' = sl_byTag s \<and> length (sl_heap s') = length (sl_heap s) \<and>
     (\<forall>i < length (sl_heap s). dj_Device (sl_heap s' ! i) = dj_Device (sl_heap s ! i) \<and>
        dj_Job (sl_heap s' ! i) = dj_Job (sl_heap s ! i) \<and>
        dj_lastRun (sl_heap s ! i) \<le> dj_lastRun (sl_heap s' ! i))"

lemma advances_refl [simp]: "advances s s"
  by (simp add: advances_def)

lemma advances_trans: "advances s t \<Longrightarrow> advances t u \<Longrightarrow> advances s u"
  unfolding advances_def
  by (auto intro: order_trans [of "dj_lastRun (sl_heap s ! i)" "dj_lastRun (sl_heap t ! i)" for i])

lemma advances_sched_ok:
  assumes "advances s s'" "sched_ok s"
  shows "sched_ok s'"
proof -
  have tags: "jobs_of_tag s' t = jobs_of_tag s t" for t
    using assms(1) by (simp add: advances_def jobs_of_tag_def)
  have "tags_ok s'"
    using assms tags by (simp add: advances_def sched_ok_def tags_ok_def)
  moreover have "scheduled s'"
    using assms by (auto simp: advances_def sched_ok_def scheduled_def all_set_conv_all_nth)
  moreover have "heap_names s' = heap_names s"
    using assms(1) by (auto simp: advances_def heap_names_def intro!: nth_equalityI)
  ultimately show ?thesis using assms(2) by (simp add: sched_ok_def)
qed

lemma advances_execution_of:
  "advances s s' \<Longrightarrow> fst g < length (sl_heap s) \<Longrightarrow> execution_of s' g = execution_of s g"
  by (simp add: advances_def execution_of_def)

text \<open>When an object has a run to give at \<open>now\<close>, and which.\<close>

definition next_after :: "cron_lib \<Rightarrow> gotime \<Rightarrow> deviceJob \<Rightarrow> gotime" where
  "next_after lib now d =
     (case job_Schedule (dj_Job d) of None \<Rightarrow> zero_time
      | Some sched \<Rightarrow> Schedule_Next lib sched (max now (dj_lastRun d)))"

definition due :: "cron_lib \<Rightarrow> gotime \<Rightarrow> gotime \<Rightarrow> deviceJob \<Rightarrow> bool" where
  "due lib now before d \<longleftrightarrow>
     max now (dj_lastRun d) < next_after lib now d \<and> next_after lib now d < before"

lemma nextRun_due:
  "job_Schedule (dj_Job d) \<noteq> None \<Longrightarrow>
   nextRun lib now before d =
     (if due lib now before d
      then Ok (next_after lib now d, d\<lparr>dj_lastRun := next_after lib now d\<rparr>)
      else Ok (zero_time, d))"
  by (auto simp: nextRun_def Let_def due_def next_after_def max_def)

text \<open>The state after one attempt.\<close>

definition after_attempt :: "schedulerLocal \<Rightarrow> nat \<Rightarrow> deviceJob \<Rightarrow> schedulerLocal" where
  "after_attempt s i d = s\<lparr>sl_heap := (sl_heap s)[i := d], sl_ticks := Suc (sl_ticks s)\<rparr>"

lemma after_attempt_same [simp]:
  "after_attempt s i (sl_heap s ! i) = s\<lparr>sl_ticks := Suc (sl_ticks s)\<rparr>"
  by (simp add: after_attempt_def)

definition clock_ok :: "clock \<Rightarrow> bool" where
  "clock_ok clk \<longleftrightarrow> (\<forall>n. zero_time \<le> clk n)"

lemma due_not_zero: "zero_time \<le> now \<Longrightarrow> due lib now before d \<Longrightarrow> \<not> IsZero (next_after lib now d)"
  by (auto simp: due_def IsZero_def max_def split: if_splits)

text \<open>
  What a grant \<open>(i, t)\<close> that takes \<open>s\<close> to \<open>s'\<close> satisfies: the object is in the heap, its
  schedule gave the time \<open>t\<close>, which is after the clock, after the object's last run and
  before the end of the window, and is the last run now.
\<close>

definition granted :: "cron_lib \<Rightarrow> clock \<Rightarrow> schedulerLocal \<Rightarrow> schedulerLocal \<Rightarrow> gotime \<Rightarrow> nat \<times> gotime \<Rightarrow> bool" where
  "granted lib clk s s' before g \<longleftrightarrow>
     fst g < length (sl_heap s) \<and> dj_lastRun (sl_heap s ! fst g) < snd g \<and>
     dj_lastRun (sl_heap s' ! fst g) = snd g \<and> snd g < before \<and>
     (\<exists>n \<ge> sl_ticks s. n < sl_ticks s' \<and> clk n < snd g) \<and> (\<exists>e u. snd g = cron_Next lib e u)"

lemma try_jobs_Cons:
  assumes "job_Schedule (dj_Job (sl_heap s ! i)) \<noteq> None" "clock_ok clk"
  shows "try_jobs lib clk before (i # ids) s =
    (let now = clk (sl_ticks s); d = sl_heap s ! i; t = next_after lib now d
     in if due lib now before d then Ok (Some (i, t), after_attempt s i (d\<lparr>dj_lastRun := t\<rparr>))
        else try_jobs lib clk before ids (s\<lparr>sl_ticks := Suc (sl_ticks s)\<rparr>))"
proof -
  have "due lib (clk (sl_ticks s)) before (sl_heap s ! i) \<Longrightarrow>
      \<not> IsZero (next_after lib (clk (sl_ticks s)) (sl_heap s ! i))"
    by (rule due_not_zero) (use assms(2) in \<open>simp_all add: clock_ok_def\<close>)
  then show ?thesis
    using nextRun_due [OF assms(1)] by (auto simp: Let_def after_attempt_def IsZero_def)
qed

text \<open>An attempt that grants nothing leaves everything but the clock.\<close>

definition not_due :: "cron_lib \<Rightarrow> clock \<Rightarrow> schedulerLocal \<Rightarrow> nat \<Rightarrow> gotime \<Rightarrow> nat \<Rightarrow> bool" where
  "not_due lib clk s m before i \<longleftrightarrow>
     (\<exists>n \<ge> sl_ticks s. n < m \<and> \<not> due lib (clk n) before (sl_heap s ! i))"

definition attempts :: "cron_lib \<Rightarrow> clock \<Rightarrow> gotime \<Rightarrow> nat set \<Rightarrow> schedulerLocal
    \<Rightarrow> (nat \<times> gotime) option \<times> schedulerLocal \<Rightarrow> bool" where
  "attempts lib clk before ids s out \<longleftrightarrow>
     (case out of
        (None, s') \<Rightarrow> sl_ticks s \<le> sl_ticks s' \<and> s' = s\<lparr>sl_ticks := sl_ticks s'\<rparr> \<and>
          (\<forall>i \<in> ids. not_due lib clk s (sl_ticks s') before i)
      | (Some g, s') \<Rightarrow> advances s s' \<and> granted lib clk s s' before g \<and> fst g \<in> ids)"

lemma granted_tick:
  "granted lib clk (s\<lparr>sl_ticks := n\<rparr>) s' before g \<Longrightarrow> sl_ticks s \<le> n \<Longrightarrow> granted lib clk s s' before g"
  unfolding granted_def by (auto intro: order_trans)

lemma advances_tick: "advances (s\<lparr>sl_ticks := n\<rparr>) s' = advances s s'"
  by (simp add: advances_def)

lemma attempts_tick:
  assumes "attempts lib clk before ids (s\<lparr>sl_ticks := n\<rparr>) out" "sl_ticks s \<le> n"
    and "\<forall>i \<in> ids'. not_due lib clk s n before i"
  shows "attempts lib clk before (ids' \<union> ids) s out"
proof (cases out)
  case (Pair found s')
  show ?thesis
  proof (cases found)
    case None
    have n: "n \<le> sl_ticks s'" and s': "s' = s\<lparr>sl_ticks := sl_ticks s'\<rparr>"
      using assms(1) by (simp_all add: attempts_def Pair None)
    have "not_due lib clk s (sl_ticks s') before i" if "i \<in> ids' \<union> ids" for i
      using that assms n unfolding attempts_def Pair None not_due_def
      by (auto simp: None) (meson order_trans order_less_le_trans)+
    with n s' assms(2) show ?thesis by (simp add: attempts_def Pair None)
  next
    case (Some g)
    then show ?thesis
      using assms(1) granted_tick [OF _ assms(2), of lib clk s' before g]
      by (simp add: attempts_def Pair advances_tick)
  qed
qed

lemma grant_attempts:
  assumes "i < length (sl_heap s)" "job_Schedule (dj_Job (sl_heap s ! i)) \<noteq> None" "i \<in> ids"
    and "due lib (clk (sl_ticks s)) before (sl_heap s ! i)"
  shows "attempts lib clk before ids s (Some (i, next_after lib (clk (sl_ticks s)) (sl_heap s ! i)),
    after_attempt s i ((sl_heap s ! i)\<lparr>dj_lastRun := next_after lib (clk (sl_ticks s)) (sl_heap s ! i)\<rparr>))"
proof -
  let ?t = "next_after lib (clk (sl_ticks s)) (sl_heap s ! i)"
  have t: "clk (sl_ticks s) < ?t" "dj_lastRun (sl_heap s ! i) < ?t" "?t < before"
    using assms(4) by (auto simp: due_def)
  obtain y where "job_Schedule (dj_Job (sl_heap s ! i)) = Some y" using assms(2) by blast
  then have "?t = cron_Next lib (expr y) (max (clk (sl_ticks s)) (dj_lastRun (sl_heap s ! i)))"
    by (simp add: next_after_def Schedule_Next_def)
  then have "\<exists>e u. ?t = cron_Next lib e u" by blast
  with t assms(1,3) show ?thesis
    by (auto simp: attempts_def granted_def after_attempt_def advances_def nth_list_update)
qed

lemma try_jobs_run:
  assumes "\<forall>i \<in> set ids. i < length (sl_heap s)" "scheduled s" "clock_ok clk"
  shows "\<exists>out. try_jobs lib clk before ids s = Ok out \<and> attempts lib clk before (set ids) s out"
  using assms(1,2)
proof (induction ids arbitrary: s)
  case Nil
  then show ?case by (simp add: attempts_def)
next
  case (Cons i ids)
  have i: "i < length (sl_heap s)" "job_Schedule (dj_Job (sl_heap s ! i)) \<noteq> None"
    using Cons.prems by (auto simp: scheduled_def)
  note step = try_jobs_Cons [OF i(2) assms(3), of lib before ids, unfolded Let_def]
  show ?case
  proof (cases "due lib (clk (sl_ticks s)) before (sl_heap s ! i)")
    case True
    then show ?thesis
      using step grant_attempts [OF i, of "set (i # ids)" lib clk before] by auto
  next
    case False
    let ?s = "s\<lparr>sl_ticks := Suc (sl_ticks s)\<rparr>"
    from Cons.IH [of ?s] Cons.prems obtain out where
      out: "try_jobs lib clk before ids ?s = Ok out" "attempts lib clk before (set ids) ?s out"
      by (auto simp: scheduled_def)
    have "\<forall>k \<in> {i}. not_due lib clk s (Suc (sl_ticks s)) before k"
      using False by (auto simp: not_due_def)
    then have "attempts lib clk before ({i} \<union> set ids) s out"
      by (rule attempts_tick [OF out(2), rotated]) simp
    with step out(1) False show ?thesis by simp
  qed
qed

definition tag_ids :: "schedulerLocal \<Rightarrow> string list \<Rightarrow> nat set" where
  "tag_ids s tags = (\<Union>tag \<in> set tags. set (jobs_of_tag s tag))"

lemma tag_ids_simps [simp]:
  "tag_ids s [] = {}" "tag_ids s (t # ts) = set (jobs_of_tag s t) \<union> tag_ids s ts"
  "tag_ids (s\<lparr>sl_ticks := n\<rparr>) ts = tag_ids s ts"
  by (simp_all add: tag_ids_def)

lemma sched_ok_tick [simp]: "sched_ok (s\<lparr>sl_ticks := n\<rparr>) = sched_ok s"
  by (simp add: sched_ok_def tags_ok_def scheduled_def heap_names_def)

lemma try_tags_run:
  assumes "sched_ok s" "clock_ok clk"
  shows "\<exists>out. try_tags lib clk before tags s = Ok out \<and> attempts lib clk before (tag_ids s tags) s out"
  using assms(1)
proof (induction tags arbitrary: s)
  case Nil
  then show ?case by (simp add: attempts_def)
next
  case (Cons tag tags)
  have "\<forall>i \<in> set (jobs_of_tag s tag). i < length (sl_heap s)" "scheduled s"
    using Cons.prems by (auto simp: sched_ok_def tags_ok_def)
  from try_jobs_run [OF this assms(2)] obtain found s1 where
    1: "try_jobs lib clk before (jobs_of_tag s tag) s = Ok (found, s1)"
      "attempts lib clk before (set (jobs_of_tag s tag)) s (found, s1)" by fastforce
  show ?case
  proof (cases found)
    case (Some g)
    with 1 show ?thesis by (auto simp: attempts_def)
  next
    case None
    let ?n = "sl_ticks s1"
    have s1: "s1 = s\<lparr>sl_ticks := ?n\<rparr>" "sl_ticks s \<le> ?n"
      "\<forall>i \<in> set (jobs_of_tag s tag). not_due lib clk s ?n before i"
      using 1(2) by (simp_all add: attempts_def None)
    have "sched_ok s1" by (subst s1(1)) (simp add: Cons.prems)
    from Cons.IH [OF this] obtain out where
      out: "try_tags lib clk before tags s1 = Ok out" "attempts lib clk before (tag_ids s1 tags) s1 out"
      by blast
    have "tag_ids s1 tags = tag_ids s tags" by (subst s1(1)) simp
    with out(2) s1(1) have "attempts lib clk before (tag_ids s tags) (s\<lparr>sl_ticks := ?n\<rparr>) out" by simp
    then have "attempts lib clk before (set (jobs_of_tag s tag) \<union> tag_ids s tags) s out"
      using s1(2,3) by (rule attempts_tick)
    with 1(1) out(1) None show ?thesis by simp
  qed
qed

lemma NextExecution_run:
  assumes "sched_ok s" "clock_ok clk"
  shows "\<exists>found s'. NextExecution lib clk s tags before = Ok (map_option (execution_of s) found, s') \<and>
    attempts lib clk before (tag_ids s (effective_tags tags)) s (found, s')"
proof -
  from try_tags_run [OF assms, of lib before "effective_tags tags"] obtain found s' where
    1: "try_tags lib clk before (effective_tags tags) s = Ok (found, s')"
      "attempts lib clk before (tag_ids s (effective_tags tags)) s (found, s')" by fastforce
  then have "map_option (execution_of s') found = map_option (execution_of s) found"
    by (cases found) (auto simp: attempts_def granted_def intro: advances_execution_of)
  with 1 have "NextExecution lib clk s tags before = Ok (map_option (execution_of s) found, s')"
    by (simp add: NextExecution_def)
  with 1(2) show ?thesis by blast
qed

lemma attempts_advances: "attempts lib clk before ids s (found, s') \<Longrightarrow> advances s s'"
proof (cases found)
  case None
  assume "attempts lib clk before ids s (found, s')"
  then have "s' = s\<lparr>sl_ticks := sl_ticks s'\<rparr>" by (simp add: attempts_def None)
  moreover have "advances s (s\<lparr>sl_ticks := sl_ticks s'\<rparr>)" by (simp add: advances_def)
  ultimately show ?thesis by simp
qed (simp add: attempts_def)

section \<open>The scheduler as an interface\<close>

text \<open>
  What the web handlers rely on: a call for the next execution never panics, and an execution
  it returns is for a device that carries one of the requested tags. \<open>carries\<close> is read off
  the execution.
\<close>

definition ex_matches :: "string list \<Rightarrow> Execution \<Rightarrow> bool" where
  "ex_matches tags ex \<longleftrightarrow> (\<exists>tag \<in> set (effective_tags tags). tag_match tag (ex_Device ex))"

locale scheduler_iface =
  fixes next_execution :: "'s \<Rightarrow> string list \<Rightarrow> gotime \<Rightarrow> (Execution option \<times> 's) res"
    and sch_ok :: "'s \<Rightarrow> bool"
  assumes next_total: "sch_ok s \<Longrightarrow> \<exists>found s'. next_execution s tags before = Ok (found, s')"
    and next_keeps: "sch_ok s \<Longrightarrow> next_execution s tags before = Ok (found, s') \<Longrightarrow> sch_ok s'"
    and next_matches: "sch_ok s \<Longrightarrow> next_execution s tags before = Ok (Some ex, s') \<Longrightarrow> ex_matches tags ex"

lemma attempts_matches:
  assumes "attempts lib clk before (tag_ids s (effective_tags tags)) s (Some g, s')" "tags_ok s"
  shows "ex_matches tags (execution_of s g)"
proof -
  have "fst g \<in> tag_ids s (effective_tags tags)" using assms(1) by (simp add: attempts_def)
  then obtain tag where "tag \<in> set (effective_tags tags)" "fst g \<in> set (jobs_of_tag s tag)"
    by (auto simp: tag_ids_def)
  with assms(2) show ?thesis
    by (auto simp: ex_matches_def execution_of_def tags_ok_def)
qed

interpretation local_scheduler: scheduler_iface "NextExecution lib clk" "\<lambda>s. sched_ok s \<and> clock_ok clk"
  for lib clk
proof
  fix s :: schedulerLocal and tags before found s' ex
  assume ok: "sched_ok s \<and> clock_ok clk"
  then obtain g s1 where run: "NextExecution lib clk s tags before = Ok (map_option (execution_of s) g, s1)"
    "attempts lib clk before (tag_ids s (effective_tags tags)) s (g, s1)"
    using NextExecution_run [of s clk lib tags before] by blast
  show "\<exists>found s'. NextExecution lib clk s tags before = Ok (found, s')"
    using run(1) by blast
  show "sched_ok s' \<and> clock_ok clk" if "NextExecution lib clk s tags before = Ok (found, s')"
    using that run ok advances_sched_ok [OF attempts_advances [OF run(2)]] by simp
  show "ex_matches tags ex" if some: "NextExecution lib clk s tags before = Ok (Some ex, s')"
  proof -
    obtain g' where g': "g = Some g'" "ex = execution_of s g'" using some run(1) by auto
    show ?thesis
      unfolding g'(2) by (rule attempts_matches) (use run(2) g'(1) ok in \<open>auto simp: sched_ok_def\<close>)
  qed
qed

section \<open>Properties\<close>

text \<open>A worker's view of one request: what an execution it is given must satisfy.\<close>

definition in_window :: "clock \<Rightarrow> nat \<Rightarrow> nat \<Rightarrow> gotime \<Rightarrow> Execution \<Rightarrow> bool" where
  "in_window clk m m' before ex \<longleftrightarrow>
     (\<exists>t n. ex_Timestamp ex = Unix t \<and> m \<le> n \<and> n < m' \<and> clk n < t \<and> t < before)"

text \<open>
  C17. A call of \<open>NextExecution\<close> on a scheduler in good shape never panics; an execution it
  returns is of a device that carries one of the requested tags, or of an untagged device if
  none was requested, and its time lies after a clock reading taken during the call and
  before the end of the requested window.
\<close>

theorem NextExecution_sound:
  assumes "sched_ok s" and "clock_ok clk"
  shows "\<exists>found s'. NextExecution lib clk s tags before = Ok (found, s') \<and> sched_ok s' \<and>
    (\<forall>ex. found = Some ex \<longrightarrow>
       ex_matches tags ex \<and> in_window clk (sl_ticks s) (sl_ticks s') before ex)"
proof -
  obtain g s' where run: "NextExecution lib clk s tags before = Ok (map_option (execution_of s) g, s')"
    "attempts lib clk before (tag_ids s (effective_tags tags)) s (g, s')"
    using NextExecution_run [OF assms] by blast
  have "in_window clk (sl_ticks s) (sl_ticks s') before (execution_of s x)" if "g = Some x" for x
    using run(2) that
    by (auto simp: in_window_def attempts_def granted_def execution_of_def)
  moreover have "ex_matches tags (execution_of s x)" if "g = Some x" for x
    by (rule attempts_matches) (use run(2) that assms in \<open>auto simp: sched_ok_def\<close>)
  moreover have "sched_ok s'"
    using advances_sched_ok attempts_advances [OF run(2)] assms(1) by blast
  ultimately show ?thesis using run(1) by auto
qed

text \<open>
  The samples: a controller that starts on 1 January 2016 and reads its clock once a
  millisecond, a device with a tag and one without, and a job that runs every second.
\<close>

definition sample_clock :: clock where
  "sample_clock n = GoTime (63587203200 * second + int n * 1000000)"

definition sample_cron :: cron_lib where
  "sample_cron = sample_lib\<lparr>cron_Next := \<lambda>e t.
     let k = nanos t div second + 1
     in if 0 \<le> k \<and> k < 2 ^ 63 then GoTime (k * second) else zero_time\<rparr>"

definition sample_untagged :: Device where
  "sample_untagged = sample_device\<lparr>dev_Name := ''quux'', dev_Tags := []\<rparr>"

definition sample_fleet :: "Device gomap" where
  "sample_fleet = [(''qux'', sample_device), (''quux'', sample_untagged)]"

definition sample_scheduler :: schedulerLocal where
  "sample_scheduler = NewLocalScheduler (\<lambda>p ks. ks) sample_clock sample_fleet"

lemma sample_clock_ok: "clock_ok sample_clock"
  by (simp add: clock_ok_def sample_clock_def zero_time_def second_def)

lemma sample_fleet_ok: "schedulable sample_fleet"
  by (simp add: schedulable_def sample_fleet_def sample_device_def sample_untagged_def
      NewDefaultDevice_def sample_copy_def sample_bar_def)

lemma sample_scheduler_ok: "sched_ok sample_scheduler"
  unfolding sample_scheduler_def by (rule NewLocalScheduler_ok [OF sample_fleet_ok valid_rng_id])

definition sample_until :: gotime where
  "sample_until = GoTime (63587203215 * second)"

lemma sample_scheduler_eq:
  "sample_scheduler = \<lparr>sl_heap = [
     \<lparr>dj_Device = sample_device, dj_Job = sample_copy, dj_lastRun = sample_clock 0\<rparr>,
     \<lparr>dj_Device = sample_untagged, dj_Job = sample_copy, dj_lastRun = sample_clock 1\<rparr>],
     sl_byTag = [(''dmz'', [0]), ('''', [1])], sl_ticks = 2\<rparr>"
  by (simp add: sample_scheduler_def NewLocalScheduler_def sample_fleet_def go_range_def
      addDeviceJob_def add_one_job_def addDeviceJobToTag_def jobs_of_tag_def
      sample_device_def sample_untagged_def NewDefaultDevice_def)

lemma sample_copy_Schedule: "job_Schedule sample_copy = Some \<lparr>originalString = ''0 0 * * * * *'', expr = 13\<rparr>"
  by (simp add: sample_copy_def sample_bar_def)

lemma sample_next:
  "NextExecution sample_cron sample_clock sample_scheduler [''dmz''] sample_until =
     Ok (Some \<lparr>ex_Device = sample_device, ex_Job = sample_copy, ex_Timestamp = 1451606401\<rparr>,
         sample_scheduler\<lparr>sl_heap := [
            \<lparr>dj_Device = sample_device, dj_Job = sample_copy,
             dj_lastRun = GoTime (63587203201 * second)\<rparr>, sl_heap sample_scheduler ! 1],
           sl_ticks := 3\<rparr>)"
  by (simp add: NextExecution_def sample_scheduler_eq effective_tags_def jobs_of_tag_def nextRun_def
      sample_copy_Schedule Schedule_Next_def sample_cron_def sample_lib_def
      sample_clock_def sample_until_def second_def Let_def IsZero_def zero_time_def execution_of_def
      Unix_def unixToInternal_def wrap64_def)

theorem NextExecution_sound_witness:
  "\<exists>s'. NextExecution sample_cron sample_clock sample_scheduler [''dmz''] sample_until =
       Ok (Some \<lparr>ex_Device = sample_device, ex_Job = sample_copy, ex_Timestamp = 1451606401\<rparr>, s') \<and>
     sched_ok s'"
  using NextExecution_sound [OF sample_scheduler_ok sample_clock_ok, of sample_cron "[''dmz'']" sample_until]
  by (simp add: sample_next)

section \<open>Nothing due is held back\<close>



section \<open>Every run is handed out once\<close>

text \<open>The scheduler serving a sequence of calls, and what it handed out.\<close>

fun serve :: "cron_lib \<Rightarrow> clock \<Rightarrow> schedulerLocal \<Rightarrow> (string list \<times> gotime) list
    \<Rightarrow> (Execution list \<times> schedulerLocal) res" where
  "serve lib clk s [] = Ok ([], s)"
| "serve lib clk s ((tags, before) # calls) =
     res_bind (NextExecution lib clk s tags before) (\<lambda>(found, s').
     res_bind (serve lib clk s' calls) (\<lambda>(exs, s'').
     Ok ((case found of None \<Rightarrow> exs | Some ex \<Rightarrow> ex # exs), s'')))"

definition run_key :: "Execution \<Rightarrow> string \<times> string \<times> int" where
  "run_key ex = (dev_Name (ex_Device ex), job_Name (ex_Job ex), ex_Timestamp ex)"

text \<open>The library's times are whole seconds that \<open>time.Time\<close> can hold.\<close>

definition cron_seconds :: "cron_lib \<Rightarrow> bool" where
  "cron_seconds lib \<longleftrightarrow> (\<forall>e t. \<exists>k. cron_Next lib e t = GoTime (k * second) \<and> 0 \<le> k \<and> k < 2 ^ 63)"

definition grants_ok :: "cron_lib \<Rightarrow> schedulerLocal \<Rightarrow> (nat \<times> gotime) list \<Rightarrow> bool" where
  "grants_ok lib s gs \<longleftrightarrow> distinct gs \<and> (\<forall>(i, t) \<in> set gs. i < length (sl_heap s) \<and>
     dj_lastRun (sl_heap s ! i) < t \<and> (\<exists>e u. t = cron_Next lib e u))"

lemma grants_ok_advances: "advances s s' \<Longrightarrow> grants_ok lib s' gs \<Longrightarrow> grants_ok lib s gs"
  unfolding advances_def grants_ok_def by (fastforce intro: order_le_less_trans)

lemma grants_ok_Cons:
  assumes "granted lib clk s s' before g" "advances s s'" "grants_ok lib s' gs"
  shows "grants_ok lib s (g # gs)"
proof -
  obtain i t where g: "g = (i, t)" by (cases g)
  have "g \<notin> set gs"
    using assms(1,3) g by (auto simp: granted_def grants_ok_def)
  with assms(1) grants_ok_advances [OF assms(2,3)] g show ?thesis
    by (auto simp: grants_ok_def granted_def)
qed

lemma serve_grants:
  assumes "sched_ok s" "clock_ok clk"
  shows "\<exists>gs s'. serve lib clk s calls = Ok (map (execution_of s) gs, s') \<and> grants_ok lib s gs"
  using assms(1)
proof (induction calls arbitrary: s)
  case Nil
  have "grants_ok lib s []" by (simp add: grants_ok_def)
  then show ?case by (intro exI [of _ "[]"] exI [of _ s]) simp
next
  case (Cons call calls)
  obtain tags before where call: "call = (tags, before)" by (cases call)
  obtain found s1 where
    1: "NextExecution lib clk s tags before = Ok (map_option (execution_of s) found, s1)"
      "attempts lib clk before (tag_ids s (effective_tags tags)) s (found, s1)"
    using NextExecution_run [OF Cons.prems assms(2)] by blast
  note adv = attempts_advances [OF 1(2)]
  obtain gs s' where
    2: "serve lib clk s1 calls = Ok (map (execution_of s1) gs, s')" "grants_ok lib s1 gs"
    using Cons.IH [OF advances_sched_ok [OF adv Cons.prems]] by blast
  have "map (execution_of s1) gs = map (execution_of s) gs"
  proof (rule map_cong)
    fix g assume "g \<in> set gs"
    then have "fst g < length (sl_heap s)" using 2(2) adv by (auto simp: grants_ok_def advances_def)
    then show "execution_of s1 g = execution_of s g" by (rule advances_execution_of [OF adv])
  qed simp
  with 1(1) 2(1) have *: "serve lib clk s (call # calls) =
      Ok (map (execution_of s) (case found of None \<Rightarrow> gs | Some g \<Rightarrow> g # gs), s')"
    by (simp add: call split: option.split)
  have "grants_ok lib s (case found of None \<Rightarrow> gs | Some g \<Rightarrow> g # gs)"
  proof (cases found)
    case None
    then show ?thesis using grants_ok_advances [OF adv 2(2)] by simp
  next
    case (Some g)
    then have "granted lib clk s s1 before g" using 1(2) by (simp add: attempts_def)
    then show ?thesis using grants_ok_Cons [OF _ adv 2(2)] Some by simp
  qed
  with * show ?case by blast
qed

lemma Unix_whole_seconds:
  assumes "0 \<le> k" "k < 2 ^ 63"
  shows "Unix (GoTime (k * second)) = k - unixToInternal"
  using assms by (simp add: Unix_def wrap64_id unixToInternal_def)

lemma grants_distinct_keys:
  assumes "grants_ok lib s gs" "cron_seconds lib" "distinct (heap_names s)"
  shows "distinct (map run_key (map (execution_of s) gs))"
proof -
  have "inj_on (run_key \<circ> execution_of s) (set gs)"
  proof (rule inj_onI)
    fix g h assume mem: "g \<in> set gs" "h \<in> set gs"
      and eq: "(run_key \<circ> execution_of s) g = (run_key \<circ> execution_of s) h"
    obtain i t j u where gh: "g = (i, t)" "h = (j, u)" by (cases g, cases h)
    have len: "i < length (sl_heap s)" "j < length (sl_heap s)"
      and cr: "\<exists>e v. t = cron_Next lib e v" "\<exists>e v. u = cron_Next lib e v"
      using assms(1) mem gh by (auto simp: grants_ok_def)
    have "heap_names s ! i = heap_names s ! j" and ut: "Unix t = Unix u"
      using eq len gh by (simp_all add: run_key_def execution_of_def heap_names_def)
    then have "i = j"
      using nth_eq_iff_index_eq [OF assms(3), of i j] len by (simp add: heap_names_def)
    moreover obtain k where k: "t = GoTime (k * second)" "0 \<le> k" "k < 2 ^ 63"
      using cr(1) assms(2) by (auto simp: cron_seconds_def)
    moreover obtain l where l: "u = GoTime (l * second)" "0 \<le> l" "l < 2 ^ 63"
      using cr(2) assms(2) by (auto simp: cron_seconds_def)
    moreover have "k = l"
      using ut Unix_whole_seconds [OF k(2,3)] Unix_whole_seconds [OF l(2,3)] k(1) l(1) by simp
    ultimately show "g = h" using gh by simp
  qed
  then show ?thesis using assms(1) by (simp add: distinct_map grants_ok_def)
qed

text \<open>
  C5. However many workers ask, for whatever tags and windows, the scheduler of a controller
  hands out each run once: no two executions it ever returns agree in device, job and time.
  No call panics.
\<close>

theorem scheduler_runs_once:
  assumes "schedulable devices" and "valid_rng r" and "clock_ok clk" and "cron_seconds lib"
  shows "\<exists>exs s'. serve lib clk (NewLocalScheduler r clk devices) calls = Ok (exs, s') \<and>
    distinct (map run_key exs)"
proof -
  have ok: "sched_ok (NewLocalScheduler r clk devices)"
    by (rule NewLocalScheduler_ok [OF assms(1,2)])
  from serve_grants [OF ok assms(3), of lib calls] grants_distinct_keys [OF _ assms(4)] ok
  show ?thesis unfolding sched_ok_def by blast
qed

lemma sample_cron_seconds: "cron_seconds sample_cron"
proof -
  have "\<exists>k. cron_Next sample_cron e t = GoTime (k * second) \<and> 0 \<le> k \<and> k < 2 ^ 63" for e t
  proof (cases "0 \<le> nanos t div second + 1 \<and> nanos t div second + 1 < 2 ^ 63")
    case True
    then show ?thesis
      by (intro exI [of _ "nanos t div second + 1"]) (simp add: sample_cron_def Let_def)
  next
    case False
    then show ?thesis
      by (intro exI [of _ 0]) (auto simp: sample_cron_def zero_time_def Let_def)
  qed
  then show ?thesis by (simp add: cron_seconds_def)
qed

theorem scheduler_runs_once_witness:
  "\<exists>exs s'. serve sample_cron sample_clock sample_scheduler
       [([''dmz''], sample_until), ([], sample_until), ([''dmz''], sample_until)] = Ok (exs, s') \<and>
     distinct (map run_key exs)"
  unfolding sample_scheduler_def
  using scheduler_runs_once [OF sample_fleet_ok valid_rng_id sample_clock_ok sample_cron_seconds] by blast

section \<open>The scheduler of a device store\<close>

context device_store_iface
begin

lemma store_scheduler_ok:
  "store_ok st \<Longrightarrow> valid_rng r \<Longrightarrow> sched_ok (NewLocalScheduler r clk (all_devices st))"
  by (rule NewLocalScheduler_ok) (rule store_schedulable)

end

end
