(* ===== verification/Data_Store.thy ===== *)
theory Data_Store
  imports Go_Strings
begin

text \<open>
  The queue of the git data store (controller/data_store.go). Results wait in \<open>pendingWrites\<close>
  until a pool worker takes all of them (\<open>nextJobs\<close>); while a worker writes results of a
  device's job, \<open>runningWriteIds\<close> has an entry under their key, and results that arrive for
  the key go to \<open>waitingOnRunningWrites\<close>, from where \<open>markJobsCompleted\<close> moves them to
  \<open>pendingWrites\<close>. This theory has the operations, each of which runs under \<open>writesLock\<close>; the
  goroutines that call them are in Data_Store_Conc. File contents are strings.
\<close>

record DataStoreJob =
  dsj_DeviceName :: string
  dsj_JobName :: string
  dsj_JobTime :: gotime
  dsj_StartTime :: gotime
  dsj_EndTime :: gotime
  dsj_Failure :: string
  dsj_Contents :: string

definition jobKeySplit :: string where
  "jobKeySplit = [CHR 0x07]"

definition key :: "DataStoreJob \<Rightarrow> string" where
  "key d = dsj_DeviceName d @ jobKeySplit @ dsj_JobName d"

definition id_of :: "DataStoreJob \<Rightarrow> string" where
  "id_of d = key d @ jobKeySplit @ Itoa (Unix (dsj_JobTime d))"

record gitDataStore =
  gds_pendingWrites :: "DataStoreJob list gomap"
  gds_runningWriteIds :: "bool gomap gomap"
  gds_waitingOnRunningWrites :: "DataStoreJob list gomap"

definition empty_store :: gitDataStore where
  "empty_store = \<lparr>gds_pendingWrites = [], gds_runningWriteIds = [], gds_waitingOnRunningWrites = []\<rparr>"

section \<open>Operations\<close>

definition append_at :: "string \<Rightarrow> DataStoreJob \<Rightarrow> DataStoreJob list gomap \<Rightarrow> DataStoreJob list gomap" where
  "append_at k job m =
     (case map_of m k of Some existing \<Rightarrow> map_put k (existing @ [job]) m
      | None \<Rightarrow> map_put k [job] m)"

text \<open>The critical section of \<open>Store\<close>; the send on the channel that follows it is in Data_Store_Conc.\<close>

definition Store_job :: "gitDataStore \<Rightarrow> DataStoreJob \<Rightarrow> gitDataStore" where
  "Store_job g job =
     (case map_of (gds_runningWriteIds g) (key job) of
        Some _ \<Rightarrow> g\<lparr>gds_waitingOnRunningWrites := append_at (key job) job (gds_waitingOnRunningWrites g)\<rparr>
      | None \<Rightarrow> g\<lparr>gds_pendingWrites := append_at (key job) job (gds_pendingWrites g)\<rparr>)"

text \<open>One round of the loop of \<open>nextJobs\<close>: the jobs so far and \<open>runningWriteIds\<close>.\<close>

definition take_key :: "DataStoreJob list \<times> bool gomap gomap \<Rightarrow> string \<times> DataStoreJob list
    \<Rightarrow> DataStoreJob list \<times> bool gomap gomap" where
  "take_key acc kv =
     (let writeIdMap = (case map_of (snd acc) (fst kv) of None \<Rightarrow> [] | Some m \<Rightarrow> m);
          writeIdMap = foldl (\<lambda>m job. map_put (id_of job) True m) writeIdMap (snd kv)
      in (fst acc @ snd kv, map_put (fst kv) writeIdMap (snd acc)))"

definition nextJobs :: "rng \<Rightarrow> gitDataStore \<Rightarrow> DataStoreJob list \<times> gitDataStore" where
  "nextJobs r g =
     (if length (gds_pendingWrites g) = 0 then ([], g)
      else let (jobs, running) = foldl take_key ([], gds_runningWriteIds g)
                 (go_range r (gds_pendingWrites g))
           in (jobs, g\<lparr>gds_runningWriteIds := running, gds_pendingWrites := []\<rparr>))"

definition unmark :: "bool gomap gomap \<Rightarrow> DataStoreJob \<Rightarrow> bool gomap gomap" where
  "unmark running job =
     (case map_of running (key job) of
        None \<Rightarrow> running
      | Some writeIdMap \<Rightarrow>
          (case map_of writeIdMap (id_of job) of
             None \<Rightarrow> running
           | Some _ \<Rightarrow>
               if length writeIdMap = 1 then map_del (key job) running
               else map_put (key job) (map_del (id_of job) writeIdMap) running))"

definition waiting_at :: "gitDataStore \<Rightarrow> string \<Rightarrow> DataStoreJob list" where
  "waiting_at g k = (case map_of (gds_waitingOnRunningWrites g) k of None \<Rightarrow> [] | Some js \<Rightarrow> js)"

text \<open>
  One round of the loop of \<open>markJobsCompleted\<close>, with the flag \<open>anythingEnqueued\<close>. The entry of
  the waiting map is read and stays.
\<close>

definition mark_one :: "gitDataStore \<times> bool \<Rightarrow> DataStoreJob \<Rightarrow> gitDataStore \<times> bool" where
  "mark_one acc job =
     (let g = fst acc; waiting = waiting_at g (key job)
      in (g\<lparr>gds_runningWriteIds := unmark (gds_runningWriteIds g) job,
            gds_pendingWrites := foldl (\<lambda>m p. append_at (key job) p m) (gds_pendingWrites g) waiting\<rparr>,
          snd acc \<or> waiting \<noteq> []))"

definition markJobsCompleted :: "gitDataStore \<Rightarrow> DataStoreJob list \<Rightarrow> gitDataStore \<times> bool" where
  "markJobsCompleted g jobs = foldl mark_one (g, False) jobs"

section \<open>Keys\<close>

lemma split_at_first:
  assumes "a @ c # x = b @ c # y" "c \<notin> set a" "c \<notin> set b"
  shows "a = b \<and> x = y"
  using assms
proof (induction a arbitrary: b)
  case Nil
  then show ?case by (cases b) auto
next
  case (Cons d a)
  then show ?case by (cases b) auto
qed

lemma key_inj:
  assumes "key d = key e" "CHR 0x07 \<notin> set (dsj_DeviceName d)" "CHR 0x07 \<notin> set (dsj_DeviceName e)"
  shows "dsj_DeviceName d = dsj_DeviceName e \<and> dsj_JobName d = dsj_JobName e"
  using split_at_first [of "dsj_DeviceName d" "CHR 0x07" "dsj_JobName d" "dsj_DeviceName e"] assms
  by (simp add: key_def jobKeySplit_def)

section \<open>The lists under a key\<close>

definition list_at :: "DataStoreJob list gomap \<Rightarrow> string \<Rightarrow> DataStoreJob list" where
  "list_at m k = (case map_of m k of None \<Rightarrow> [] | Some js \<Rightarrow> js)"

lemma list_at_append: "list_at (append_at k job m) k' = list_at m k' @ (if k' = k then [job] else [])"
  by (simp add: list_at_def append_at_def update_conv' split: option.split)

lemma list_at_append_all:
  "list_at (foldl (\<lambda>m p. append_at k p m) m ps) k' = list_at m k' @ (if k' = k then ps else [])"
  by (induction ps arbitrary: m) (simp_all add: list_at_append)

lemma waiting_at_list_at: "waiting_at g k = list_at (gds_waitingOnRunningWrites g) k"
  by (simp add: waiting_at_def list_at_def)

text \<open>A queue map: distinct keys, no empty list, every job under its own key.\<close>

definition queue_ok :: "DataStoreJob list gomap \<Rightarrow> bool" where
  "queue_ok m \<longleftrightarrow> map_wf m \<and> (\<forall>(k, js) \<in> set m. js \<noteq> [] \<and> (\<forall>j \<in> set js. key j = k))"

lemma queue_ok_iff:
  "queue_ok m \<longleftrightarrow> map_wf m \<and> (\<forall>k js. map_of m k = Some js \<longrightarrow> js \<noteq> [] \<and> (\<forall>j \<in> set js. key j = k))"
proof (cases "map_wf m")
  case True
  then have "\<And>k js. (k, js) \<in> set m \<longleftrightarrow> map_of m k = Some js" by simp
  then have "(\<forall>x \<in> set m. P (fst x) (snd x)) \<longleftrightarrow> (\<forall>k js. map_of m k = Some js \<longrightarrow> P k js)" for P
    by (metis fst_conv snd_conv prod.collapse)
  from this [of "\<lambda>k js. js \<noteq> [] \<and> (\<forall>j \<in> set js. key j = k)"] True show ?thesis
    unfolding queue_ok_def case_prod_beta by blast
next
  case False
  then show ?thesis by (simp add: queue_ok_def)
qed

lemma queue_ok_Nil [simp]: "queue_ok []"
  by (simp add: queue_ok_def)

lemma queue_ok_list_at: "queue_ok m \<Longrightarrow> j \<in> set (list_at m k) \<Longrightarrow> key j = k"
  by (cases "map_of m k") (auto simp: list_at_def queue_ok_iff)

lemma append_at_ok: "queue_ok m \<Longrightarrow> queue_ok (append_at (key j) j m)"
proof -
  assume ok: "queue_ok m"
  then have "map_wf (append_at (key j) j m)"
    by (simp add: append_at_def queue_ok_def distinct_update split: option.split)
  moreover have "js \<noteq> [] \<and> (\<forall>i \<in> set js. key i = k)"
    if "map_of (append_at (key j) j m) k = Some js" for k js
  proof (cases "k = key j")
    case True
    then show ?thesis
      using ok that by (cases "map_of m k") (auto simp: append_at_def update_conv' queue_ok_iff)
  next
    case False
    then have "map_of m k = Some js"
      using that by (cases "map_of m (key j)") (simp_all add: append_at_def update_conv')
    then show ?thesis using ok by (simp add: queue_ok_iff)
  qed
  ultimately show ?thesis unfolding queue_ok_iff by blast
qed

lemma append_all_ok:
  "queue_ok m \<Longrightarrow> \<forall>p \<in> set ps. key p = k \<Longrightarrow> queue_ok (foldl (\<lambda>m p. append_at k p m) m ps)"
proof (induction ps arbitrary: m)
  case Nil
  then show ?case by simp
next
  case (Cons p ps)
  then have "key p = k" by simp
  moreover have "queue_ok (append_at (key p) p m)" by (rule append_at_ok [OF Cons.prems(1)])
  ultimately show ?case using Cons by simp
qed

text \<open>The jobs of a key in the concatenated lists are the list under the key.\<close>

lemma filter_key_none: "k \<notin> fst ` set m \<Longrightarrow> queue_ok m \<Longrightarrow> filter (\<lambda>j. key j = k) (concat (map snd m)) = []"
  by (induction m) (auto simp: queue_ok_def filter_empty_conv)

lemma filter_key_concat: "queue_ok m \<Longrightarrow> filter (\<lambda>j. key j = k) (concat (map snd m)) = list_at m k"
proof (induction m)
  case Nil
  then show ?case by (simp add: list_at_def)
next
  case (Cons kv m)
  obtain k' js where kv: "kv = (k', js)" by (cases kv)
  have m: "queue_ok m" "k' \<notin> fst ` set m" and js: "\<forall>j \<in> set js. key j = k'"
    using Cons.prems kv by (auto simp: queue_ok_def)
  show ?case
  proof (cases "k' = k")
    case True
    then show ?thesis
      using js filter_key_none [of k m] m kv by (simp add: list_at_def)
  next
    case False
    then have "filter (\<lambda>j. key j = k) js = []" using js by (auto simp: filter_empty_conv)
    then show ?thesis using Cons.IH [OF m(1)] False kv by (simp add: list_at_def)
  qed
qed

lemma queue_ok_go_range: "valid_rng r \<Longrightarrow> queue_ok m \<Longrightarrow> queue_ok (go_range r m)"
  unfolding queue_ok_iff by (simp add: go_range_distinct map_of_go_range)

lemma list_at_go_range: "valid_rng r \<Longrightarrow> queue_ok m \<Longrightarrow> list_at (go_range r m) k = list_at m k"
  by (simp add: list_at_def map_of_go_range queue_ok_def)

section \<open>Taking the pending jobs\<close>

definition mark_ids :: "DataStoreJob list \<Rightarrow> bool gomap" where
  "mark_ids js = foldl (\<lambda>m job. map_put (id_of job) True m) [] js"

lemma foldl_ids:
  "map_wf m \<Longrightarrow> map_wf (foldl (\<lambda>m job. map_put (id_of job) True m) m js)"
  "fst ` set (foldl (\<lambda>m job. map_put (id_of job) True m) m js) = fst ` set m \<union> id_of ` set js"
  by (induction js arbitrary: m) (auto simp: distinct_update dom_update)

lemma mark_ids: "map_wf (mark_ids js)" "fst ` set (mark_ids js) = id_of ` set js"
  by (simp_all add: mark_ids_def foldl_ids)

lemma foldl_take_key_jobs: "fst (foldl take_key acc kvs) = fst acc @ concat (map snd kvs)"
  by (induction kvs arbitrary: acc) (simp_all add: take_key_def Let_def)

lemma foldl_take_key_other:
  "k \<notin> fst ` set kvs \<Longrightarrow> map_of (snd (foldl take_key acc kvs)) k = map_of (snd acc) k"
  by (induction kvs arbitrary: acc) (simp_all add: take_key_def Let_def update_conv')

lemma foldl_take_key_mem:
  "map_of kvs k = Some js \<Longrightarrow> map_wf kvs \<Longrightarrow> map_of (snd acc) k = None \<Longrightarrow>
   map_of (snd (foldl take_key acc kvs)) k = Some (mark_ids js)"
proof (induction kvs arbitrary: acc)
  case Nil
  then show ?case by simp
next
  case (Cons kv kvs)
  show ?case
  proof (cases "fst kv = k")
    case True
    then have "snd kv = js" "k \<notin> fst ` set kvs" using Cons.prems by (cases kv; auto)+
    then have "map_of (snd (take_key acc kv)) k = Some (mark_ids js)"
      using Cons.prems(3) True by (simp add: take_key_def Let_def update_conv' mark_ids_def)
    then show ?thesis using foldl_take_key_other [OF \<open>k \<notin> fst ` set kvs\<close>] by simp
  next
    case False
    then have "map_of kvs k = Some js" "map_wf kvs" using Cons.prems by (cases kv; auto)+
    moreover have "map_of (snd (take_key acc kv)) k = None"
      using False Cons.prems(3) by (simp add: take_key_def Let_def update_conv')
    ultimately show ?thesis using Cons.IH by simp
  qed
qed

text \<open>No key is both pending and running.\<close>

definition apart :: "gitDataStore \<Rightarrow> bool" where
  "apart g \<longleftrightarrow> (\<forall>k \<in> fst ` set (gds_pendingWrites g). map_of (gds_runningWriteIds g) k = None)"

lemma nextJobs_cases:
  obtains (none) "gds_pendingWrites g = []" "nextJobs r g = ([], g)"
  | (some) jobs running where "nextJobs r g =
      (jobs, g\<lparr>gds_runningWriteIds := running, gds_pendingWrites := []\<rparr>)"
      "foldl take_key ([], gds_runningWriteIds g) (go_range r (gds_pendingWrites g)) = (jobs, running)"
proof (cases "gds_pendingWrites g = []")
  case True
  then show ?thesis using none by (simp add: nextJobs_def)
next
  case False
  obtain jobs running where
    "foldl take_key ([], gds_runningWriteIds g) (go_range r (gds_pendingWrites g)) = (jobs, running)"
    by fastforce
  then show ?thesis using some False by (simp add: nextJobs_def)
qed

text \<open>The batch holds, for every key, the pending list of the key, in its order.\<close>

lemma nextJobs_jobs:
  assumes "queue_ok (gds_pendingWrites g)" "valid_rng r"
  shows "filter (\<lambda>j. key j = k) (fst (nextJobs r g)) = list_at (gds_pendingWrites g) k"
proof (cases rule: nextJobs_cases [of g r])
  case none
  then show ?thesis by (simp add: list_at_def)
next
  case (some jobs running)
  then have "jobs = concat (map snd (go_range r (gds_pendingWrites g)))"
    using foldl_take_key_jobs [of "([], gds_runningWriteIds g)"] by (metis append_Nil fst_conv)
  then show ?thesis
    using some(1) assms by (simp add: filter_key_concat queue_ok_go_range list_at_go_range)
qed

lemma nextJobs_frame:
  "gds_pendingWrites (snd (nextJobs r g)) = []"
  "gds_waitingOnRunningWrites (snd (nextJobs r g)) = gds_waitingOnRunningWrites g"
  by (cases rule: nextJobs_cases [of g r]; simp)+

lemma nextJobs_running:
  assumes "queue_ok (gds_pendingWrites g)" "valid_rng r" "apart g"
  shows "map_of (gds_runningWriteIds (snd (nextJobs r g))) k =
    (if list_at (gds_pendingWrites g) k = [] then map_of (gds_runningWriteIds g) k
     else Some (mark_ids (list_at (gds_pendingWrites g) k)))"
proof (cases rule: nextJobs_cases [of g r])
  case none
  then show ?thesis by (simp add: list_at_def)
next
  case (some jobs running)
  let ?kvs = "go_range r (gds_pendingWrites g)"
  have ok: "queue_ok ?kvs" "list_at ?kvs k = list_at (gds_pendingWrites g) k"
    using assms by (simp_all add: queue_ok_go_range list_at_go_range)
  have run: "running = snd (foldl take_key ([], gds_runningWriteIds g) ?kvs)"
    using some(2) by simp
  show ?thesis
  proof (cases "map_of ?kvs k")
    case None
    then have "list_at (gds_pendingWrites g) k = []" using ok(2) by (simp add: list_at_def)
    moreover have "k \<notin> fst ` set ?kvs" using None by (simp add: map_of_eq_None_iff)
    ultimately show ?thesis
      using some(1) run foldl_take_key_other [of k ?kvs] by simp
  next
    case (Some js)
    then have js: "list_at (gds_pendingWrites g) k = js" "js \<noteq> []"
      using ok by (auto simp: list_at_def queue_ok_iff)
    have "k \<in> fst ` set (gds_pendingWrites g)"
      using Some go_range_subset [of r "gds_pendingWrites g"] by (force dest: map_of_SomeD)
    then have "map_of (gds_runningWriteIds g) k = None"
      by (rule bspec [OF assms(3) [unfolded apart_def]])
    then show ?thesis
      using some(1) run js foldl_take_key_mem [OF Some] ok(1) by (simp add: queue_ok_def)
  qed
qed

section \<open>Completing a batch\<close>

lemma mark_one_simps:
  "gds_waitingOnRunningWrites (fst (mark_one acc j)) = gds_waitingOnRunningWrites (fst acc)"
  "gds_runningWriteIds (fst (mark_one acc j)) = unmark (gds_runningWriteIds (fst acc)) j"
  "list_at (gds_pendingWrites (fst (mark_one acc j))) k =
     list_at (gds_pendingWrites (fst acc)) k @ (if k = key j then waiting_at (fst acc) k else [])"
  by (simp_all add: mark_one_def Let_def list_at_append_all)

lemma waiting_at_mark_one: "waiting_at (fst (mark_one acc j)) k = waiting_at (fst acc) k"
  by (simp add: waiting_at_def mark_one_simps)

lemma foldl_mark_one:
  "gds_waitingOnRunningWrites (fst (foldl mark_one acc jobs)) = gds_waitingOnRunningWrites (fst acc)"
  "gds_runningWriteIds (fst (foldl mark_one acc jobs)) = foldl unmark (gds_runningWriteIds (fst acc)) jobs"
  "list_at (gds_pendingWrites (fst (foldl mark_one acc jobs))) k =
     list_at (gds_pendingWrites (fst acc)) k @
     concat (replicate (length (filter (\<lambda>j. key j = k) jobs)) (waiting_at (fst acc) k))"
  "snd (foldl mark_one acc jobs) \<longleftrightarrow> snd acc \<or> (\<exists>j \<in> set jobs. waiting_at (fst acc) (key j) \<noteq> [])"
  by (induction jobs arbitrary: acc)
    (auto simp: mark_one_simps waiting_at_mark_one, simp_all add: mark_one_def Let_def waiting_at_def)

lemma markJobsCompleted_frame:
  "gds_waitingOnRunningWrites (fst (markJobsCompleted g jobs)) = gds_waitingOnRunningWrites g"
  "gds_runningWriteIds (fst (markJobsCompleted g jobs)) = foldl unmark (gds_runningWriteIds g) jobs"
  by (simp_all add: markJobsCompleted_def foldl_mark_one)

lemma markJobsCompleted_pending:
  "list_at (gds_pendingWrites (fst (markJobsCompleted g jobs))) k =
     list_at (gds_pendingWrites g) k @
     concat (replicate (length (filter (\<lambda>j. key j = k) jobs)) (waiting_at g k))"
  by (simp add: markJobsCompleted_def foldl_mark_one)

lemma markJobsCompleted_flag:
  "snd (markJobsCompleted g jobs) \<longleftrightarrow> (\<exists>j \<in> set jobs. waiting_at g (key j) \<noteq> [])"
  by (simp add: markJobsCompleted_def foldl_mark_one)

lemma mark_one_pending_ok:
  assumes "queue_ok (gds_pendingWrites (fst acc))" "queue_ok (gds_waitingOnRunningWrites (fst acc))"
  shows "queue_ok (gds_pendingWrites (fst (mark_one acc j)))"
proof -
  have "\<forall>p \<in> set (waiting_at (fst acc) (key j)). key p = key j"
    using queue_ok_list_at [OF assms(2)] by (simp add: waiting_at_list_at)
  then show ?thesis using append_all_ok [OF assms(1)] by (simp add: mark_one_def Let_def)
qed

lemma markJobsCompleted_pending_ok:
  assumes "queue_ok (gds_pendingWrites g)" "queue_ok (gds_waitingOnRunningWrites g)"
  shows "queue_ok (gds_pendingWrites (fst (markJobsCompleted g jobs)))"
proof -
  have "queue_ok (gds_pendingWrites (fst acc)) \<Longrightarrow> queue_ok (gds_waitingOnRunningWrites (fst acc)) \<Longrightarrow>
      queue_ok (gds_pendingWrites (fst (foldl mark_one acc jobs)))" for acc
    by (induction jobs arbitrary: acc) (simp_all add: mark_one_pending_ok mark_one_simps)
  from this [of "(g, False)"] assms show ?thesis by (simp add: markJobsCompleted_def)
qed

text \<open>The running ids of the keys in \<open>K\<close> are ids of the jobs that are still to be unmarked.\<close>

definition ids_of_batch :: "bool gomap gomap \<Rightarrow> DataStoreJob list \<Rightarrow> string \<Rightarrow> bool" where
  "ids_of_batch running B k \<longleftrightarrow>
     (case map_of running k of None \<Rightarrow> True
      | Some ids \<Rightarrow> map_wf ids \<and> ids \<noteq> [] \<and> fst ` set ids \<subseteq> id_of ` {j \<in> set B. key j = k})"

lemma map_of_unmark_other: "k \<noteq> key j \<Longrightarrow> map_of (unmark running j) k = map_of running k"
  by (simp add: unmark_def update_conv' delete_conv' split: option.split)

lemma unmark_step:
  assumes "ids_of_batch running (j # B) k"
  shows "ids_of_batch (unmark running j) B k"
proof (cases "key j = k")
  case False
  then have "{i \<in> set (j # B). key i = k} = {i \<in> set B. key i = k}" by auto
  then show ?thesis
    using assms False map_of_unmark_other [of k j running]
    by (simp add: ids_of_batch_def split: option.splits)
next
  case True
  show ?thesis
  proof (cases "map_of running k")
    case None
    then show ?thesis using True by (simp add: ids_of_batch_def unmark_def)
  next
    case (Some ids)
    have ids: "map_wf ids" "ids \<noteq> []" "fst ` set ids \<subseteq> insert (id_of j) (id_of ` {i \<in> set B. key i = k})"
      using assms Some True by (auto simp: ids_of_batch_def)
    show ?thesis
    proof (cases "id_of j \<in> fst ` set ids")
      case False
      then have "map_of ids (id_of j) = None" by (simp add: map_of_eq_None_iff)
      then have "unmark running j = running" using Some True by (simp add: unmark_def)
      moreover have "fst ` set ids \<subseteq> id_of ` {i \<in> set B. key i = k}" 
        by (rule subset_insert [THEN iffD1, OF False ids(3)])
      ultimately show ?thesis
        using ids(1,2) unfolding ids_of_batch_def by (simp only: Some option.case simp_thms)
    next
      case mem: True
      then obtain v where v: "map_of ids (id_of j) = Some v"
        by (metis map_of_eq_None_iff option.exhaust)
      show ?thesis
      proof (cases "length ids = 1")
        case len: True
        have "unmark running j = map_del (key j) running" using Some v len True by (simp add: unmark_def)
        then show ?thesis using True by (simp add: ids_of_batch_def delete_conv')
      next
        case False
        let ?ids = "map_del (id_of j) ids"
        have new: "unmark running j = map_put (key j) ?ids running"
          using Some v False True by (simp add: unmark_def)
        have dom: "fst ` set ?ids = fst ` set ids - {id_of j}"
          by (metis AList.delete_keys list.set_map set_removeAll)
        have "?ids \<noteq> []"
        proof
          assume "?ids = []"
          then have "fst ` set ids \<subseteq> {id_of j}" using dom by auto
          then have "card (fst ` set ids) \<le> 1" by (metis card_mono card.empty card_insert_disjoint finite.emptyI finite_insert One_nat_def empty_iff)
          moreover have "card (fst ` set ids) = length ids"
            using ids(1) by (metis distinct_card length_map list.set_map)
          ultimately show False using ids(2) False by (cases ids) auto
        qed
        moreover have "map_wf ?ids" using ids(1) by (rule AList.distinct_delete)
        moreover have "fst ` set ?ids \<subseteq> id_of ` {i \<in> set B. key i = k}" using dom ids(3) by auto
        ultimately show ?thesis using new True by (simp add: ids_of_batch_def update_conv')
      qed
    qed
  qed
qed

lemma unmark_all: "ids_of_batch running B k \<Longrightarrow> map_of (foldl unmark running B) k = None"
proof -
  have "ids_of_batch running B k \<Longrightarrow> ids_of_batch (foldl unmark running B) [] k"
    by (induction B arbitrary: running) (auto dest: unmark_step)
  then show "ids_of_batch running B k \<Longrightarrow> map_of (foldl unmark running B) k = None"
    by (auto simp: ids_of_batch_def split: option.splits)
qed

lemma unmark_others: "k \<notin> key ` set B \<Longrightarrow> map_of (foldl unmark running B) k = map_of running k"
  by (induction B arbitrary: running) (auto simp: map_of_unmark_other)

section \<open>The invariant\<close>

text \<open>
  \<open>Bs\<close> are the batches the pool workers hold, empty for a worker that holds none. A key runs
  exactly when a batch has a job of it, its ids are ids of that batch, and no two batches
  share a key.
\<close>

definition batch_keys :: "DataStoreJob list list \<Rightarrow> string set" where
  "batch_keys Bs = (\<Union>B \<in> set Bs. key ` set B)"

definition store_inv :: "gitDataStore \<Rightarrow> DataStoreJob list list \<Rightarrow> bool" where
  "store_inv g Bs \<longleftrightarrow>
     queue_ok (gds_pendingWrites g) \<and> queue_ok (gds_waitingOnRunningWrites g) \<and> apart g \<and>
     (\<forall>k. map_of (gds_runningWriteIds g) k = None \<longleftrightarrow> k \<notin> batch_keys Bs) \<and>
     (\<forall>B \<in> set Bs. \<forall>k \<in> key ` set B. ids_of_batch (gds_runningWriteIds g) B k) \<and>
     (\<forall>v < length Bs. \<forall>w < length Bs. v \<noteq> w \<longrightarrow> key ` set (Bs ! v) \<inter> key ` set (Bs ! w) = {})"

lemma store_invD:
  assumes "store_inv g Bs"
  shows store_inv_queues: "queue_ok (gds_pendingWrites g)" "queue_ok (gds_waitingOnRunningWrites g)"
    and store_inv_apart: "apart g"
    and store_inv_running: "map_of (gds_runningWriteIds g) k = None \<longleftrightarrow> k \<notin> batch_keys Bs"
    and store_inv_ids: "B \<in> set Bs \<Longrightarrow> k \<in> key ` set B \<Longrightarrow> ids_of_batch (gds_runningWriteIds g) B k"
    and store_inv_disjoint:
      "v < length Bs \<Longrightarrow> w < length Bs \<Longrightarrow> v \<noteq> w \<Longrightarrow> key ` set (Bs ! v) \<inter> key ` set (Bs ! w) = {}"
  using assms unfolding store_inv_def by (simp, simp, simp, blast, blast, blast)

lemma store_inv_empty: "store_inv empty_store (replicate n [])"
  by (simp add: store_inv_def empty_store_def apart_def batch_keys_def)

lemma apart_iff: "apart g \<longleftrightarrow> (\<forall>k. map_of (gds_pendingWrites g) k \<noteq> None \<longrightarrow> map_of (gds_runningWriteIds g) k = None)"
  by (simp only: apart_def dom_map_of_conv_image_fst [symmetric] dom_def Ball_def mem_Collect_eq)

lemma list_at_Nil_iff: "queue_ok m \<Longrightarrow> list_at m k = [] \<longleftrightarrow> map_of m k = None"
  by (auto simp: list_at_def queue_ok_iff split: option.split)

lemma Store_job_inv:
  assumes "store_inv g Bs"
  shows "store_inv (Store_job g job) Bs"
proof (cases "map_of (gds_runningWriteIds g) (key job)")
  case None
  have "apart (g\<lparr>gds_pendingWrites := append_at (key job) job (gds_pendingWrites g)\<rparr>)"
    using assms None unfolding store_inv_def apart_iff append_at_def
    by (auto simp: update_conv' split: option.splits)
  moreover have "Store_job g job = g\<lparr>gds_pendingWrites := append_at (key job) job (gds_pendingWrites g)\<rparr>"
    by (simp only: Store_job_def None option.case)
  ultimately show ?thesis
    using assms by (simp add: store_inv_def append_at_ok)
next
  case (Some ids)
  then have "Store_job g job =
      g\<lparr>gds_waitingOnRunningWrites := append_at (key job) job (gds_waitingOnRunningWrites g)\<rparr>"
    by (simp add: Store_job_def)
  then show ?thesis
    using assms unfolding store_inv_def apart_iff by (simp add: append_at_ok)
qed

lemma nextJobs_keys:
  assumes "queue_ok (gds_pendingWrites g)" "valid_rng r"
  shows "k \<in> key ` set (fst (nextJobs r g)) \<longleftrightarrow> list_at (gds_pendingWrites g) k \<noteq> []"
  unfolding nextJobs_jobs [OF assms, symmetric, of k] by (auto simp: filter_empty_conv)

lemma batch_keys_put:
  assumes "w < length Bs" "Bs ! w = []"
  shows "batch_keys (Bs[w := B]) = batch_keys Bs \<union> key ` set B"
proof -
  have set: "batch_keys Cs = (\<Union>i < length Cs. key ` set (Cs ! i))" for Cs
    by (auto simp: batch_keys_def set_conv_nth)
  have "{..<length Bs} = insert w {i. i < length Bs \<and> i \<noteq> w}" using assms(1) by auto
  moreover have "Bs[w := B] ! w = B" using assms(1) by simp
  ultimately show ?thesis using assms(2) by (auto simp: set nth_list_update split: if_splits)
qed

lemma ids_of_batch_mark:
  assumes "map_of running k = Some (mark_ids (filter (\<lambda>j. key j = k) B))" "k \<in> key ` set B"
  shows "ids_of_batch running B k"
proof -
  let ?js = "filter (\<lambda>j. key j = k) B"
  have "set ?js \<noteq> {}" using assms(2) by auto
  then have "fst ` set (mark_ids ?js) \<noteq> {}" by (simp add: mark_ids(2))
  then have "mark_ids ?js \<noteq> []" by auto
  moreover have "set ?js = {j \<in> set B. key j = k}" by auto
  ultimately show ?thesis using assms(1) mark_ids [of ?js] by (simp add: ids_of_batch_def)
qed

lemma nextJobs_inv:
  assumes inv: "store_inv g Bs" and w: "w < length Bs" "Bs ! w = []" and r: "valid_rng r"
  shows "store_inv (snd (nextJobs r g)) (Bs[w := fst (nextJobs r g)])"
proof -
  let ?B = "fst (nextJobs r g)" and ?g = "snd (nextJobs r g)"
  note I = inv [unfolded store_inv_def]
  have pend: "queue_ok (gds_pendingWrites g)" and ap: "apart g" using I by blast+
  note keys = nextJobs_keys [OF pend r] and running = nextJobs_running [OF pend r ap]
  have fresh: "k \<notin> batch_keys Bs" if "k \<in> key ` set ?B" for k
  proof -
    have "map_of (gds_pendingWrites g) k \<noteq> None"
      using that unfolding keys list_at_Nil_iff [OF pend] .
    then have "map_of (gds_runningWriteIds g) k = None" using ap unfolding apart_iff by blast
    then show ?thesis using I by blast
  qed
  have 1: "apart ?g" by (simp add: apart_def nextJobs_frame)
  have 2: "map_of (gds_runningWriteIds ?g) k = None \<longleftrightarrow> k \<notin> batch_keys (Bs[w := ?B])" for k
  proof -
    have "map_of (gds_runningWriteIds g) k = None \<longleftrightarrow> k \<notin> batch_keys Bs" using I by blast
    then show ?thesis using running [of k] keys [of k] by (simp add: batch_keys_put [OF w])
  qed
  have 3: "ids_of_batch (gds_runningWriteIds ?g) B k" if "B \<in> set (Bs[w := ?B])" "k \<in> key ` set B" for B k
  proof (cases "B = ?B")
    case True
    then have "k \<in> key ` set ?B" using that by simp
    then have "list_at (gds_pendingWrites g) k \<noteq> []" by (simp only: keys not_False_eq_True)
    then have "map_of (gds_runningWriteIds ?g) k = Some (mark_ids (filter (\<lambda>j. key j = k) ?B))"
      using running [of k] by (simp add: nextJobs_jobs [OF pend r])
    then show ?thesis using True that(2) by (simp add: ids_of_batch_mark)
  next
    case False
    then have B: "B \<in> set Bs" using that(1) set_update_subset_insert by fast
    then have "k \<in> batch_keys Bs" using that(2) by (auto simp: batch_keys_def)
    then have "k \<notin> key ` set ?B" using fresh by blast
    then have "list_at (gds_pendingWrites g) k = []" by (simp only: keys simp_thms)
    then have "map_of (gds_runningWriteIds ?g) k = map_of (gds_runningWriteIds g) k"
      using running [of k] by simp
    then show ?thesis using store_inv_ids [OF inv B that(2)] by (simp add: ids_of_batch_def)
  qed
  have 4: "key ` set (Bs[w := ?B] ! u) \<inter> key ` set (Bs[w := ?B] ! v) = {}"
    if "u < length Bs" "v < length Bs" "u \<noteq> v" for u v
  proof -
    have "key ` set (Bs ! x) \<inter> key ` set ?B = {}" if "x < length Bs" for x
      using fresh that by (fastforce simp: batch_keys_def)
    then show ?thesis
      using that store_inv_disjoint [OF inv that] w(1) by (simp add: nth_list_update Int_commute)
  qed
  show ?thesis
    unfolding store_inv_def using 1 2 3 4 I by (simp add: nextJobs_frame)
qed

lemma markJobsCompleted_inv:
  assumes inv: "store_inv g Bs" and w: "w < length Bs"
  shows "store_inv (fst (markJobsCompleted g (Bs ! w))) (Bs[w := []])"
proof -
  let ?B = "Bs ! w" and ?g = "fst (markJobsCompleted g (Bs ! w))"
  note I = inv [unfolded store_inv_def]
  have mem: "?B \<in> set Bs" using w by simp
  have running: "map_of (gds_runningWriteIds ?g) k =
      (if k \<in> key ` set ?B then None else map_of (gds_runningWriteIds g) k)" for k
    using store_inv_ids [OF inv mem, of k] unmark_all [of _ ?B k] unmark_others [of k ?B]
    by (auto simp add: markJobsCompleted_frame)
  have other: "k \<in> batch_keys (Bs[w := []]) \<longleftrightarrow> k \<in> batch_keys Bs \<and> k \<notin> key ` set ?B" for k
  proof -
    have set: "k \<in> batch_keys Cs \<longleftrightarrow> (\<exists>i < length Cs. k \<in> key ` set (Cs ! i))" for Cs
      by (auto simp: batch_keys_def set_conv_nth)
    have "k \<notin> key ` set (Bs ! i)" if "i < length Bs" "i \<noteq> w" "k \<in> key ` set ?B" for i
      using I that w by blast
    moreover have "i \<noteq> w" if "k \<in> key ` set (Bs ! i)" "k \<notin> key ` set ?B" for i
      using that by blast
    ultimately show ?thesis
      using w unfolding set by (simp add: nth_list_update) (metis empty_iff image_empty empty_set)
  qed
  have pend: "queue_ok (gds_pendingWrites ?g)" using I by (simp add: markJobsCompleted_pending_ok)
  have 1: "apart ?g"
    unfolding apart_iff
  proof (intro allI impI)
    fix k assume "map_of (gds_pendingWrites ?g) k \<noteq> None"
    then have "list_at (gds_pendingWrites ?g) k \<noteq> []" by (simp only: list_at_Nil_iff [OF pend] not_False_eq_True)
    then have "list_at (gds_pendingWrites g) k \<noteq> [] \<or> k \<in> key ` set ?B"
      unfolding markJobsCompleted_pending by (auto simp: filter_empty_conv)
    moreover have "map_of (gds_runningWriteIds g) k = None" if "list_at (gds_pendingWrites g) k \<noteq> []"
      using that I unfolding apart_iff by (metis list_at_Nil_iff)
    ultimately show "map_of (gds_runningWriteIds ?g) k = None" using running by auto
  qed
  have 2: "map_of (gds_runningWriteIds ?g) k = None \<longleftrightarrow> k \<notin> batch_keys (Bs[w := []])" for k
    using I other [of k] running [of k] by auto
  have 3: "ids_of_batch (gds_runningWriteIds ?g) B k" if "B \<in> set (Bs[w := []])" "k \<in> key ` set B" for B k
  proof -
    have B: "B \<in> set Bs" and "k \<in> batch_keys (Bs[w := []])"
      using that set_update_subset_insert [of Bs w "[]"] by (auto simp: batch_keys_def)
    then have "map_of (gds_runningWriteIds ?g) k = map_of (gds_runningWriteIds g) k"
      using running [of k] other [of k] by simp
    then show ?thesis using store_inv_ids [OF inv B that(2)] by (simp add: ids_of_batch_def)
  qed
  show ?thesis
    unfolding store_inv_def using 1 2 3 I pend
    using w by (simp add: markJobsCompleted_frame nth_list_update)
qed

section \<open>Properties of the queue\<close>

text \<open>
  Results of different runs are told apart: with device and job names free of the
  separator (the BEL character), two results have the same id only if they are of the same
  job of the same device, for the same second.
\<close>

theorem id_identifies_run:
  assumes "id_of d = id_of e"
    and "CHR 0x07 \<notin> set (dsj_DeviceName d @ dsj_JobName d)"
    and "CHR 0x07 \<notin> set (dsj_DeviceName e @ dsj_JobName e)"
  shows "dsj_DeviceName d = dsj_DeviceName e \<and> dsj_JobName d = dsj_JobName e \<and>
    Unix (dsj_JobTime d) = Unix (dsj_JobTime e)"
proof -
  have "dsj_DeviceName d @ CHR 0x07 # dsj_JobName d @ CHR 0x07 # Itoa (Unix (dsj_JobTime d)) =
      dsj_DeviceName e @ CHR 0x07 # dsj_JobName e @ CHR 0x07 # Itoa (Unix (dsj_JobTime e))"
    using assms(1) by (simp add: id_of_def key_def jobKeySplit_def)
  from split_at_first [OF this] assms(2,3)
  have 1: "dsj_DeviceName d = dsj_DeviceName e"
    and "dsj_JobName d @ CHR 0x07 # Itoa (Unix (dsj_JobTime d)) =
      dsj_JobName e @ CHR 0x07 # Itoa (Unix (dsj_JobTime e))" by simp_all
  from split_at_first [OF this(2)] assms(2,3)
  have 2: "dsj_JobName d = dsj_JobName e"
    and "Itoa (Unix (dsj_JobTime d)) = Itoa (Unix (dsj_JobTime e))" by simp_all
  then have "Some (Unix (dsj_JobTime d)) = Some (Unix (dsj_JobTime e))"
    using Atoi_Itoa [of "Unix (dsj_JobTime d)"] Atoi_Itoa [of "Unix (dsj_JobTime e)"]
      wrap64_range unfolding Unix_def by metis
  with 1 2 show ?thesis by simp
qed

definition sample_result :: "string \<Rightarrow> int \<Rightarrow> DataStoreJob" where
  "sample_result contents t = \<lparr>dsj_DeviceName = ''qux'', dsj_JobName = ''bar'',
     dsj_JobTime = time_Unix t, dsj_StartTime = time_Unix (t + 1), dsj_EndTime = time_Unix (t + 2),
     dsj_Failure = '''', dsj_Contents = contents\<rparr>"

theorem id_identifies_run_witness:
  "Unix (dsj_JobTime (sample_result ''a'' 60)) = Unix (dsj_JobTime (sample_result ''b'' 60)) \<and>
   id_of (sample_result ''a'' 60) = id_of (sample_result ''b'' 60)"
proof -
  have "id_of (sample_result ''a'' 60) = id_of (sample_result ''b'' 60)"
    by (simp add: id_of_def key_def sample_result_def)
  moreover from id_identifies_run [OF this]
  have "Unix (dsj_JobTime (sample_result ''a'' 60)) = Unix (dsj_JobTime (sample_result ''b'' 60))"
    by (simp add: sample_result_def)
  ultimately show ?thesis by simp
qed

text \<open>One worker on its own: it takes the pending jobs, writes them and completes them.\<close>

definition work_round :: "rng \<Rightarrow> gitDataStore \<Rightarrow> gitDataStore" where
  "work_round r g = (let (jobs, g') = nextJobs r g in fst (markJobsCompleted g' jobs))"

lemma work_round_queues:
  assumes "queue_ok (gds_pendingWrites g)" "queue_ok (gds_waitingOnRunningWrites g)" "valid_rng r"
  shows "queue_ok (gds_pendingWrites (work_round r g))"
    "gds_waitingOnRunningWrites (work_round r g) = gds_waitingOnRunningWrites g"
    "list_at (gds_pendingWrites (work_round r g)) k =
       concat (replicate (length (list_at (gds_pendingWrites g) k)) (waiting_at g k))"
proof -
  obtain jobs g' where n: "nextJobs r g = (jobs, g')" by fastforce
  then have g': "gds_pendingWrites g' = []" "gds_waitingOnRunningWrites g' = gds_waitingOnRunningWrites g"
    using nextJobs_frame [of r g] by simp_all
  have w: "work_round r g = fst (markJobsCompleted g' jobs)" by (simp add: work_round_def n)
  show "queue_ok (gds_pendingWrites (work_round r g))"
    unfolding w by (rule markJobsCompleted_pending_ok) (simp_all add: g' assms)
  show "gds_waitingOnRunningWrites (work_round r g) = gds_waitingOnRunningWrites g"
    by (simp add: w markJobsCompleted_frame g')
  have "waiting_at g' k = waiting_at g k" "list_at (gds_pendingWrites g') k = []"
    by (simp_all add: waiting_at_def g' list_at_def)
  moreover have "filter (\<lambda>j. key j = k) jobs = list_at (gds_pendingWrites g) k"
    using nextJobs_jobs [OF assms(1,3)] n by simp
  ultimately show "list_at (gds_pendingWrites (work_round r g)) k =
       concat (replicate (length (list_at (gds_pendingWrites g) k)) (waiting_at g k))"
    by (simp add: w markJobsCompleted_pending)
qed

text \<open>
  The waiting list of a key is never emptied, so its results are written again and again:
  every completion of a batch puts the whole waiting list of a key back once for each result
  of the key in the batch. With \<open>p\<close> pending and \<open>w\<close> waiting results of a key, a worker on its
  own finds \<open>p * w ^ n\<close> results of it after \<open>n\<close> rounds, although nothing new arrives: as soon
  as one has waited the worker never comes to rest, and with two or more its work doubles.
\<close>

theorem waiting_jobs_multiply:
  assumes "queue_ok (gds_pendingWrites g)" and "queue_ok (gds_waitingOnRunningWrites g)"
    and "valid_rng r"
  shows "length (list_at (gds_pendingWrites ((work_round r ^^ n) g)) k) =
    length (list_at (gds_pendingWrites g) k) * length (waiting_at g k) ^ n"
proof -
  have "queue_ok (gds_pendingWrites ((work_round r ^^ n) g)) \<and>
    gds_waitingOnRunningWrites ((work_round r ^^ n) g) = gds_waitingOnRunningWrites g \<and>
    length (list_at (gds_pendingWrites ((work_round r ^^ n) g)) k) =
      length (list_at (gds_pendingWrites g) k) * length (waiting_at g k) ^ n"
  proof (induction n)
    case 0
    then show ?case using assms by simp
  next
    case (Suc n)
    let ?g = "(work_round r ^^ n) g"
    have "queue_ok (gds_waitingOnRunningWrites ?g)" using Suc assms(2) by simp
    note step = work_round_queues [OF conjunct1 [OF Suc] this assms(3)]
    have "waiting_at ?g k = waiting_at g k" using Suc by (simp add: waiting_at_def)
    with step Suc show ?case
      by (simp add: length_concat sum_list_replicate)
  qed
  then show ?thesis by blast
qed

text \<open>One result written while two more of the same job arrive: a thousand results after ten rounds.\<close>

definition sample_busy :: gitDataStore where
  "sample_busy =
     (let (jobs, g) = nextJobs (\<lambda>p ks. ks) (Store_job empty_store (sample_result ''a'' 60));
          g = Store_job (Store_job g (sample_result ''b'' 120)) (sample_result ''c'' 180)
      in fst (markJobsCompleted g jobs))"

lemma sample_busy_eq:
  "sample_busy = \<lparr>
     gds_pendingWrites = [(''qux'' @ jobKeySplit @ ''bar'', [sample_result ''b'' 120, sample_result ''c'' 180])],
     gds_runningWriteIds = [],
     gds_waitingOnRunningWrites =
       [(''qux'' @ jobKeySplit @ ''bar'', [sample_result ''b'' 120, sample_result ''c'' 180])]\<rparr>"
  by (simp add: sample_busy_def Store_job_def empty_store_def append_at_def nextJobs_def go_range_def
      take_key_def Let_def markJobsCompleted_def mark_one_def waiting_at_def unmark_def
      key_def sample_result_def id_of_def)

theorem waiting_jobs_multiply_witness:
  "length (list_at (gds_pendingWrites ((work_round (\<lambda>p ks. ks) ^^ 9) sample_busy))
     (''qux'' @ jobKeySplit @ ''bar'')) = 1024"
proof -
  have "queue_ok (gds_pendingWrites sample_busy)" "queue_ok (gds_waitingOnRunningWrites sample_busy)"
    by (simp_all add: sample_busy_eq queue_ok_def key_def sample_result_def)
  note waiting_jobs_multiply [OF this valid_rng_id, of 9 "''qux'' @ jobKeySplit @ ''bar''"]
  moreover have "length (list_at (gds_pendingWrites sample_busy) (''qux'' @ jobKeySplit @ ''bar'')) = 2"
    "length (waiting_at sample_busy (''qux'' @ jobKeySplit @ ''bar'')) = 2"
    by (simp_all add: sample_busy_eq list_at_def waiting_at_def)
  ultimately show ?thesis by (simp only:) simp
qed

end
