(* ===== verification/Data_Store_Conc.thy ===== *)
theory Data_Store_Conc
  imports Data_Store
begin

text \<open>
  The goroutines of the git data store (controller/data_store.go): the pool workers
  (\<open>gitWorker.run\<close>) and the callers of \<open>Store\<close>, one per completed job. A critical section of
  \<open>writesLock\<close> that does not block is one step; the only goroutine that blocks while it holds
  the lock is a worker that sends on \<open>pendingWorkChan\<close> from \<open>markJobsCompleted\<close> (state
  \<open>Sending\<close>). The channel has no buffer, so a send and its receive are one step.
\<close>

section \<open>States and steps\<close>

datatype worker_pc =
    Receiving
  | TakingNext
  | Pushing "DataStoreJob list"
  | Marking "DataStoreJob list"
  | Sending

datatype store_pc = Storing DataStoreJob | StoreSending | StoreDone

record pool =
  p_store :: gitDataStore
  p_workers :: "worker_pc list"
  p_callers :: "store_pc list"
  p_accepted :: "DataStoreJob list"
  p_written :: "DataStoreJob list"

text \<open>\<open>p_accepted\<close> and \<open>p_written\<close> are histories: the results queued, and those given to \<open>pushJobs\<close>.\<close>

definition newGitDataStore_pool :: "nat \<Rightarrow> pool" where
  "newGitDataStore_pool n = \<lparr>p_store = empty_store, p_workers = replicate n Receiving,
     p_callers = [], p_accepted = [], p_written = []\<rparr>"

definition unlocked :: "pool \<Rightarrow> bool" where
  "unlocked s \<longleftrightarrow> Sending \<notin> set (p_workers s)"

definition after_next :: "DataStoreJob list \<Rightarrow> worker_pc" where
  "after_next jobs = (if length jobs > 0 then Pushing jobs else Marking jobs)"

definition after_mark :: "bool \<Rightarrow> worker_pc" where
  "after_mark anythingEnqueued = (if anythingEnqueued then Sending else Receiving)"

inductive pool_step :: "pool \<Rightarrow> pool \<Rightarrow> bool" where
  step_call: "pool_step s (s\<lparr>p_callers := p_callers s @ [Storing job]\<rparr>)"
| step_store: "i < length (p_callers s) \<Longrightarrow> p_callers s ! i = Storing job \<Longrightarrow> unlocked s \<Longrightarrow>
    pool_step s (s\<lparr>p_store := Store_job (p_store s) job, p_callers := (p_callers s)[i := StoreSending],
      p_accepted := p_accepted s @ [job]\<rparr>)"
| step_wake: "i < length (p_callers s) \<Longrightarrow> p_callers s ! i = StoreSending \<Longrightarrow>
    w < length (p_workers s) \<Longrightarrow> p_workers s ! w = Receiving \<Longrightarrow>
    pool_step s (s\<lparr>p_callers := (p_callers s)[i := StoreDone], p_workers := (p_workers s)[w := TakingNext]\<rparr>)"
| step_next: "w < length (p_workers s) \<Longrightarrow> p_workers s ! w = TakingNext \<Longrightarrow> unlocked s \<Longrightarrow> valid_rng r \<Longrightarrow>
    nextJobs r (p_store s) = (jobs, g) \<Longrightarrow>
    pool_step s (s\<lparr>p_store := g, p_workers := (p_workers s)[w := after_next jobs]\<rparr>)"
| step_push: "w < length (p_workers s) \<Longrightarrow> p_workers s ! w = Pushing jobs \<Longrightarrow>
    pool_step s (s\<lparr>p_workers := (p_workers s)[w := Marking jobs], p_written := p_written s @ jobs\<rparr>)"
| step_mark: "w < length (p_workers s) \<Longrightarrow> p_workers s ! w = Marking jobs \<Longrightarrow> unlocked s \<Longrightarrow>
    markJobsCompleted (p_store s) jobs = (g, anythingEnqueued) \<Longrightarrow>
    pool_step s (s\<lparr>p_store := g, p_workers := (p_workers s)[w := after_mark anythingEnqueued]\<rparr>)"
| step_pass: "v < length (p_workers s) \<Longrightarrow> p_workers s ! v = Sending \<Longrightarrow>
    w < length (p_workers s) \<Longrightarrow> p_workers s ! w = Receiving \<Longrightarrow>
    pool_step s (s\<lparr>p_workers := (p_workers s)[v := Receiving, w := TakingNext]\<rparr>)"

inductive_cases pool_stepE: "pool_step s s'"

inductive reachable :: "nat \<Rightarrow> pool \<Rightarrow> bool" for n where
  reach_init: "reachable n (newGitDataStore_pool n)"
| reach_step: "reachable n s \<Longrightarrow> pool_step s s' \<Longrightarrow> reachable n s'"

section \<open>Exclusion\<close>

fun batch :: "worker_pc \<Rightarrow> DataStoreJob list" where
  "batch (Pushing jobs) = jobs"
| "batch (Marking jobs) = jobs"
| "batch _ = []"

lemma batch_after [simp]: "batch (after_next jobs) = jobs" "batch (after_mark e) = []"
  by (simp_all add: after_next_def after_mark_def)

definition pool_ok :: "pool \<Rightarrow> bool" where
  "pool_ok s \<longleftrightarrow> store_inv (p_store s) (map batch (p_workers s))"

lemma map_batch_same:
  "w < length ws \<Longrightarrow> batch pc = batch (ws ! w) \<Longrightarrow> map batch (ws[w := pc]) = map batch ws"
  by (simp add: map_update list_update_same_conv)

lemma pool_step_ok:
  assumes "pool_step s s'" "pool_ok s"
  shows "pool_ok s'"
  using assms
proof (cases rule: pool_step.cases)
  case (step_next w r jobs g)
  have "store_inv (snd (nextJobs r (p_store s))) ((map batch (p_workers s))[w := fst (nextJobs r (p_store s))])"
    by (rule nextJobs_inv) (use step_next assms(2) in \<open>simp_all add: pool_ok_def\<close>)
  then show ?thesis using step_next by (simp add: pool_ok_def map_update)
next
  case (step_mark w jobs g e)
  have "store_inv (fst (markJobsCompleted (p_store s) (map batch (p_workers s) ! w)))
      ((map batch (p_workers s))[w := []])"
    by (rule markJobsCompleted_inv) (use step_mark assms(2) in \<open>simp_all add: pool_ok_def\<close>)
  then show ?thesis using step_mark by (simp add: pool_ok_def map_update)
next
  case (step_pass v w)
  then have "map batch ((p_workers s)[v := Receiving, w := TakingNext]) = map batch (p_workers s)"
    by (subst map_batch_same; simp add: map_batch_same nth_list_update)+
  then show ?thesis using step_pass assms(2) by (simp add: pool_ok_def)
qed (simp_all add: pool_ok_def Store_job_inv map_batch_same)

lemma pool_step_size: "pool_step s s' \<Longrightarrow> length (p_workers s') = length (p_workers s)"
  by (erule pool_stepE) simp_all

lemma reachable_ok: "reachable n s \<Longrightarrow> pool_ok s \<and> length (p_workers s) = n"
  by (induction rule: reachable.induct)
    (auto simp: newGitDataStore_pool_def pool_ok_def store_inv_empty pool_step_ok [unfolded pool_ok_def]
      pool_step_size)

text \<open>
  C6. Two pool workers never write results of the same job of the same device at the same
  time, in any interleaving of workers and callers, for any size of the pool.
\<close>

theorem pool_exclusive:
  assumes "reachable n s" and "v < n" and "w < n" and "v \<noteq> w"
    and "p_workers s ! v = Pushing jobs" and "p_workers s ! w = Pushing jobs'"
    and "j \<in> set jobs" and "j' \<in> set jobs'"
  shows "key j \<noteq> key j'"
proof -
  have "store_inv (p_store s) (map batch (p_workers s))" "length (p_workers s) = n"
    using reachable_ok [OF assms(1)] by (simp_all add: pool_ok_def)
  from store_inv_disjoint [OF this(1), of v w] this(2) assms show ?thesis by auto
qed

section \<open>Runs as lists of events\<close>

text \<open>An executable scheduler: every event it accepts is a step, so its runs reach reachable states.\<close>

datatype event = Call DataStoreJob | DoStore nat | Wake nat nat | Next nat | Push nat | Mark nat | Pass nat nat

fun fire :: "event \<Rightarrow> pool \<Rightarrow> pool option" where
  "fire (Call job) s = Some (s\<lparr>p_callers := p_callers s @ [Storing job]\<rparr>)"
| "fire (DoStore i) s =
     (if i < length (p_callers s) \<and> unlocked s then
        (case p_callers s ! i of Storing job \<Rightarrow>
           Some (s\<lparr>p_store := Store_job (p_store s) job, p_callers := (p_callers s)[i := StoreSending],
                   p_accepted := p_accepted s @ [job]\<rparr>)
         | _ \<Rightarrow> None) else None)"
| "fire (Wake i w) s =
     (if i < length (p_callers s) \<and> w < length (p_workers s) \<and> p_callers s ! i = StoreSending \<and>
         p_workers s ! w = Receiving then
        Some (s\<lparr>p_callers := (p_callers s)[i := StoreDone], p_workers := (p_workers s)[w := TakingNext]\<rparr>)
      else None)"
| "fire (Next w) s =
     (if w < length (p_workers s) \<and> p_workers s ! w = TakingNext \<and> unlocked s then
        (case nextJobs (\<lambda>p ks. ks) (p_store s) of (jobs, g) \<Rightarrow>
           Some (s\<lparr>p_store := g, p_workers := (p_workers s)[w := after_next jobs]\<rparr>))
      else None)"
| "fire (Push w) s =
     (if w < length (p_workers s) then
        (case p_workers s ! w of Pushing jobs \<Rightarrow>
           Some (s\<lparr>p_workers := (p_workers s)[w := Marking jobs], p_written := p_written s @ jobs\<rparr>)
         | _ \<Rightarrow> None) else None)"
| "fire (Mark w) s =
     (if w < length (p_workers s) \<and> unlocked s then
        (case p_workers s ! w of Marking jobs \<Rightarrow>
           (case markJobsCompleted (p_store s) jobs of (g, e) \<Rightarrow>
             Some (s\<lparr>p_store := g, p_workers := (p_workers s)[w := after_mark e]\<rparr>))
         | _ \<Rightarrow> None) else None)"
| "fire (Pass v w) s =
     (if v < length (p_workers s) \<and> w < length (p_workers s) \<and> p_workers s ! v = Sending \<and>
         p_workers s ! w = Receiving then
        Some (s\<lparr>p_workers := (p_workers s)[v := Receiving, w := TakingNext]\<rparr>)
      else None)"

fun fire_all :: "event list \<Rightarrow> pool \<Rightarrow> pool option" where
  "fire_all [] s = Some s"
| "fire_all (e # es) s = (case fire e s of None \<Rightarrow> None | Some s' \<Rightarrow> fire_all es s')"

lemma fire_step: "fire e s = Some s' \<Longrightarrow> pool_step s s'"
  by (cases e) (auto split: if_splits store_pc.splits worker_pc.splits prod.splits
      intro: pool_step.intros step_next [OF _ _ _ valid_rng_id])

lemma fire_all_reachable: "fire_all es s = Some s' \<Longrightarrow> reachable n s \<Longrightarrow> reachable n s'"
  by (induction es s rule: fire_all.induct) (auto split: option.splits intro: reach_step fire_step)

lemma run_reachable: "fire_all es (newGitDataStore_pool n) = Some s \<Longrightarrow> reachable n s"
  by (rule fire_all_reachable [OF _ reach_init])

definition sample_other :: DataStoreJob where
  "sample_other = (sample_result ''x'' 60)\<lparr>dsj_DeviceName := ''quux''\<rparr>"

lemmas run_simps = newGitDataStore_pool_def unlocked_def empty_store_def Store_job_def append_at_def
  nextJobs_def go_range_def take_key_def markJobsCompleted_def mark_one_def
  waiting_at_def unmark_def after_next_def after_mark_def Let_def

lemma sample_two_writers:
  "\<exists>s. fire_all [Call (sample_result ''a'' 60), DoStore 0, Wake 0 0, Next 0,
       Call sample_other, DoStore 1, Wake 1 1, Next 1] (newGitDataStore_pool 2) = Some s \<and>
     p_workers s = [Pushing [sample_result ''a'' 60], Pushing [sample_other]]"
  by (simp add: run_simps numeral_2_eq_2 key_def sample_result_def sample_other_def jobKeySplit_def)

theorem pool_exclusive_witness:
  "key (sample_result ''a'' 60) \<noteq> key sample_other"
proof -
  obtain s where s: "fire_all [Call (sample_result ''a'' 60), DoStore 0, Wake 0 0, Next 0,
       Call sample_other, DoStore 1, Wake 1 1, Next 1] (newGitDataStore_pool 2) = Some s"
    "p_workers s = [Pushing [sample_result ''a'' 60], Pushing [sample_other]]"
    using sample_two_writers by blast
  show ?thesis
    by (rule pool_exclusive [OF run_reachable [OF s(1)], of 0 1 "[sample_result ''a'' 60]" "[sample_other]"])
      (simp_all add: s(2))
qed

section \<open>No result is lost\<close>

definition kept :: "pool \<Rightarrow> DataStoreJob \<Rightarrow> bool" where
  "kept s j \<longleftrightarrow>
     j \<in> set (list_at (gds_pendingWrites (p_store s)) (key j)) \<or>
     j \<in> set (list_at (gds_waitingOnRunningWrites (p_store s)) (key j)) \<or>
     (\<exists>jobs. Pushing jobs \<in> set (p_workers s) \<and> j \<in> set jobs) \<or> j \<in> set (p_written s)"

lemma list_at_Store_job:
  "gds_pendingWrites (Store_job g job) = gds_pendingWrites g \<and>
     list_at (gds_waitingOnRunningWrites (Store_job g job)) k =
       list_at (gds_waitingOnRunningWrites g) k @ (if k = key job then [job] else []) \<or>
   gds_waitingOnRunningWrites (Store_job g job) = gds_waitingOnRunningWrites g \<and>
     list_at (gds_pendingWrites (Store_job g job)) k =
       list_at (gds_pendingWrites g) k @ (if k = key job then [job] else [])"
  by (simp add: Store_job_def list_at_append split: option.split)

lemma Store_job_kept:
  "kept s j \<Longrightarrow> kept (s\<lparr>p_store := Store_job (p_store s) job, p_callers := cs, p_accepted := a\<rparr>) j"
  "kept (s\<lparr>p_store := Store_job (p_store s) job, p_callers := cs, p_accepted := a\<rparr>) job"
  using list_at_Store_job [of "p_store s" job "key j"] list_at_Store_job [of "p_store s" job "key job"]
  by (auto simp: kept_def)

lemma set_update_keeps: "x \<in> set ws \<Longrightarrow> ws ! w \<noteq> x \<Longrightarrow> x \<in> set (ws[w := pc])"
  by (metis in_set_conv_nth length_list_update nth_list_update_neq)

definition pushed :: "pool \<Rightarrow> DataStoreJob \<Rightarrow> bool" where
  "pushed s j \<longleftrightarrow> (\<exists>jobs. Pushing jobs \<in> set (p_workers s) \<and> j \<in> set jobs)"

lemma kept_iff:
  "kept s j \<longleftrightarrow> j \<in> set (list_at (gds_pendingWrites (p_store s)) (key j)) \<or>
     j \<in> set (list_at (gds_waitingOnRunningWrites (p_store s)) (key j)) \<or> pushed s j \<or> j \<in> set (p_written s)"
  by (simp add: kept_def pushed_def)

lemma pushed_keeps:
  "pushed s j \<Longrightarrow> p_workers s' = (p_workers s)[w := pc] \<Longrightarrow> \<forall>jobs. p_workers s ! w \<noteq> Pushing jobs \<Longrightarrow> pushed s' j"
  unfolding pushed_def by (metis set_update_keeps)

lemma next_kept:
  assumes "pool_ok s" "kept s j" "w < length (p_workers s)" "p_workers s ! w = TakingNext" "valid_rng r"
    and "nextJobs r (p_store s) = (jobs, g)"
  shows "kept (s\<lparr>p_store := g, p_workers := (p_workers s)[w := after_next jobs]\<rparr>) j" (is "kept ?s j")
proof (cases "j \<in> set (list_at (gds_pendingWrites (p_store s)) (key j))")
  case True
  have "queue_ok (gds_pendingWrites (p_store s))"
    using assms(1) by (simp add: pool_ok_def store_inv_queues)
  from nextJobs_jobs [OF this assms(5), of "key j"] True assms(6) have "j \<in> set jobs"
    by (metis filter_is_subset fst_conv subsetD)
  moreover from this have "after_next jobs = Pushing jobs" by (auto simp: after_next_def)
  then have "Pushing jobs \<in> set (p_workers ?s)" using assms(3) by (simp add: set_update_memI)
  ultimately have "pushed ?s j" unfolding pushed_def by blast
  then show ?thesis by (simp add: kept_iff)
next
  case False
  have "gds_waitingOnRunningWrites g = gds_waitingOnRunningWrites (p_store s)"
    using nextJobs_frame(2) [of r "p_store s"] assms(6) by simp
  moreover have "pushed s j \<Longrightarrow> pushed ?s j"
    by (erule pushed_keeps [where w = w and pc = "after_next jobs"]) (simp_all add: assms(4))
  ultimately show ?thesis using assms(2) False by (auto simp: kept_iff)
qed

lemma mark_kept:
  assumes "kept s j" "p_workers s ! w = Marking jobs"
    and "markJobsCompleted (p_store s) jobs = (g, e)"
  shows "kept (s\<lparr>p_store := g, p_workers := (p_workers s)[w := after_mark e]\<rparr>) j" (is "kept ?s j")
proof -
  have "gds_waitingOnRunningWrites g = gds_waitingOnRunningWrites (p_store s)"
    "set (list_at (gds_pendingWrites (p_store s)) k) \<subseteq> set (list_at (gds_pendingWrites g) k)" for k
    using markJobsCompleted_frame(1) [of "p_store s" jobs]
      markJobsCompleted_pending [of "p_store s" jobs k] assms(3) by simp_all
  moreover have "pushed s j \<Longrightarrow> pushed ?s j"
    by (erule pushed_keeps [where w = w and pc = "after_mark e"]) (simp_all add: assms(2))
  ultimately show ?thesis using assms(1) by (auto simp: kept_iff)
qed

lemma push_kept:
  assumes "kept s j" "p_workers s ! w = Pushing jobs"
  shows "kept (s\<lparr>p_workers := (p_workers s)[w := Marking jobs], p_written := p_written s @ jobs\<rparr>) j" (is "kept ?s j")
proof -
  have "pushed ?s j \<or> j \<in> set jobs" if p: "pushed s j"
  proof -
    obtain js where js: "Pushing js \<in> set (p_workers s)" "j \<in> set js"
      using p unfolding pushed_def by blast
    show ?thesis
    proof (cases "js = jobs")
      case False
      then have "Pushing js \<in> set (p_workers ?s)" using js(1) assms(2) by (simp add: set_update_keeps)
      then show ?thesis using js(2) unfolding pushed_def by blast
    qed (use js(2) in simp)
  qed
  then show ?thesis using assms(1) by (auto simp: kept_iff)
qed

lemma wake_kept:
  assumes "kept s j" "p_workers s ! w = Receiving"
  shows "kept (s\<lparr>p_callers := cs, p_workers := (p_workers s)[w := TakingNext]\<rparr>) j" (is "kept ?s j")
proof -
  have "pushed s j \<Longrightarrow> pushed ?s j"
    by (erule pushed_keeps [where w = w and pc = TakingNext]) (simp_all add: assms(2))
  then show ?thesis using assms(1) by (auto simp: kept_iff)
qed

lemma pass_kept:
  assumes "kept s j" "p_workers s ! v = Sending" "p_workers s ! w = Receiving"
  shows "kept (s\<lparr>p_workers := (p_workers s)[v := Receiving, w := TakingNext]\<rparr>) j" (is "kept ?s j")
proof -
  have "v \<noteq> w" using assms(2,3) by auto
  have "pushed s j \<Longrightarrow> pushed (s\<lparr>p_workers := (p_workers s)[v := Receiving]\<rparr>) j"
    by (erule pushed_keeps [where w = v and pc = Receiving]) (simp_all add: assms(2))
  moreover have "pushed (s\<lparr>p_workers := (p_workers s)[v := Receiving]\<rparr>) j \<Longrightarrow> pushed ?s j"
    by (erule pushed_keeps [where w = w and pc = TakingNext]) (simp_all add: assms(3) \<open>v \<noteq> w\<close>)
  ultimately show ?thesis using assms(1) by (auto simp: kept_iff)
qed

lemma pool_step_kept: "pool_step s s' \<Longrightarrow> pool_ok s \<Longrightarrow> kept s j \<Longrightarrow> kept s' j"
  by (erule pool_stepE)
    (simp_all add: next_kept mark_kept push_kept wake_kept pass_kept Store_job_kept, simp add: kept_def)

lemma pool_step_accepted:
  assumes "pool_step s s'" "j \<in> set (p_accepted s')"
  shows "j \<in> set (p_accepted s) \<or> kept s' j"
  using assms by (cases rule: pool_step.cases) (auto simp: Store_job_kept)


lemma sample_one_writer:
  "\<exists>s. fire_all [Call (sample_result ''a'' 60), DoStore 0, Wake 0 0, Next 0, Push 0]
       (newGitDataStore_pool 1) = Some s \<and>
     p_accepted s = [sample_result ''a'' 60] \<and> p_store s = empty_store\<lparr>gds_runningWriteIds :=
       [(key (sample_result ''a'' 60), [(id_of (sample_result ''a'' 60), True)])]\<rparr> \<and>
     p_workers s = [Marking [sample_result ''a'' 60]]"
  by (simp add: run_simps)


section \<open>No wake-up is lost\<close>

definition awake :: "pool \<Rightarrow> bool" where
  "awake s \<longleftrightarrow> StoreSending \<in> set (p_callers s) \<or> TakingNext \<in> set (p_workers s) \<or> Sending \<in> set (p_workers s)"

lemma after_mark_pending:
  assumes "markJobsCompleted g jobs = (g', e)" "queue_ok (gds_pendingWrites g')"
    "queue_ok (gds_pendingWrites g)" "gds_pendingWrites g' \<noteq> []" "\<not> e"
  shows "gds_pendingWrites g \<noteq> []"
proof -
  obtain k js m where "gds_pendingWrites g' = (k, js) # m"
    using assms(4) by (metis list.exhaust surj_pair)
  then have "list_at (gds_pendingWrites g') k \<noteq> []" using assms(2) by (simp add: list_at_def queue_ok_def)
  moreover have "list_at (gds_pendingWrites g') k = list_at (gds_pendingWrites g) k"
  proof -
    have "\<forall>j \<in> set jobs. waiting_at g (key j) = []"
      using markJobsCompleted_flag [of g jobs] assms(1,5) by simp
    then have "filter (\<lambda>j. key j = k) jobs = [] \<or> waiting_at g k = []"
      by (auto simp: filter_empty_conv)
    then show ?thesis using markJobsCompleted_pending [of g jobs k] assms(1) by auto
  qed
  ultimately show ?thesis by (auto simp: list_at_def)
qed

lemma pool_step_awake:
  assumes "pool_step s s'" "pool_ok s" "gds_pendingWrites (p_store s) \<noteq> [] \<longrightarrow> awake s"
    and "gds_pendingWrites (p_store s') \<noteq> []"
  shows "awake s'"
  using assms(1)
proof (cases rule: pool_step.cases)
  case (step_call job)
  then show ?thesis using assms(3,4) by (auto simp: awake_def)
next
  case (step_store i job)
  then show ?thesis by (auto simp: awake_def set_update_memI)
next
  case (step_wake i w)
  then show ?thesis by (auto simp: awake_def set_update_memI)
next
  case (step_next w r jobs g)
  then have "gds_pendingWrites g = []" using nextJobs_frame(1) [of r "p_store s"] by simp
  then show ?thesis using step_next assms(4) by simp
next
  case (step_push w jobs)
  then have "awake s" using assms(3,4) by simp
  moreover have "x \<in> set ((p_workers s)[w := Marking jobs])"
    if "x \<in> set (p_workers s)" "x = TakingNext \<or> x = Sending" for x
    using set_update_keeps [OF that(1)] step_push that(2) by auto
  ultimately show ?thesis using step_push by (auto simp: awake_def)
next
  case (step_mark w jobs g e)
  show ?thesis
  proof (cases e)
    case True
    then show ?thesis using step_mark by (auto simp: awake_def after_mark_def set_update_memI)
  next
    case False
    have inv: "store_inv (p_store s) (map batch (p_workers s))" using assms(2) by (simp add: pool_ok_def)
    have "pool_ok s'" by (rule pool_step_ok [OF assms(1,2)])
    then have "queue_ok (gds_pendingWrites g)" using step_mark by (simp add: pool_ok_def store_inv_queues)
    from after_mark_pending [OF step_mark(5) this store_inv_queues(1) [OF inv]] False assms(4) step_mark
    have "awake s" using assms(3) by simp
    moreover have "TakingNext \<in> set ((p_workers s)[w := after_mark e])" if "TakingNext \<in> set (p_workers s)"
      using set_update_keeps [OF that] step_mark by simp
    ultimately show ?thesis using step_mark by (auto simp: awake_def unlocked_def)
  qed
next
  case (step_pass v w)
  then show ?thesis by (auto simp: awake_def set_update_memI)
qed

lemma reachable_awake: "reachable n s \<Longrightarrow> gds_pendingWrites (p_store s) \<noteq> [] \<Longrightarrow> awake s"
proof (induction rule: reachable.induct)
  case reach_init
  then show ?case by (simp add: newGitDataStore_pool_def empty_store_def)
next
  case (reach_step s s')
  then show ?case using pool_step_awake reachable_ok by blast
qed

text \<open>
  C28. No wake-up is lost: whenever results are pending, some goroutine is about to make a
  worker look at them, either one that sends on the channel or a worker that has received
  and goes on to call \<open>nextJobs\<close>.
\<close>

theorem pending_has_wakeup:
  assumes "reachable n s" and "gds_pendingWrites (p_store s) \<noteq> []"
  shows "StoreSending \<in> set (p_callers s) \<or> TakingNext \<in> set (p_workers s) \<or> Sending \<in> set (p_workers s)"
  using reachable_awake [OF assms] by (simp add: awake_def)

lemma sample_pending:
  "\<exists>s. fire_all [Call (sample_result ''a'' 60), DoStore 0] (newGitDataStore_pool 1) = Some s \<and>
     gds_pendingWrites (p_store s) \<noteq> [] \<and> p_workers s = [Receiving]"
  by (simp add: run_simps)

theorem pending_has_wakeup_witness:
  "\<exists>s. reachable 1 s \<and> StoreSending \<in> set (p_callers s)"
proof -
  obtain s where s: "fire_all [Call (sample_result ''a'' 60), DoStore 0] (newGitDataStore_pool 1) = Some s"
    "gds_pendingWrites (p_store s) \<noteq> []" "p_workers s = [Receiving]" using sample_pending by blast
  then show ?thesis using pending_has_wakeup [OF run_reachable [OF s(1)] s(2)] run_reachable [OF s(1)] by auto
qed

section \<open>The pool can deadlock\<close>

text \<open>A worker sends while it holds the lock and none is left to receive: only new calls can be made.\<close>

definition wedged :: "pool \<Rightarrow> bool" where
  "wedged s \<longleftrightarrow> Sending \<in> set (p_workers s) \<and> Receiving \<notin> set (p_workers s) \<and>
     (\<forall>jobs. Pushing jobs \<notin> set (p_workers s))"

lemma wedged_step:
  assumes "pool_step s s'" "wedged s"
  shows "\<exists>cs. s' = s\<lparr>p_callers := cs\<rparr>"
  using assms by (cases rule: pool_step.cases) (auto simp: wedged_def unlocked_def dest!: nth_mem)

lemma wedged_steps: "pool_step\<^sup>*\<^sup>* s s' \<Longrightarrow> wedged s \<Longrightarrow> \<exists>cs. s' = s\<lparr>p_callers := cs\<rparr>"
proof (induction rule: rtranclp_induct)
  case base
  have "s = s\<lparr>p_callers := p_callers s\<rparr>" by simp
  then show ?case by blast
next
  case (step t u)
  then obtain cs where t: "t = s\<lparr>p_callers := cs\<rparr>" by blast
  with step have "wedged t" by (simp add: wedged_def)
  from wedged_step [OF step(2) this] t show ?case by auto
qed

text \<open>While a worker writes, results of its key wake the others, which find nothing to do.\<close>

definition busy_workers :: "nat \<Rightarrow> nat \<Rightarrow> DataStoreJob \<Rightarrow> worker_pc list" where
  "busy_workers n m j = Pushing [j] # replicate m TakingNext @ replicate (n - m) Receiving"

lemma busy_unlocked: "p_workers s = busy_workers n m j \<Longrightarrow> unlocked s"
  by (auto simp: unlocked_def busy_workers_def)

lemma store_waiting:
  assumes "reachable n s" "map_of (gds_runningWriteIds (p_store s)) (key j) \<noteq> None" "unlocked s"
  shows "\<exists>s'. reachable n s' \<and> p_workers s' = p_workers s \<and>
    gds_runningWriteIds (p_store s') = gds_runningWriteIds (p_store s) \<and>
    waiting_at (p_store s') (key j) \<noteq> [] \<and> p_callers s' = p_callers s @ [StoreSending]"
proof -
  let ?t = "s\<lparr>p_callers := p_callers s @ [Storing j]\<rparr>"
  let ?u = "?t\<lparr>p_store := Store_job (p_store ?t) j,
    p_callers := (p_callers ?t)[length (p_callers s) := StoreSending], p_accepted := p_accepted ?t @ [j]\<rparr>"
  have "pool_step ?t ?u"
    by (rule step_store) (use assms(3) in \<open>simp_all add: unlocked_def\<close>)
  then have "reachable n ?u" using assms(1) reach_step step_call by blast
  moreover obtain ids where "map_of (gds_runningWriteIds (p_store s)) (key j) = Some ids"
    using assms(2) by blast
  then have "Store_job (p_store s) j = (p_store s)\<lparr>gds_waitingOnRunningWrites :=
      append_at (key j) j (gds_waitingOnRunningWrites (p_store s))\<rparr>" by (simp add: Store_job_def)
  then have "gds_runningWriteIds (p_store ?u) = gds_runningWriteIds (p_store s)"
    "waiting_at (p_store ?u) (key j) \<noteq> []"
    by (simp_all add: waiting_at_list_at list_at_append)
  ultimately show ?thesis by (intro exI [of _ ?u]) simp
qed

lemma busy_reachable:
  "m \<le> n \<Longrightarrow> \<exists>s. reachable (Suc n) s \<and> p_workers s = busy_workers n m j \<and>
     map_of (gds_runningWriteIds (p_store s)) (key j) \<noteq> None"
proof (induction m)
  case 0
  have "\<exists>s. fire_all [Call j, DoStore 0, Wake 0 0, Next 0] (newGitDataStore_pool (Suc n)) = Some s \<and>
      p_workers s = busy_workers n 0 j \<and> gds_runningWriteIds (p_store s) = [(key j, [(id_of j, True)])]"
    by (simp add: run_simps busy_workers_def)
  then show ?case using run_reachable by fastforce
next
  case (Suc m)
  then obtain s where s: "reachable (Suc n) s" "p_workers s = busy_workers n m j"
    "map_of (gds_runningWriteIds (p_store s)) (key j) \<noteq> None" by auto
  from store_waiting [OF s(1,3) busy_unlocked [OF s(2)]] obtain t where
    t: "reachable (Suc n) t" "p_workers t = p_workers s"
    "gds_runningWriteIds (p_store t) = gds_runningWriteIds (p_store s)"
    "p_callers t = p_callers s @ [StoreSending]" by blast
  let ?i = "length (p_callers s)"
  let ?u = "t\<lparr>p_callers := (p_callers t)[?i := StoreDone], p_workers := (p_workers t)[Suc m := TakingNext]\<rparr>"
  have m: "n - m = Suc (n - Suc m)" using Suc.prems by simp
  have "pool_step t ?u"
    by (rule step_wake) (use t(2,4) s(2) m in \<open>simp_all add: busy_workers_def nth_append\<close>)
  moreover have "p_workers ?u = busy_workers n (Suc m) j"
    using t(2) s(2) m by (simp add: busy_workers_def list_update_append replicate_append_same)
  ultimately show ?case
    using reach_step [OF t(1)] t(3) s(3) by (intro exI [of _ ?u]) simp
qed

lemma wedged_reachable: "\<exists>s. reachable (Suc n) s \<and> wedged s \<and> gds_pendingWrites (p_store s) \<noteq> []"
proof -
  obtain j :: DataStoreJob where True by blast
  obtain s where s: "reachable (Suc n) s" "p_workers s = busy_workers n n j"
    "map_of (gds_runningWriteIds (p_store s)) (key j) \<noteq> None" using busy_reachable [of n n j] by auto
  from store_waiting [OF s(1,3) busy_unlocked [OF s(2)]] obtain t where
    t: "reachable (Suc n) t" "p_workers t = busy_workers n n j" "waiting_at (p_store t) (key j) \<noteq> []"
    using s(2) by auto
  let ?u = "t\<lparr>p_workers := (p_workers t)[0 := Marking [j]], p_written := p_written t @ [j]\<rparr>"
  have "pool_step t ?u" by (rule step_push) (simp_all add: t(2) busy_workers_def)
  with t(1) have u: "reachable (Suc n) ?u" by (rule reach_step)
  obtain g e where g: "markJobsCompleted (p_store t) [j] = (g, e)" by fastforce
  have e: "e" using markJobsCompleted_flag [of "p_store t" "[j]"] t(3) g by simp
  let ?v = "?u\<lparr>p_store := g, p_workers := (p_workers ?u)[0 := after_mark e]\<rparr>"
  have "pool_step ?u ?v"
    by (rule step_mark [where jobs = "[j]"]) (simp_all add: t(2) busy_workers_def unlocked_def g)
  with u have "reachable (Suc n) ?v" by (rule reach_step)
  moreover have "wedged ?v" using e by (auto simp: wedged_def t(2) busy_workers_def after_mark_def)
  moreover have "list_at (gds_pendingWrites g) (key j) \<noteq> []"
    using markJobsCompleted_pending [of "p_store t" "[j]" "key j"] t(3) g by simp
  then have "gds_pendingWrites (p_store ?v) \<noteq> []" by (auto simp: list_at_def)
  ultimately show ?thesis by blast
qed

text \<open>
  C35. The pool can deadlock, whatever its size: \<open>markJobsCompleted\<close> sends on the channel
  while it holds the lock, and when every other worker is past its receive (waiting for the
  lock) nobody is left to take the value. From a reachable state with results pending no
  sequence of steps queues, writes or completes anything any more; only further calls of
  \<open>Store\<close> pile up.
\<close>

theorem pool_can_deadlock:
  assumes "0 < n"
  shows "\<exists>s. reachable n s \<and> gds_pendingWrites (p_store s) \<noteq> [] \<and>
    (\<forall>s'. pool_step\<^sup>*\<^sup>* s s' \<longrightarrow> p_store s' = p_store s \<and> p_workers s' = p_workers s \<and>
       p_accepted s' = p_accepted s \<and> p_written s' = p_written s)"
proof -
  obtain n' where "n = Suc n'" using assms by (cases n) auto
  then obtain s where s: "reachable n s" "wedged s" "gds_pendingWrites (p_store s) \<noteq> []"
    using wedged_reachable by blast
  have "p_store s' = p_store s \<and> p_workers s' = p_workers s \<and>
       p_accepted s' = p_accepted s \<and> p_written s' = p_written s" if "pool_step\<^sup>*\<^sup>* s s'" for s'
    using wedged_steps [OF that s(2)] by auto
  with s show ?thesis by blast
qed

theorem pool_can_deadlock_witness:
  "\<exists>s. reachable 20 s \<and> gds_pendingWrites (p_store s) \<noteq> [] \<and>
    (\<forall>s'. pool_step\<^sup>*\<^sup>* s s' \<longrightarrow> p_written s' = p_written s)"
proof -
  have "(0 :: nat) < 20" by simp
  from pool_can_deadlock [OF this] show ?thesis by blast
qed

end
