(* ===== verification/Actions.thy ===== *)
theory Actions
  imports Prelude
begin

text \<open>
  Code that talks to the outside (the operating system, git, a device, the controller). Every
  interaction is an event; the answers come from a parameter that may depend on the whole
  history of events, so nothing is assumed of the outside or of its timing. An action takes
  the history and returns its outcome with the longer history.
\<close>

section \<open>Actions\<close>

type_synonym ('e, 'a) action = "'e list \<Rightarrow> 'a res \<times> 'e list"

definition act_ok :: "'a \<Rightarrow> ('e, 'a) action" where
  "act_ok a h = (Ok a, h)"

definition act_err :: "string \<Rightarrow> ('e, 'a) action" where
  "act_err e h = (Err e, h)"

definition act_panic :: "string \<Rightarrow> ('e, 'a) action" where
  "act_panic p h = (Panic p, h)"

definition act_bind :: "('e, 'a) action \<Rightarrow> ('a \<Rightarrow> ('e, 'b) action) \<Rightarrow> ('e, 'b) action" where
  "act_bind m f h = (case m h of (Ok a, h') \<Rightarrow> f a h' | (Err e, h') \<Rightarrow> (Err e, h') | (Panic p, h') \<Rightarrow> (Panic p, h'))"

text \<open>A computation that does not touch the outside.\<close>

definition act_res :: "'a res \<Rightarrow> ('e, 'a) action" where
  "act_res r h = (r, h)"

text \<open>\<open>act_wrap\<close> is \<open>if err != nil { return wrap(err) }\<close>, \<open>act_try\<close> keeps the error as a value.\<close>

definition act_wrap :: "(string \<Rightarrow> string) \<Rightarrow> ('e, 'a) action \<Rightarrow> ('e, 'a) action" where
  "act_wrap f m h = (case m h of (out, h') \<Rightarrow> (map_err f out, h'))"

definition act_try :: "('e, 'a) action \<Rightarrow> ('e, string option) action" where
  "act_try m h = (case m h of (Ok a, h') \<Rightarrow> (Ok None, h') | (Err e, h') \<Rightarrow> (Ok (Some e), h')
    | (Panic p, h') \<Rightarrow> (Panic p, h'))"

text \<open>An interaction with the outside: the answer may depend on everything that happened before.\<close>

definition ask :: "('e list \<Rightarrow> 'e \<Rightarrow> 'b) \<Rightarrow> 'e \<Rightarrow> ('e, 'b) action" where
  "ask env ev h = (Ok (env h ev), h @ [ev])"

text \<open>\<open>act_finally m c\<close> runs the deferred call \<open>c\<close> when \<open>m\<close> returns or panics; its error is dropped.\<close>

definition act_finally :: "('e, 'a) action \<Rightarrow> ('e, 'b) action \<Rightarrow> ('e, 'a) action" where
  "act_finally m c h = (case m h of (out, h') \<Rightarrow>
     (case c h' of (Panic p, h'') \<Rightarrow> (Panic p, h'') | (_, h'') \<Rightarrow> (out, h'')))"

fun act_each :: "('x \<Rightarrow> ('e, unit) action) \<Rightarrow> 'x list \<Rightarrow> ('e, unit) action" where
  "act_each f [] = act_ok ()"
| "act_each f (x # xs) = act_bind (f x) (\<lambda>_. act_each f xs)"

lemma act_bind_ok [simp]: "act_bind (act_ok a) f = f a"
  by (rule ext) (simp add: act_bind_def act_ok_def)

lemma act_bind_assoc: "act_bind (act_bind m f) g = act_bind m (\<lambda>a. act_bind (f a) g)"
  by (rule ext) (simp add: act_bind_def split: prod.split res.split)

text \<open>
  \<open>act_only P m\<close>: whatever the answers, \<open>m\<close> does not panic, extends the history, and all the
  events it adds satisfy \<open>P\<close>.
\<close>

definition act_only :: "('e \<Rightarrow> bool) \<Rightarrow> ('e, 'a) action \<Rightarrow> bool" where
  "act_only P m \<longleftrightarrow> (\<forall>h. \<not> is_panic (fst (m h)) \<and> (\<exists>evs. snd (m h) = h @ evs \<and> (\<forall>e \<in> set evs. P e)))"

named_theorems act_intros \<open>introduction rules of act_only\<close>

lemma act_only_ok [act_intros]: "act_only P (act_ok a)"
  by (simp add: act_only_def act_ok_def)

lemma act_only_err [act_intros]: "act_only P (act_err e)"
  by (simp add: act_only_def act_err_def)

lemma act_only_res [act_intros]: "\<not> is_panic r \<Longrightarrow> act_only P (act_res r)"
  by (simp add: act_only_def act_res_def)

lemma act_only_ask [act_intros]: "P ev \<Longrightarrow> act_only P (ask env ev)"
  by (simp add: act_only_def ask_def)

lemma act_only_bind [act_intros]:
  assumes "act_only P m" "\<And>a. act_only P (f a)"
  shows "act_only P (act_bind m f)"
  unfolding act_only_def
proof
  fix h
  obtain out h1 where m: "m h = (out, h1)" by fastforce
  obtain evs where 1: "\<not> is_panic out" "h1 = h @ evs" "\<forall>e \<in> set evs. P e"
    using assms(1) m unfolding act_only_def by (metis fst_conv snd_conv)
  show "\<not> is_panic (fst (act_bind m f h)) \<and>
      (\<exists>evs. snd (act_bind m f h) = h @ evs \<and> (\<forall>e \<in> set evs. P e))"
  proof (cases out)
    case (Ok a)
    obtain evs' where "\<not> is_panic (fst (f a h1))" "snd (f a h1) = h1 @ evs'" "\<forall>e \<in> set evs'. P e"
      using assms(2) [of a] unfolding act_only_def by blast
    with 1 Ok m show ?thesis
      by (auto simp: act_bind_def intro!: exI [of _ "evs @ evs'"])
  qed (use 1 m in \<open>auto simp: act_bind_def\<close>)
qed

lemma act_only_wrap [act_intros]: "act_only P m \<Longrightarrow> act_only P (act_wrap f m)"
  by (simp add: act_only_def act_wrap_def map_err_Panic_iff split_beta)

lemma act_try_frame: "snd (act_try m h) = snd (m h)" "is_panic (fst (act_try m h)) = is_panic (fst (m h))"
  by (cases "m h"; cases "fst (m h)"; simp add: act_try_def)+

lemma act_only_try [act_intros]: "act_only P m \<Longrightarrow> act_only P (act_try m)"
  by (simp add: act_only_def act_try_frame)

lemma act_only_each [act_intros]: "(\<And>x. x \<in> set xs \<Longrightarrow> act_only P (f x)) \<Longrightarrow> act_only P (act_each f xs)"
  by (induction xs) (auto intro!: act_intros)

lemma act_only_if [act_intros]: "(b \<Longrightarrow> act_only P m) \<Longrightarrow> (\<not> b \<Longrightarrow> act_only P n) \<Longrightarrow> act_only P (if b then m else n)"
  by simp

lemma act_only_option [act_intros]:
  "(x = None \<Longrightarrow> act_only P m) \<Longrightarrow> (\<And>y. x = Some y \<Longrightarrow> act_only P (f y)) \<Longrightarrow>
    act_only P (case x of None \<Rightarrow> m | Some y \<Rightarrow> f y)"
  by (cases x) simp_all

lemma act_only_weaken: "act_only P m \<Longrightarrow> (\<And>e. P e \<Longrightarrow> Q e) \<Longrightarrow> act_only Q m"
  unfolding act_only_def by metis

end
