(* ===== verification/Git_Os.thy ===== *)
theory Git_Os
  imports Data_Store Config_Types Actions
begin

text \<open>
  What the controller asks of the operating system, above all the git data store
  (controller/data_store.go). Every call
  is an event; the answers come from a parameter of type \<open>os\<close>, which may depend on the whole
  history of events, so nothing is assumed of the file system, of git or of their timing. An
  action takes the history and returns its outcome with the longer history. The formatting
  of times and durations in commit messages and \<open>mail.ParseAddress\<close> are parameters as well
  (\<open>text_lib\<close>), as is what \<open>Sprintf\<close> makes of the end of a format string when no arguments are
  left; \<open>path.Join\<close> and \<open>filepath.Join\<close> are modelled.
\<close>

section \<open>Events\<close>

datatype os_event =
    EvGetwd
  | EvStat string
  | EvEnviron
  | EvMkdirAll string
  | EvOpen string
  | EvWrite string string
  | EvPipe
  | EvStart string "string list option" "string list"
  | EvOut
  | EvStdin string
  | EvWait
  | EvReadFile string
  | EvSyslog string
  | EvListen string "(string \<times> string) option"

record answer =
  an_err :: "string option"
  an_notExist :: bool
  an_isDir :: bool
  an_text :: string
  an_list :: "string list"

type_synonym os = "os_event list \<Rightarrow> os_event \<Rightarrow> answer"

type_synonym 'a act = "(os_event, 'a) action"

record text_lib =
  tl_ANSIC :: "gotime \<Rightarrow> string"
  tl_Duration :: "int \<Rightarrow> string"
  tl_ParseAddress :: "string \<Rightarrow> string option"
  tl_NoArgs :: "string \<Rightarrow> string"

abbreviation os_call :: "os \<Rightarrow> os_event \<Rightarrow> answer act" where
  "os_call os ev \<equiv> ask os ev"

text \<open>A call whose only result is an error.\<close>

definition os_do :: "os \<Rightarrow> os_event \<Rightarrow> (string \<Rightarrow> string) \<Rightarrow> unit act" where
  "os_do os ev f = act_bind (os_call os ev) (\<lambda>a.
     case an_err a of Some err \<Rightarrow> act_err (f err) | None \<Rightarrow> act_ok ())"

lemma act_only_do [act_intros]: "P ev \<Longrightarrow> act_only P (os_do os ev f)"
  unfolding os_do_def by (intro act_intros) (auto split: option.split intro: act_intros)

section \<open>Paths\<close>

text \<open>
  \<open>path.Clean\<close> (and \<open>filepath.Clean\<close> on Unix): the elements between slashes, without empty
  ones and \<open>.\<close>, and with \<open>..\<close> taking back the element before it; at the root of a rooted path
  \<open>..\<close> vanishes, at the start of a relative one it stays.
\<close>

fun split_slash :: "string \<Rightarrow> string list" where
  "split_slash [] = [[]]"
| "split_slash (c # s) =
     (if c = CHR ''/'' then [] # split_slash s
      else case split_slash s of [] \<Rightarrow> [[c]] | e # es \<Rightarrow> (c # e) # es)"

text \<open>The elements kept so far are in reverse.\<close>

fun clean_elems :: "bool \<Rightarrow> string list \<Rightarrow> string list \<Rightarrow> string list" where
  "clean_elems rooted kept [] = rev kept"
| "clean_elems rooted kept (e # es) =
     (if e = [] \<or> e = ''.'' then clean_elems rooted kept es
      else if e = ''..'' then
        (case kept of
           [] \<Rightarrow> clean_elems rooted (if rooted then [] else [''..'']) es
         | k # ks \<Rightarrow> clean_elems rooted (if k = ''..'' then ''..'' # kept else ks) es)
      else clean_elems rooted (e # kept) es)"

definition Clean :: "string \<Rightarrow> string" where
  "Clean p =
     (let rooted = HasPrefix p ''/''; es = clean_elems rooted [] (split_slash p)
      in if rooted then ''/'' @ join ''/'' es else if es = [] then ''.'' else join ''/'' es)"

definition path_Join :: "string list \<Rightarrow> string" where
  "path_Join es = (let es = filter (\<lambda>e. e \<noteq> []) es in if es = [] then [] else Clean (join ''/'' es))"

text \<open>\<open>filepath.Split\<close>: everything up to and with the last slash, and the rest.\<close>

definition path_dir :: "string \<Rightarrow> string" where
  "path_dir p = rev (dropWhile (\<lambda>c. c \<noteq> CHR ''/'') (rev p))"

text \<open>A plain element: it names an entry of the directory it is appended to.\<close>

definition plain :: "string \<Rightarrow> bool" where
  "plain e \<longleftrightarrow> e \<noteq> [] \<and> e \<noteq> ''.'' \<and> e \<noteq> ''..'' \<and> CHR ''/'' \<notin> set e"

lemma split_slash_not_Nil [simp]: "split_slash s \<noteq> []"
  by (cases s) (auto split: list.split)

lemma split_slash_elem: "CHR ''/'' \<notin> set e \<Longrightarrow> split_slash e = [e]"
  by (induction e) auto

lemma split_slash_append: "split_slash (s @ ''/'' @ t) = split_slash s @ split_slash t"
  by (induction s) (auto split: list.split)

lemma clean_elems_append:
  "clean_elems rooted kept (es @ fs) = clean_elems rooted (rev (clean_elems rooted kept es)) fs"
  by (induction rooted kept es rule: clean_elems.induct) (auto split: list.split)

lemma clean_elems_plain: "\<forall>e \<in> set es. plain e \<Longrightarrow> clean_elems rooted kept es = rev kept @ es"
  by (induction es arbitrary: kept) (auto simp: plain_def)

definition dir_elems :: "string \<Rightarrow> string list" where
  "dir_elems d = clean_elems (HasPrefix d ''/'') [] (split_slash d)"

lemma HasPrefix_append_slash: "d \<noteq> [] \<Longrightarrow> HasPrefix (d @ s) ''/'' = HasPrefix d ''/''"
  by (cases d) simp_all

lemma join_append: "es \<noteq> [] \<Longrightarrow> fs \<noteq> [] \<Longrightarrow> join sep (es @ fs) = join sep es @ sep @ join sep fs"
  by (induction sep es rule: join.induct) (auto simp: neq_Nil_conv)

lemma split_slash_join: "split_slash (join ''/'' es) = es" if "es \<noteq> []" "\<forall>e \<in> set es. CHR ''/'' \<notin> set e"
  using that
proof (induction es)
  case Nil
  then show ?case by simp
next
  case (Cons e es)
  show ?case
  proof (cases "es = []")
    case True
    then show ?thesis using Cons.prems by (simp add: split_slash_elem)
  next
    case False
    then have "join ''/'' (e # es) = e @ ''/'' @ join ''/'' es"
      by (cases es) simp_all
    then show ?thesis using Cons False by (simp add: split_slash_append [simplified] split_slash_elem)
  qed
qed

text \<open>Joining plain elements to a directory: the elements of the directory, then theirs.\<close>

definition join_elems :: "bool \<Rightarrow> string list \<Rightarrow> string" where
  "join_elems rooted es =
     (if rooted then ''/'' @ join ''/'' es else if es = [] then ''.'' else join ''/'' es)"

lemma path_Join_plain:
  assumes "d \<noteq> []" "fs \<noteq> []" "\<forall>f \<in> set fs. plain f"
  shows "path_Join [d, join ''/'' fs] = join_elems (HasPrefix d ''/'') (dir_elems d @ fs)"
proof -
  have "split_slash (join ''/'' fs) = fs"
    using split_slash_join [of fs] assms(2,3) by (simp add: plain_def)
  then have "split_slash (d @ ''/'' @ join ''/'' fs) = split_slash d @ fs"
    by (simp only: split_slash_append)
  moreover have "join ''/'' fs \<noteq> []"
    using assms(2,3) by (cases fs; cases "tl fs") (auto simp: plain_def)
  ultimately show ?thesis
    using assms
    by (simp add: path_Join_def Clean_def Let_def HasPrefix_append_slash join_elems_def dir_elems_def
        clean_elems_append clean_elems_plain)
qed

end
