(* ===== verification/Git_Data_Store.thy ===== *)
theory Git_Data_Store
  imports Git_Os
begin

text \<open>
  The git side of the data store (controller/data_store.go): validation and defaults of its
  configuration, the construction of the pool, and what a worker does with a batch. Log lines
  are left out.
\<close>

section \<open>Running git\<close>

definition newline :: string where
  "newline = [CHR 0x0A]"

text \<open>
  The \<open>username\<close> and \<open>password\<close> dialogue of \<open>doGitCmd\<close>: the answer is the error of the last
  write, if any. A condition reads the output so far only if its first half holds.
\<close>

definition prompt :: "os \<Rightarrow> string \<Rightarrow> string \<Rightarrow> string option \<Rightarrow> string option act" where
  "prompt os suffix secret err =
     (if secret \<noteq> [] \<and> err = None then
        act_bind (os_call os EvOut) (\<lambda>out.
        if HasSuffix (an_text out) suffix then
          act_bind (os_call os (EvStdin (secret @ newline))) (\<lambda>a. act_ok (an_err a))
        else act_ok err)
      else act_ok err)"

definition cmd_env :: "os \<Rightarrow> rng \<Rightarrow> string gomap \<Rightarrow> string list option act" where
  "cmd_env os r env =
     (if length env > 0 then
        act_bind (os_call os EvEnviron) (\<lambda>a.
        act_ok (Some (an_list a @ map (\<lambda>(k, v). k @ ''='' @ v) (go_range r env))))
      else act_ok None)"

definition doGitCmd :: "os \<Rightarrow> rng \<Rightarrow> string \<Rightarrow> string \<Rightarrow> string \<Rightarrow> string gomap \<Rightarrow> string list \<Rightarrow> string act" where
  "doGitCmd os r dir username password env args =
     act_bind (cmd_env os r env) (\<lambda>cmdEnv.
     act_bind (os_do os EvPipe (\<lambda>err. ''Cannot open stdin: '' @ err)) (\<lambda>_.
     act_bind (os_do os (EvStart dir cmdEnv args) (\<lambda>err. ''Unable to run git: '' @ err)) (\<lambda>_.
     act_bind (prompt os ''Username:'' username None) (\<lambda>err.
     act_bind (prompt os ''Password:'' password err) (\<lambda>err.
     act_bind (if err = None then act_bind (os_call os EvWait) (\<lambda>a. act_ok (an_err a)) else act_ok err) (\<lambda>err.
     act_bind (os_call os EvOut) (\<lambda>out.
     case err of
       None \<Rightarrow> act_ok (an_text out)
     | Some e \<Rightarrow>
         if dir = [] then act_err (''Error running git: '' @ e @ ''. Output:'' @ newline @ an_text out)
         else act_err (''Error running git in '' @ dir @ '': '' @ e @ ''. Output:'' @ newline @ an_text out))))))))"

section \<open>Configuration\<close>

definition GitStructureByDevice :: string where
  "GitStructureByDevice = ''by_device''"

definition GitStructureByJob :: string where
  "GitStructureByJob = ''by_job''"

definition username :: "cfg_DataStoreGit \<Rightarrow> string" where
  "username conf = (case cg_DataStoreGitUser conf of Some u \<Rightarrow> cu_Name u | None \<Rightarrow> [])"

definition password :: "cfg_DataStoreGit \<Rightarrow> string" where
  "password conf = (case cg_DataStoreGitUser conf of Some u \<Rightarrow> cu_Pass u | None \<Rightarrow> [])"

fun check_structures :: "string list \<Rightarrow> unit act" where
  "check_structures [] = act_ok ()"
| "check_structures (s # ss) =
     (if s \<noteq> GitStructureByDevice \<and> s \<noteq> GitStructureByJob
      then act_err (''Unrecognized git structure: '' @ s) else check_structures ss)"

definition apply_structure :: "cfg_DataStoreGit \<Rightarrow> cfg_DataStoreGit act" where
  "apply_structure conf =
     (if length (cg_Structure conf) = 0 then act_ok (conf\<lparr>cg_Structure := [GitStructureByDevice]\<rparr>)
      else act_bind (check_structures (cg_Structure conf)) (\<lambda>_. act_ok conf))"

definition apply_dataDir :: "os \<Rightarrow> cfg_DataStoreGit \<Rightarrow> cfg_DataStoreGit act" where
  "apply_dataDir os conf =
     (if cg_DataDir conf = [] then
        act_bind (os_call os EvGetwd) (\<lambda>a. case an_err a of
          Some err \<Rightarrow> act_err (''Unable to get current working directory: '' @ err)
        | None \<Rightarrow> act_ok (conf\<lparr>cg_DataDir := an_text a\<rparr>))
      else
        act_bind (os_call os (EvStat (cg_DataDir conf))) (\<lambda>a. case an_err a of
          Some err \<Rightarrow> act_err (''Failure obtaining git data directory '' @ cg_DataDir conf)
        | None \<Rightarrow> if \<not> an_isDir a then
              act_err (''Git data directory '' @ cg_DataDir conf @ '' not a directory'')
            else act_ok conf))"

definition check_user :: "text_lib \<Rightarrow> cfg_DataStoreGit \<Rightarrow> unit act" where
  "check_user txt conf =
     (case cg_DataStoreGitUser conf of
        None \<Rightarrow> act_ok ()
      | Some u \<Rightarrow>
          act_bind
            (if cu_Email u \<noteq> [] then
               (case tl_ParseAddress txt (cu_Email u) of
                  Some err \<Rightarrow> act_err (''Invalid email for git user: '' @ err)
                | None \<Rightarrow> act_ok ())
             else act_ok ()) (\<lambda>_.
          if cu_Pass u \<noteq> [] \<and> cu_Name u = [] then
            act_err ''If git password supplied, username must also be supplied''
          else act_ok ()))"

text \<open>The configuration is updated in place; the answer is the updated one.\<close>

definition ValidateAndApplyDefaults :: "os \<Rightarrow> text_lib \<Rightarrow> rng \<Rightarrow> cfg_DataStoreGit \<Rightarrow> cfg_DataStoreGit act" where
  "ValidateAndApplyDefaults os txt r conf =
     (if cg_Url conf = [] then act_err ''Data store for git requires url''
      else
        act_bind (apply_structure (if cg_PoolSize conf = 0 then conf\<lparr>cg_PoolSize := 20\<rparr> else conf)) (\<lambda>conf.
        act_bind (apply_dataDir os conf) (\<lambda>conf.
        act_bind (check_user txt conf) (\<lambda>_.
        act_bind (act_wrap (\<lambda>err. ''Git repository validation using ls-remote failed to validate URL ''
              @ cg_Url conf @ '': '' @ err)
            (doGitCmd os r [] (username conf) (password conf) [] [''ls-remote'', cg_Url conf])) (\<lambda>_.
        act_ok conf)))))"

section \<open>The worker\<close>

record gitWorker =
  gw_dir :: string
  gw_conf :: cfg_DataStoreGit

definition worker_git :: "os \<Rightarrow> rng \<Rightarrow> gitWorker \<Rightarrow> string list \<Rightarrow> string act" where
  "worker_git os r g args = doGitCmd os r (gw_dir g) (username (gw_conf g)) (password (gw_conf g)) [] args"

definition doGitCmdWithEnv :: "os \<Rightarrow> rng \<Rightarrow> gitWorker \<Rightarrow> string gomap \<Rightarrow> string list \<Rightarrow> string act" where
  "doGitCmdWithEnv os r g env args =
     doGitCmd os r (gw_dir g) (username (gw_conf g)) (password (gw_conf g)) env args"

text \<open>On an error \<open>doGitCmd\<close> returns no output, so the output part of the wrapped texts is empty.\<close>

definition git_error :: "string \<Rightarrow> string \<Rightarrow> string" where
  "git_error what err = ''Unable to '' @ what @ '': '' @ err @ ''. Output:'' @ newline"

definition clean :: "os \<Rightarrow> rng \<Rightarrow> gitWorker \<Rightarrow> unit act" where
  "clean os r g =
     act_bind (act_wrap (git_error (''git reset --hard in '' @ gw_dir g))
       (worker_git os r g [''reset'', ''--hard''])) (\<lambda>_.
     act_bind (act_wrap (git_error (''git pull in '' @ gw_dir g)) (worker_git os r g [''pull''])) (\<lambda>_.
     act_ok ()))"

definition push :: "os \<Rightarrow> rng \<Rightarrow> gitWorker \<Rightarrow> unit act" where
  "push os r g =
     act_bind (act_wrap (git_error (''do git push on '' @ gw_dir g)) (worker_git os r g [''push''])) (\<lambda>_.
     act_ok ())"

definition initialize :: "os \<Rightarrow> rng \<Rightarrow> gitWorker \<Rightarrow> unit act" where
  "initialize os r g =
     act_bind (os_do os (EvMkdirAll (gw_dir g)) (\<lambda>err. ''Unable to initialize worker: '' @ err)) (\<lambda>_.
     act_bind (os_call os (EvStat (path_Join [gw_dir g, ''.git'']))) (\<lambda>st.
     act_bind
       (case an_err st of
          None \<Rightarrow> act_ok ()
        | Some err \<Rightarrow>
            if \<not> an_notExist st then
              act_err (''Unable to read .git at '' @ gw_dir g @ '': '' @ err)
            else
              act_bind (act_wrap (git_error (''clone from '' @ cg_Url (gw_conf g)))
                (worker_git os r g [''clone'', cg_Url (gw_conf g), gw_dir g])) (\<lambda>_. act_ok ())) (\<lambda>_.
     clean os r g)))"

definition writeGitFile :: "os \<Rightarrow> gitWorker \<Rightarrow> string \<Rightarrow> string \<Rightarrow> unit act" where
  "writeGitFile os g path contents =
     (let fullPath = path_Join [gw_dir g, path]
      in act_bind (os_do os (EvMkdirAll (path_dir fullPath)) id) (\<lambda>_.
         act_bind (os_do os (EvOpen fullPath) id) (\<lambda>_.
         os_do os (EvWrite fullPath contents) id)))"

definition structure_path :: "string \<Rightarrow> DataStoreJob \<Rightarrow> string option" where
  "structure_path structure job =
     (if structure = GitStructureByDevice then
        Some (''by_device/'' @ dsj_DeviceName job @ ''/'' @ dsj_JobName job)
      else if structure = GitStructureByJob then
        Some (''by_job/'' @ dsj_JobName job @ ''/'' @ dsj_DeviceName job)
      else None)"

definition write_structure :: "os \<Rightarrow> gitWorker \<Rightarrow> DataStoreJob \<Rightarrow> string \<Rightarrow> unit act" where
  "write_structure os g job structure =
     (case structure_path structure job of
        None \<Rightarrow> act_err (''Unrecognized structure: '' @ structure)
      | Some path \<Rightarrow>
          act_wrap (\<lambda>err. ''Unable to write job to '' @ path @ '': '' @ err)
            (writeGitFile os g path (dsj_Contents job)))"

text \<open>\<open>EndTime.Sub(StartTime)\<close> saturates at the ends of \<open>int64\<close>.\<close>

definition time_Sub :: "gotime \<Rightarrow> gotime \<Rightarrow> int" where
  "time_Sub t u = max (- (2 ^ 63)) (min (2 ^ 63 - 1) (nanos t - nanos u))"

text \<open>
  The failure text is appended to the format string, where \<open>Sprintf\<close> reads it with no arguments
  left (\<open>tl_NoArgs\<close>): a percent sign in it is taken as a formatting verb.
\<close>

definition commit_message :: "text_lib \<Rightarrow> DataStoreJob \<Rightarrow> string" where
  "commit_message txt job =
     ''* Job: '' @ dsj_JobName job @ newline @
     ''* Device: '' @ dsj_DeviceName job @ newline @
     ''* Expected Run Date: '' @ tl_ANSIC txt (dsj_JobTime job) @ newline @
     ''* Start Date: '' @ tl_ANSIC txt (dsj_StartTime job) @ newline @
     ''* End On: '' @ tl_ANSIC txt (dsj_EndTime job) @ newline @
     ''* Elapsed Time: '' @ tl_Duration txt (time_Sub (dsj_EndTime job) (dsj_StartTime job)) @
     tl_NoArgs txt (if dsj_Failure job \<noteq> [] then newline @ ''* Failure: '' @ dsj_Failure job else [])"

definition author_args :: "cfg_DataStoreGit \<Rightarrow> string list" where
  "author_args conf =
     (case cg_DataStoreGitUser conf of
        None \<Rightarrow> []
      | Some u \<Rightarrow> if cu_FriendlyName u \<noteq> [] \<or> cu_Email u \<noteq> []
          then [''--author'', cu_FriendlyName u @ '' <'' @ cu_Email u @ ''>''] else [])"

definition author_env :: "cfg_DataStoreGit \<Rightarrow> string gomap" where
  "author_env conf =
     (case cg_DataStoreGitUser conf of
        None \<Rightarrow> []
      | Some u \<Rightarrow>
          (if cu_FriendlyName u \<noteq> [] then [(''GIT_COMMITTER_NAME'', cu_FriendlyName u)] else []) @
          (if cu_Email u \<noteq> [] then [(''GIT_COMMITTER_EMAIL'', cu_Email u)] else []))"

definition is_space :: "char \<Rightarrow> bool" where
  "is_space c \<longleftrightarrow> c \<in> {CHR '' '', CHR 0x09, CHR 0x0A, CHR 0x0B, CHR 0x0C, CHR 0x0D}"

definition TrimSpace :: "string \<Rightarrow> string" where
  "TrimSpace s = rev (dropWhile is_space (rev (dropWhile is_space s)))"

definition add_changes :: "os \<Rightarrow> rng \<Rightarrow> gitWorker \<Rightarrow> unit act" where
  "add_changes os r g =
     act_bind (act_wrap (git_error (''check git status on '' @ gw_dir g))
       (worker_git os r g [''status'', ''--porcelain''])) (\<lambda>out.
     if TrimSpace out \<noteq> [] then
       act_bind (act_wrap (git_error (''do git add on '' @ gw_dir g)) (worker_git os r g [''add'', ''.''])) (\<lambda>_.
       act_ok ())
     else act_ok ())"

definition commitJob :: "os \<Rightarrow> text_lib \<Rightarrow> rng \<Rightarrow> gitWorker \<Rightarrow> DataStoreJob \<Rightarrow> unit act" where
  "commitJob os txt r g job =
     act_bind
       (if length (dsj_Contents job) > 0 then
          act_each (write_structure os g job) (cg_Structure (gw_conf g))
        else act_ok ()) (\<lambda>_.
     act_bind (add_changes os r g) (\<lambda>_.
     act_bind (act_wrap (git_error (''do git commit on '' @ gw_dir g))
       (doGitCmdWithEnv os r g (author_env (gw_conf g))
         ([''commit'', ''--allow-empty'', ''-m'', commit_message txt job] @ author_args (gw_conf g)))) (\<lambda>_.
     act_ok ())))"

definition pushJobs :: "os \<Rightarrow> text_lib \<Rightarrow> rng \<Rightarrow> gitWorker \<Rightarrow> DataStoreJob list \<Rightarrow> unit act" where
  "pushJobs os txt r g jobs =
     act_bind (act_try (clean os r g)) (\<lambda>err. case err of
       Some _ \<Rightarrow> act_ok ()
     | None \<Rightarrow>
         act_bind (act_each (\<lambda>job. act_bind (act_try (commitJob os txt r g job)) (\<lambda>_. act_ok ())) jobs) (\<lambda>_.
         act_bind (act_try (push os r g)) (\<lambda>_. act_ok ())))"

section \<open>The pool\<close>

definition pool_worker :: "cfg_DataStoreGit \<Rightarrow> nat \<Rightarrow> gitWorker" where
  "pool_worker conf i =
     \<lparr>gw_dir = path_Join [cg_DataDir conf, ''pool'' @ Itoa (int i + 1)], gw_conf = conf\<rparr>"

text \<open>
  \<open>newGitDataStore\<close>: the configuration after validation and the workers it starts. If a worker
  cannot be initialised the call fails, and the workers started before keep running.
\<close>

definition newGitDataStore :: "os \<Rightarrow> text_lib \<Rightarrow> rng \<Rightarrow> cfg_DataStoreGit \<Rightarrow> (cfg_DataStoreGit \<times> gitWorker list) act" where
  "newGitDataStore os txt r conf =
     act_bind (ValidateAndApplyDefaults os txt r conf) (\<lambda>conf.
     let workers = map (pool_worker conf) [0..<nat (cg_PoolSize conf)]
     in act_bind (act_each (initialize os r) workers) (\<lambda>_. act_ok (conf, workers)))"

definition NewDataStoreFromConfig :: "os \<Rightarrow> text_lib \<Rightarrow> rng \<Rightarrow> cfg_DataStore \<Rightarrow> (cfg_DataStoreGit \<times> gitWorker list) act" where
  "NewDataStoreFromConfig os txt r conf =
     (if cds_Type conf = ''git'' then
        (case cds_DataStoreGit conf of
           None \<Rightarrow> act_err ''Data store for \"git\" required''
         | Some git \<Rightarrow> newGitDataStore os txt r git)
      else act_err (''Unrecognized data store type: '' @ cds_Type conf))"

end
