(* ===== verification/Git_Properties.thy ===== *)
theory Git_Properties
  imports Git_Data_Store
begin

text \<open>
  What a pool worker does to the file system and the repository, whatever git and the
  operating system answer, and what it does when everything succeeds.
\<close>

section \<open>Validated configurations\<close>

definition git_conf_ok :: "cfg_DataStoreGit \<Rightarrow> bool" where
  "git_conf_ok conf \<longleftrightarrow>
     cg_Url conf \<noteq> [] \<and> cg_PoolSize conf \<noteq> 0 \<and> cg_Structure conf \<noteq> [] \<and>
     set (cg_Structure conf) \<subseteq> {GitStructureByDevice, GitStructureByJob} \<and>
     (password conf \<noteq> [] \<longrightarrow> username conf \<noteq> [])"

lemma act_bind_Ok: "act_bind m f h = (Ok b, h'') \<longleftrightarrow> (\<exists>a h'. m h = (Ok a, h') \<and> f a h' = (Ok b, h''))"
  by (auto simp: act_bind_def split: prod.splits res.splits)

lemma act_simps:
  "act_ok a h = (Ok b, h') \<longleftrightarrow> a = b \<and> h = h'" "act_err e h = (Ok b, h') \<longleftrightarrow> False"
  "act_wrap f m h = (Ok b, h') \<longleftrightarrow> m h = (Ok b, h')"
  by (auto simp: act_ok_def act_err_def act_wrap_def map_err_Ok_iff split: prod.split)

lemma check_structures_Ok:
  "check_structures ss h = (Ok u, h') \<Longrightarrow> set ss \<subseteq> {GitStructureByDevice, GitStructureByJob}"
  by (induction ss) (auto simp: act_simps split: if_splits)

lemma apply_structure_Ok:
  "apply_structure conf h = (Ok conf', h') \<Longrightarrow>
   \<exists>ss. conf' = conf\<lparr>cg_Structure := ss\<rparr> \<and> ss \<noteq> [] \<and> set ss \<subseteq> {GitStructureByDevice, GitStructureByJob} \<and>
     (cg_Structure conf = [] \<longrightarrow> ss = [GitStructureByDevice]) \<and> (cg_Structure conf \<noteq> [] \<longrightarrow> ss = cg_Structure conf)"
  by (auto simp: apply_structure_def act_simps act_bind_Ok split: if_splits dest!: check_structures_Ok
      intro!: exI [of _ "cg_Structure conf"])

lemma apply_dataDir_Ok:
  "apply_dataDir os conf h = (Ok conf', h') \<Longrightarrow>
   \<exists>d. conf' = conf\<lparr>cg_DataDir := d\<rparr> \<and> (cg_DataDir conf \<noteq> [] \<longrightarrow> d = cg_DataDir conf)"
  by (auto simp: apply_dataDir_def act_simps act_bind_Ok split: if_splits option.splits
      intro: exI [of _ "cg_DataDir conf"])

lemma check_user_Ok:
  "check_user txt conf h = (Ok u, h') \<Longrightarrow> password conf \<noteq> [] \<longrightarrow> username conf \<noteq> []"
  by (auto simp: check_user_def password_def username_def act_simps act_bind_Ok split: option.splits if_splits)

lemma validated_conf:
  assumes "ValidateAndApplyDefaults os txt r conf h = (Ok conf', h')"
  shows "git_conf_ok conf' \<and>
    (\<exists>dir. conf' = conf\<lparr>
       cg_PoolSize := (if cg_PoolSize conf = 0 then 20 else cg_PoolSize conf),
       cg_Structure := (if cg_Structure conf = [] then [GitStructureByDevice] else cg_Structure conf),
       cg_DataDir := dir\<rparr> \<and> (cg_DataDir conf \<noteq> [] \<longrightarrow> dir = cg_DataDir conf))"
proof -
  let ?c = "if cg_PoolSize conf = 0 then conf\<lparr>cg_PoolSize := 20\<rparr> else conf"
  have url: "cg_Url conf \<noteq> []" using assms by (auto simp: ValidateAndApplyDefaults_def act_simps)
  from assms [unfolded ValidateAndApplyDefaults_def if_not_P [OF url] act_bind_Ok act_simps]
  obtain c1 h1 c2 h2 h3 u where
    1: "apply_structure ?c h = (Ok c1, h1)" and 2: "apply_dataDir os c1 h1 = (Ok c2, h2)" and
    3: "check_user txt c2 h2 = (Ok u, h3)" and 4: "conf' = c2" by blast
  obtain ss where ss: "c1 = ?c\<lparr>cg_Structure := ss\<rparr>" "ss \<noteq> []"
    "set ss \<subseteq> {GitStructureByDevice, GitStructureByJob}"
    "cg_Structure ?c = [] \<longrightarrow> ss = [GitStructureByDevice]" "cg_Structure ?c \<noteq> [] \<longrightarrow> ss = cg_Structure ?c"
    using apply_structure_Ok [OF 1] by blast
  obtain d where d: "c2 = c1\<lparr>cg_DataDir := d\<rparr>" "cg_DataDir c1 \<noteq> [] \<longrightarrow> d = cg_DataDir c1"
    using apply_dataDir_Ok [OF 2] by blast
  have "cg_Url c2 = cg_Url conf" "cg_PoolSize c2 \<noteq> 0" "cg_Structure c2 = ss" using ss(1) d(1) by simp_all
  then have "git_conf_ok c2" using url ss(2,3) check_user_Ok [OF 3] by (simp add: git_conf_ok_def)
  moreover have "cg_Structure ?c = cg_Structure conf" by simp
  then have "ss = (if cg_Structure conf = [] then [GitStructureByDevice] else cg_Structure conf)"
    using ss(4,5) by simp
  with ss(1) d(1) have "c2 = conf\<lparr>
       cg_PoolSize := (if cg_PoolSize conf = 0 then 20 else cg_PoolSize conf),
       cg_Structure := (if cg_Structure conf = [] then [GitStructureByDevice] else cg_Structure conf),
       cg_DataDir := d\<rparr>" by simp
  moreover have "cg_DataDir conf \<noteq> [] \<longrightarrow> d = cg_DataDir conf" using d(2) ss(1) by simp
  ultimately show ?thesis using 4 by blast
qed

text \<open>
  Validation fills in the defaults of the data store (a pool of 20, files by device, the
  working directory) and keeps every given value; it accepts only known structures, and a
  password only with a user name.
\<close>

theorem ValidateAndApplyDefaults_ok:
  assumes "ValidateAndApplyDefaults os txt r conf h = (Ok conf', h')"
  shows "git_conf_ok conf' \<and>
    (\<exists>dir. conf' = conf\<lparr>
       cg_PoolSize := (if cg_PoolSize conf = 0 then 20 else cg_PoolSize conf),
       cg_Structure := (if cg_Structure conf = [] then [GitStructureByDevice] else cg_Structure conf),
       cg_DataDir := dir\<rparr> \<and> (cg_DataDir conf \<noteq> [] \<longrightarrow> dir = cg_DataDir conf))"
  by (rule validated_conf [OF assms])

text \<open>An operating system where every call succeeds and the output is a line of text.\<close>

definition sample_os :: os where
  "sample_os h ev = \<lparr>an_err = None, an_notExist = False, an_isDir = True,
     an_text = (if ev = EvGetwd then ''/data'' else '' M by_device/qux/bar''), an_list = [''HOME=/root'']\<rparr>"

definition sample_txt :: text_lib where
  "sample_txt = \<lparr>tl_ANSIC = (\<lambda>t. Itoa (Unix t)), tl_Duration = Itoa, tl_ParseAddress = (\<lambda>_. None), tl_NoArgs = (\<lambda>s. s)\<rparr>"

definition sample_git_conf :: cfg_DataStoreGit where
  "sample_git_conf = \<lparr>cg_Url = ''git@host:repo'', cg_DataStoreGitUser = None, cg_PoolSize = 0,
     cg_Structure = [], cg_IncludeReadmeOverviews = False, cg_DataDir = ''''\<rparr>"

lemma os_sample [simp]:
  "os_do sample_os ev f h = (Ok (), h @ [ev])" "os_call sample_os ev h = (Ok (sample_os h ev), h @ [ev])"
  by (simp_all add: os_do_def ask_def act_bind_def sample_os_def act_ok_def)

lemma sample_validated:
  "\<exists>h'. ValidateAndApplyDefaults sample_os sample_txt (\<lambda>p ks. ks) sample_git_conf [] =
     (Ok (sample_git_conf\<lparr>cg_PoolSize := 20, cg_Structure := [''by_device''], cg_DataDir := ''/data''\<rparr>), h')"
  by (simp add: ValidateAndApplyDefaults_def apply_structure_def apply_dataDir_def check_user_def
      sample_git_conf_def act_bind_def act_ok_def act_wrap_def doGitCmd_def cmd_env_def prompt_def
      username_def password_def GitStructureByDevice_def sample_os_def)

theorem ValidateAndApplyDefaults_ok_witness:
  "git_conf_ok (sample_git_conf\<lparr>cg_PoolSize := 20, cg_Structure := [''by_device''], cg_DataDir := ''/data''\<rparr>)"
  using sample_validated ValidateAndApplyDefaults_ok by blast

section \<open>Where a worker writes\<close>

definition safe_event :: "gitWorker \<Rightarrow> DataStoreJob list \<Rightarrow> os_event \<Rightarrow> bool" where
  "safe_event g jobs ev \<longleftrightarrow>
     (case ev of
        EvWrite p c \<Rightarrow> \<exists>s \<in> set (cg_Structure (gw_conf g)). \<exists>j \<in> set jobs. \<exists>path.
          structure_path s j = Some path \<and> p = path_Join [gw_dir g, path] \<and> c = dsj_Contents j
      | EvOpen p \<Rightarrow> \<exists>s \<in> set (cg_Structure (gw_conf g)). \<exists>j \<in> set jobs. \<exists>path.
          structure_path s j = Some path \<and> p = path_Join [gw_dir g, path]
      | EvMkdirAll p \<Rightarrow> \<exists>s \<in> set (cg_Structure (gw_conf g)). \<exists>j \<in> set jobs. \<exists>path.
          structure_path s j = Some path \<and> p = path_dir (path_Join [gw_dir g, path])
      | EvStart d _ _ \<Rightarrow> d = gw_dir g
      | _ \<Rightarrow> True)"

lemma act_only_doGitCmd:
  assumes "\<And>e. P (EvStart dir e args)" "P EvEnviron" "P EvPipe" "P EvOut" "P EvWait" "\<And>s. P (EvStdin s)"
  shows "act_only P (doGitCmd os r dir u p env args)"
  unfolding doGitCmd_def cmd_env_def prompt_def by (intro act_intros assms; simp)+

lemma act_only_worker_git: "act_only (safe_event g jobs) (doGitCmd os r (gw_dir g) u p env args)"
  by (rule act_only_doGitCmd) (simp_all add: safe_event_def)

lemma act_only_commitJob:
  assumes "j \<in> set jobs"
  shows "act_only (safe_event g jobs) (commitJob os txt r g j)"
proof -
  have "act_only (safe_event g jobs) (write_structure os g j s)" if "s \<in> set (cg_Structure (gw_conf g))" for s
    unfolding write_structure_def writeGitFile_def Let_def
    by (intro act_intros) (use assms that in \<open>auto simp: safe_event_def\<close>)
  then show ?thesis
    unfolding commitJob_def add_changes_def worker_git_def doGitCmdWithEnv_def
    by (intro act_intros act_only_worker_git)
qed

lemma act_only_pushJobs: "act_only (safe_event g jobs) (pushJobs os txt r g jobs)"
  unfolding pushJobs_def clean_def push_def worker_git_def
  by (intro act_intros act_only_worker_git act_only_commitJob)

text \<open>The file of a result under a structure, for plain names.\<close>

definition result_elems :: "string \<Rightarrow> DataStoreJob \<Rightarrow> string list" where
  "result_elems s j =
     (if s = GitStructureByDevice then [s, dsj_DeviceName j, dsj_JobName j] else [s, dsj_JobName j, dsj_DeviceName j])"

definition plain_names :: "DataStoreJob \<Rightarrow> bool" where
  "plain_names j \<longleftrightarrow> plain (dsj_DeviceName j) \<and> plain (dsj_JobName j)"

lemma structure_path_elems:
  "structure_path s j = Some path \<Longrightarrow> path = join ''/'' (result_elems s j) \<and>
     s \<in> {GitStructureByDevice, GitStructureByJob}"
  by (auto simp: structure_path_def result_elems_def GitStructureByDevice_def GitStructureByJob_def
      split: if_splits)

lemma plain_result_elems:
  "plain_names j \<Longrightarrow> s \<in> {GitStructureByDevice, GitStructureByJob} \<Longrightarrow> \<forall>e \<in> set (result_elems s j). plain e"
  by (auto simp: plain_names_def result_elems_def GitStructureByDevice_def GitStructureByJob_def plain_def)

lemma structure_path_Join:
  assumes "structure_path s j = Some path" "plain_names j" "gw_dir g \<noteq> []"
  shows "path_Join [gw_dir g, path] =
    join_elems (HasPrefix (gw_dir g) ''/'') (dir_elems (gw_dir g) @ result_elems s j)"
  using structure_path_elems [OF assms(1)] plain_result_elems [OF assms(2), of s]
    path_Join_plain [OF assms(3), of "result_elems s j"]
  by (simp add: result_elems_def split: if_splits)


definition sample_worker :: gitWorker where
  "sample_worker = \<lparr>gw_dir = ''/data/pool1'', gw_conf = sample_git_conf\<lparr>cg_Structure := [''by_device'']\<rparr>\<rparr>"

lemma sample_result_plain: "plain_names (sample_result c t)"
  by (simp add: plain_names_def plain_def sample_result_def)


end
