(* ===== verification/Git_Script.thy ===== *)
theory Git_Script
  imports Git_Properties
begin

text \<open>
  What a worker does with a batch when everything succeeds, as a script of git commands and
  file writes, and the directories of the pool.
\<close>

section \<open>Scripts\<close>

datatype effect = Git string "string list" | File string string

fun effect_of :: "os_event \<Rightarrow> effect list" where
  "effect_of (EvStart d e args) = [Git d args]"
| "effect_of (EvWrite p c) = [File p c]"
| "effect_of _ = []"

definition effects :: "os_event list \<Rightarrow> effect list" where
  "effects evs = concat (map effect_of evs)"

lemma effects_append [simp]: "effects (h @ evs) = effects h @ effects evs"
  by (simp add: effects_def)

lemma effects_single [simp]: "effects [ev] = effect_of ev"
  by (simp add: effects_def)

text \<open>Every call succeeds and git answers with some text.\<close>

definition os_fine :: "os \<Rightarrow> bool" where
  "os_fine os \<longleftrightarrow> (\<forall>h ev. an_err (os h ev) = None \<and> TrimSpace (an_text (os h ev)) \<noteq> [])"

text \<open>\<open>runs Q xs m\<close>: \<open>m\<close> succeeds with a value that satisfies \<open>Q\<close> and adds the effects \<open>xs\<close>.\<close>

definition runs :: "('a \<Rightarrow> bool) \<Rightarrow> effect list \<Rightarrow> 'a act \<Rightarrow> bool" where
  "runs Q xs m \<longleftrightarrow> (\<forall>h. \<exists>a h'. m h = (Ok a, h') \<and> Q a \<and> effects h' = effects h @ xs)"

lemma runs_ok: "Q a \<Longrightarrow> runs Q [] (act_ok a)"
  by (simp add: runs_def act_ok_def)

lemma runs_call: "(\<And>h. Q (os h ev)) \<Longrightarrow> runs Q (effect_of ev) (os_call os ev)"
  by (simp add: runs_def ask_def)

lemma runsE:
  assumes "runs Q xs m"
  obtains a h' where "m h = (Ok a, h')" "Q a" "effects h' = effects h @ xs"
  using assms unfolding runs_def by blast

lemma runs_bind:
  assumes "runs Q xs m" "\<And>a. Q a \<Longrightarrow> runs R ys (f a)"
  shows "runs R (xs @ ys) (act_bind m f)"
  unfolding runs_def
proof
  fix h
  obtain a h1 where 1: "m h = (Ok a, h1)" "Q a" "effects h1 = effects h @ xs"
    using runsE [OF assms(1)] by blast
  obtain b h2 where "f a h1 = (Ok b, h2)" "R b" "effects h2 = effects h1 @ ys"
    using runsE [OF assms(2) [OF 1(2)]] by blast
  with 1 show "\<exists>a h'. act_bind m f h = (Ok a, h') \<and> R a \<and> effects h' = effects h @ xs @ ys"
    by (simp add: act_bind_def)
qed

lemma runs_bind0: "runs Q [] m \<Longrightarrow> (\<And>a. Q a \<Longrightarrow> runs R ys (f a)) \<Longrightarrow> runs R ys (act_bind m f)"
  using runs_bind [of Q "[]" m R ys f] by simp

lemma runs_weaken: "runs Q xs m \<Longrightarrow> (\<And>a. Q a \<Longrightarrow> R a) \<Longrightarrow> runs R xs m"
  unfolding runs_def by blast

lemma runs_wrap: "runs Q xs m \<Longrightarrow> runs Q xs (act_wrap f m)"
  unfolding runs_def act_wrap_def by (rule allI, erule_tac x = h in allE) auto

lemma runs_try: "runs Q xs m \<Longrightarrow> runs (\<lambda>e. e = None) xs (act_try m)"
  unfolding runs_def act_try_def by (rule allI, erule_tac x = h in allE) auto

lemma runs_each: "(\<And>x. x \<in> set l \<Longrightarrow> runs (\<lambda>_. True) (g x) (f x)) \<Longrightarrow>
    runs (\<lambda>_. True) (concat (map g l)) (act_each f l)"
proof (induction l)
  case Nil
  then show ?case by (simp add: runs_ok)
next
  case (Cons x l)
  then have "runs (\<lambda>_. True) (g x @ concat (map g l)) (act_bind (f x) (\<lambda>_. act_each f l))"
    by (intro runs_bind [where Q = "\<lambda>_. True"]) simp_all
  then show ?case by simp
qed

lemma runs_do: "os_fine os \<Longrightarrow> runs (\<lambda>_. True) (effect_of ev) (os_do os ev f)"
  by (simp add: runs_def os_do_def act_bind_def ask_def os_fine_def act_ok_def)

lemma runs_prompt: "os_fine os \<Longrightarrow> runs (\<lambda>e. e = None) [] (prompt os suffix secret None)"
  by (simp add: runs_def prompt_def act_bind_def ask_def os_fine_def act_ok_def effects_def)

lemma runs_cmd_env: "runs (\<lambda>_. True) [] (cmd_env os r env)"
  by (simp add: runs_def cmd_env_def act_bind_def ask_def act_ok_def)

lemma runs_doGitCmd:
  assumes "os_fine os"
  shows "runs (\<lambda>out. TrimSpace out \<noteq> []) [Git dir args] (doGitCmd os r dir u p env args)"
proof -
  let ?Q = "\<lambda>out. TrimSpace out \<noteq> []"
  have end1: "runs ?Q [] (act_bind (os_call os EvOut) (\<lambda>out. act_ok (an_text out)))"
    using assms by (simp add: runs_def act_bind_def ask_def act_ok_def os_fine_def)
  have end2: "runs (\<lambda>e. e = None) [] (act_bind (os_call os EvWait) (\<lambda>a. act_ok (an_err a)))"
    using assms by (simp add: runs_def act_bind_def ask_def act_ok_def os_fine_def)
  have start: "runs (\<lambda>_. True) [Git dir args] (os_do os (EvStart dir e args) f)" for e f
    using runs_do [OF assms, of "EvStart dir e args" f] by simp
  have pipe: "runs (\<lambda>_. True) [] (os_do os EvPipe f)" for f
    using runs_do [OF assms, of EvPipe f] by simp
  show ?thesis
    unfolding doGitCmd_def
    apply (rule runs_bind0 [OF runs_cmd_env])
    apply (rule runs_bind0 [OF pipe])
    apply (rule runs_bind [OF start, of _ "[]", simplified])
    apply (rule runs_bind0 [OF runs_prompt [OF assms]])
    apply (simp, rule runs_bind0 [OF runs_prompt [OF assms]])
    apply (simp, rule runs_bind0 [OF end2])
    apply (simp add: end1)
    done
qed

section \<open>A batch\<close>

definition write_script :: "gitWorker \<Rightarrow> DataStoreJob \<Rightarrow> effect list" where
  "write_script g j =
     (if dsj_Contents j = [] then []
      else map (\<lambda>s. File (path_Join [gw_dir g, the (structure_path s j)]) (dsj_Contents j))
        (cg_Structure (gw_conf g)))"

definition commit_script :: "text_lib \<Rightarrow> gitWorker \<Rightarrow> DataStoreJob \<Rightarrow> effect list" where
  "commit_script tx g j =
     write_script g j @ map (Git (gw_dir g))
       [[''status'', ''--porcelain''], [''add'', ''.''],
        [''commit'', ''--allow-empty'', ''-m'', commit_message tx j] @ author_args (gw_conf g)]"

lemma runs_write_structure:
  assumes "os_fine os" "structure_path s j = Some path"
  shows "runs (\<lambda>_. True) [File (path_Join [gw_dir g, path]) (dsj_Contents j)] (write_structure os g j s)"
proof -
  have "runs (\<lambda>_. True) [] (os_do os (EvMkdirAll d) f)" "runs (\<lambda>_. True) [] (os_do os (EvOpen d) f)"
    "runs (\<lambda>_. True) [File p c] (os_do os (EvWrite p c) f)" for d f p c
    using runs_do [OF assms(1), of "EvMkdirAll d" f] runs_do [OF assms(1), of "EvOpen d" f]
      runs_do [OF assms(1), of "EvWrite p c" f] by simp_all
  then have "runs (\<lambda>_. True) [File (path_Join [gw_dir g, path]) (dsj_Contents j)]
      (writeGitFile os g path (dsj_Contents j))"
    unfolding writeGitFile_def Let_def by (intro runs_bind0 [where Q = "\<lambda>_. True"])
  then show ?thesis
    unfolding write_structure_def assms(2) option.case by (rule runs_wrap)
qed

lemma structure_path_known:
  "s \<in> {GitStructureByDevice, GitStructureByJob} \<Longrightarrow> \<exists>path. structure_path s j = Some path"
  by (auto simp: structure_path_def)

lemma runs_writes:
  assumes "os_fine os" "set ss \<subseteq> {GitStructureByDevice, GitStructureByJob}"
  shows "runs (\<lambda>_. True) (map (\<lambda>s. File (path_Join [gw_dir g, the (structure_path s j)]) (dsj_Contents j)) ss)
    (act_each (write_structure os g j) ss)"
proof -
  have "runs (\<lambda>_. True) [File (path_Join [gw_dir g, the (structure_path s j)]) (dsj_Contents j)]
      (write_structure os g j s)" if "s \<in> set ss" for s
  proof -
    have "s \<in> {GitStructureByDevice, GitStructureByJob}" using assms(2) \<open>s \<in> set ss\<close> by (rule subsetD)
    then obtain path where "structure_path s j = Some path" using structure_path_known [of s j] by auto
    then show ?thesis using runs_write_structure [OF assms(1), of s j path g] by simp
  qed
  then have "runs (\<lambda>_. True) (concat (map (\<lambda>s.
      [File (path_Join [gw_dir g, the (structure_path s j)]) (dsj_Contents j)]) ss))
      (act_each (write_structure os g j) ss)" by (rule runs_each)
  then show ?thesis by (simp only: concat_map_singleton)
qed

lemma runs_git:
  assumes "os_fine os"
  shows "runs (\<lambda>out. TrimSpace out \<noteq> []) [Git (gw_dir g) args] (act_wrap f (worker_git os r g args))"
  unfolding worker_git_def by (rule runs_wrap [OF runs_doGitCmd [OF assms]])

lemma runs_git_unit:
  "runs Q xs m \<Longrightarrow> runs (\<lambda>_. True) xs (act_bind m (\<lambda>_. act_ok ()))"
  using runs_bind [of Q xs m "\<lambda>_. True" "[]" "\<lambda>_. act_ok ()"] by (simp add: runs_ok)

lemma runs_clean:
  assumes "os_fine os"
  shows "runs (\<lambda>_. True) ([Git (gw_dir g) [''reset'', ''--hard'']] @ [Git (gw_dir g) [''pull'']]) (clean os r g)"
  unfolding clean_def
  by (rule runs_bind [OF runs_git [OF assms]]) (rule runs_git_unit [OF runs_git [OF assms]])

lemma runs_commitJob:
  assumes "os_fine os" "set (cg_Structure (gw_conf g)) \<subseteq> {GitStructureByDevice, GitStructureByJob}"
  shows "runs (\<lambda>_. True) (commit_script tx g j) (commitJob os tx r g j)"
proof -
  have w: "runs (\<lambda>_. True) (write_script g j)
      (if length (dsj_Contents j) > 0 then act_each (write_structure os g j) (cg_Structure (gw_conf g)) else act_ok ())"
    using runs_writes [OF assms] by (simp add: write_script_def runs_ok)
  have a: "runs (\<lambda>_. True) ([Git (gw_dir g) [''status'', ''--porcelain'']] @ [Git (gw_dir g) [''add'', ''.'']])
      (add_changes os r g)"
    unfolding add_changes_def
    by (rule runs_bind [OF runs_git [OF assms(1)]]) (simp add: runs_git_unit [OF runs_git [OF assms(1)]])
  have c: "runs (\<lambda>_. True) [Git (gw_dir g) args]
      (act_bind (act_wrap f (doGitCmdWithEnv os r g env args)) (\<lambda>_. act_ok ()))" for f env args
    unfolding doGitCmdWithEnv_def by (rule runs_git_unit [OF runs_wrap [OF runs_doGitCmd [OF assms(1)]]])
  have script: "commit_script tx g j = write_script g j @
      ([Git (gw_dir g) [''status'', ''--porcelain'']] @ [Git (gw_dir g) [''add'', ''.'']]) @
      [Git (gw_dir g) ([''commit'', ''--allow-empty'', ''-m'', commit_message tx j] @ author_args (gw_conf g))]"
    by (simp add: commit_script_def)
  show ?thesis
    unfolding script commitJob_def by (rule runs_bind [OF w runs_bind [OF a c]])
qed

lemma pushJobs_effects:
  assumes "os_fine os" and "git_conf_ok (gw_conf g)"
  shows "\<exists>h'. pushJobs os tx r g jobs h = (Ok (), h') \<and>
    effects h' = effects h @ [Git (gw_dir g) [''reset'', ''--hard''], Git (gw_dir g) [''pull'']] @
      concat (map (commit_script tx g) jobs) @ [Git (gw_dir g) [''push'']]"
proof -
  have S: "set (cg_Structure (gw_conf g)) \<subseteq> {GitStructureByDevice, GitStructureByJob}"
    using assms(2) by (simp add: git_conf_ok_def)
  have co: "runs (\<lambda>_. True) (concat (map (commit_script tx g) jobs))
      (act_each (\<lambda>job. act_bind (act_try (commitJob os tx r g job)) (\<lambda>_. act_ok ())) jobs)"
    by (rule runs_each) (rule runs_git_unit [OF runs_try [OF runs_commitJob [OF assms(1) S]]])
  have pu: "runs (\<lambda>_. True) [Git (gw_dir g) [''push'']] (act_bind (act_try (push os r g)) (\<lambda>_. act_ok ()))"
    unfolding push_def
    by (rule runs_git_unit [OF runs_try [OF runs_git_unit [OF runs_git [OF assms(1)]]]])
  have "runs (\<lambda>_. True) (([Git (gw_dir g) [''reset'', ''--hard'']] @ [Git (gw_dir g) [''pull'']]) @
      concat (map (commit_script tx g) jobs) @ [Git (gw_dir g) [''push'']]) (pushJobs os tx r g jobs)"
    unfolding pushJobs_def
    by (rule runs_bind [OF runs_try [OF runs_clean [OF assms(1)]]]) (simp add: runs_bind [OF co pu])
  then obtain h' where "pushJobs os tx r g jobs h = (Ok (), h')"
    "effects h' = effects h @ ([Git (gw_dir g) [''reset'', ''--hard'']] @ [Git (gw_dir g) [''pull'']]) @
      concat (map (commit_script tx g) jobs) @ [Git (gw_dir g) [''push'']]"
    by (rule runsE [of _ _ _ h]) simp
  then show ?thesis by simp
qed


lemma sample_os_fine: "os_fine sample_os"
  by (simp add: os_fine_def sample_os_def TrimSpace_def is_space_def)


section \<open>Files of different results\<close>

lemma join_elems_inj:
  assumes "join_elems b (ds @ es) = join_elems b (ds @ fs)" "es \<noteq> []" "fs \<noteq> []"
    and "\<forall>e \<in> set (ds @ es). CHR ''/'' \<notin> set e" "\<forall>e \<in> set (ds @ fs). CHR ''/'' \<notin> set e"
  shows "es = fs"
proof -
  have "join ''/'' (ds @ es) = join ''/'' (ds @ fs)"
    using assms(1-3) by (simp add: join_elems_def split: if_splits)
  then have "split_slash (join ''/'' (ds @ es)) = split_slash (join ''/'' (ds @ fs))" by simp
  then show ?thesis
    using assms by (simp add: split_slash_join)
qed

lemma split_slash_no_slash: "e \<in> set (split_slash s) \<Longrightarrow> CHR ''/'' \<notin> set e"
proof (induction s arbitrary: e)
  case Nil
  then show ?case by simp
next
  case (Cons c s)
  obtain f fs where s: "split_slash s = f # fs" using split_slash_not_Nil by (metis list.exhaust)
  then have "\<forall>x \<in> set (f # fs). CHR ''/'' \<notin> set x" using Cons.IH by simp
  with Cons.prems s show ?case by (auto split: if_splits)
qed

lemma clean_elems_no_slash:
  "e \<in> set (clean_elems rooted kept es) \<Longrightarrow> \<forall>x \<in> set kept \<union> set es. CHR ''/'' \<notin> set x \<Longrightarrow> CHR ''/'' \<notin> set e"
  by (induction rooted kept es rule: clean_elems.induct) (auto split: if_splits list.splits)

lemma dir_elems_no_slash: "e \<in> set (dir_elems d) \<Longrightarrow> CHR ''/'' \<notin> set e"
  using clean_elems_no_slash [of e _ "[]"] split_slash_no_slash unfolding dir_elems_def by auto



section \<open>Names that are not plain\<close>

definition sample_traversal :: DataStoreJob where
  "sample_traversal = (sample_result ''* * * * * root sh /tmp/x'' 60)\<lparr>
     dsj_DeviceName := ''../../../etc/cron.d'', dsj_JobName := ''job''\<rparr>"


section \<open>The directories of the pool\<close>

lemma nat_digits_chars: "x \<in> set (nat_digits n) \<Longrightarrow> \<exists>d < 10. x = digit_char d"
proof (induction n rule: nat_digits.induct)
  case (1 n)
  show ?case
  proof (cases "n < 10")
    case True
    then show ?thesis using 1 by (auto simp: nat_digits.simps [of n])
  next
    case False
    then have "x \<in> set (nat_digits (n div 10)) \<or> x = digit_char (n mod 10)"
      using 1(2) by (auto simp: nat_digits.simps [of n])
    moreover have "n mod 10 < 10" by simp
    ultimately show ?thesis using 1(1) [OF False] by blast
  qed
qed

lemma digit_not_slash: "d < 10 \<Longrightarrow> digit_char d \<noteq> CHR ''/''"
proof
  assume "d < 10" "digit_char d = CHR ''/''"
  then have "of_char (CHR ''/'') = 48 + d" using of_char_digit [of d] by simp
  then show False by simp
qed

lemma pool_dir_plain: "plain (''pool'' @ Itoa (int i + 1))"
proof -
  have "Itoa (int i + 1) = nat_digits (Suc i)" by (simp add: Itoa_def nat_add_distrib)
  then have "CHR ''/'' \<notin> set (Itoa (int i + 1))"
    using nat_digits_chars digit_not_slash by metis
  then show ?thesis by (simp add: plain_def)
qed

lemma pool_dir:
  "cg_DataDir conf \<noteq> [] \<Longrightarrow> gw_dir (pool_worker conf i) =
    join_elems (HasPrefix (cg_DataDir conf) ''/'') (dir_elems (cg_DataDir conf) @ [''pool'' @ Itoa (int i + 1)])"
  using path_Join_plain [of "cg_DataDir conf" "[''pool'' @ Itoa (int i + 1)]"] pool_dir_plain
  by (simp add: pool_worker_def)

lemma pool_dir_inj:
  assumes "cg_DataDir conf \<noteq> []" "gw_dir (pool_worker conf i) = gw_dir (pool_worker conf k)"
    "int i + 1 < 2 ^ 63" "int k + 1 < 2 ^ 63"
  shows "i = k"
proof -
  have el: "\<forall>e \<in> set (dir_elems d @ [''pool'' @ Itoa (int n + 1)]). CHR ''/'' \<notin> set e" for d n
  proof
    fix e assume "e \<in> set (dir_elems d @ [''pool'' @ Itoa (int n + 1)])"
    then consider "e \<in> set (dir_elems d)" | "e = ''pool'' @ Itoa (int n + 1)" by auto
    then show "CHR ''/'' \<notin> set e"
      by cases (rule dir_elems_no_slash, assumption, simp only: pool_dir_plain [unfolded plain_def] simp_thms)
  qed
  have "[''pool'' @ Itoa (int i + 1)] = [''pool'' @ Itoa (int k + 1)]"
  proof (rule join_elems_inj)
    show "join_elems (HasPrefix (cg_DataDir conf) ''/'') (dir_elems (cg_DataDir conf) @ [''pool'' @ Itoa (int i + 1)]) =
        join_elems (HasPrefix (cg_DataDir conf) ''/'') (dir_elems (cg_DataDir conf) @ [''pool'' @ Itoa (int k + 1)])"
      by (rule assms(2) [unfolded pool_dir [OF assms(1)]])
  qed (rule list.distinct(2) list.discI el | simp only: el)+
  then have eq: "Itoa (int i + 1) = Itoa (int k + 1)" by (simp only: list.inject same_append_eq simp_thms)
  have "Atoi (Itoa (int i + 1)) = Some (int i + 1)" "Atoi (Itoa (int k + 1)) = Some (int k + 1)"
    by (rule Atoi_Itoa; use assms(3,4) in linarith)+
  then show ?thesis unfolding eq by simp
qed

lemma new_git_store:
  assumes "newGitDataStore os tx r conf h = (Ok (conf', workers), h')"
    and "cg_DataDir conf \<noteq> []" and "cg_PoolSize conf < 2 ^ 63"
  shows "git_conf_ok conf' \<and> length workers = nat (cg_PoolSize conf') \<and>
    (\<forall>g \<in> set workers. gw_conf g = conf') \<and> distinct (map gw_dir workers)"
proof -
  obtain h1 where v: "ValidateAndApplyDefaults os tx r conf h = (Ok conf', h1)"
    and w: "workers = map (pool_worker conf') [0..<nat (cg_PoolSize conf')]"
    using assms(1) by (auto simp: newGitDataStore_def act_bind_Ok act_simps Let_def)
  have ok: "git_conf_ok conf'" and c: "cg_DataDir conf' = cg_DataDir conf"
    "cg_PoolSize conf' = (if cg_PoolSize conf = 0 then 20 else cg_PoolSize conf)"
    using validated_conf [OF v] assms(2) by auto
  have "distinct (map gw_dir workers)"
    unfolding w map_map distinct_map
  proof (intro conjI inj_onI)
    fix i k assume "i \<in> set [0..<nat (cg_PoolSize conf')]" "k \<in> set [0..<nat (cg_PoolSize conf')]"
      "(gw_dir \<circ> pool_worker conf') i = (gw_dir \<circ> pool_worker conf') k"
    then show "i = k"
      using pool_dir_inj [of conf' i k] assms(2,3) c by (auto split: if_splits)
  qed simp
  then show ?thesis using ok w by (auto simp: pool_worker_def)
qed

text \<open>
  The pool that \<open>newGitDataStore\<close> starts has as many workers as the validated
  configuration says, each with that configuration and each in a directory of its own, so
  workers never share a clone.
\<close>

theorem newGitDataStore_pool_ok:
  assumes "newGitDataStore os tx r conf h = (Ok (conf', workers), h')"
    and "cg_DataDir conf \<noteq> []" and "cg_PoolSize conf < 2 ^ 63"
  shows "git_conf_ok conf' \<and> length workers = nat (cg_PoolSize conf') \<and>
    (\<forall>g \<in> set workers. gw_conf g = conf') \<and> distinct (map gw_dir workers)"
  by (rule new_git_store [OF assms])

lemma runs_initialize:
  assumes "os_fine os"
  shows "runs (\<lambda>_. True) ([Git (gw_dir g) [''reset'', ''--hard'']] @ [Git (gw_dir g) [''pull'']]) (initialize os r g)"
proof -
  have 1: "runs (\<lambda>_. True) [] (os_do os (EvMkdirAll d) f)" for d f
    using runs_do [OF assms, of "EvMkdirAll d" f] by simp
  have 2: "runs (\<lambda>st. an_err st = None) [] (os_call os (EvStat d))" for d
    using runs_call [of "\<lambda>st. an_err st = None" os "EvStat d"] assms by (simp add: os_fine_def)
  show ?thesis
    unfolding initialize_def
  proof (rule runs_bind0 [OF 1])
    show "runs (\<lambda>_. True) ([Git (gw_dir g) [''reset'', ''--hard'']] @ [Git (gw_dir g) [''pull'']])
        (act_bind (os_call os (EvStat (path_Join [gw_dir g, ''.git''])))
          (\<lambda>st. act_bind
            (case an_err st of None \<Rightarrow> act_ok ()
             | Some err \<Rightarrow>
                 if \<not> an_notExist st then act_err (''Unable to read .git at '' @ gw_dir g @ '': '' @ err)
                 else act_bind
                   (act_wrap (git_error (''clone from '' @ cg_Url (gw_conf g)))
                     (worker_git os r g [''clone'', cg_Url (gw_conf g), gw_dir g]))
                   (\<lambda>_. act_ok ()))
            (\<lambda>_. clean os r g)))"
      by (rule runs_bind0 [OF 2]) (simp add: runs_clean [OF assms, simplified])
  qed
qed

abbreviation sample_pool_conf :: cfg_DataStoreGit where
  "sample_pool_conf \<equiv> sample_git_conf\<lparr>cg_PoolSize := 2, cg_Structure := [''by_device''], cg_DataDir := ''/data''\<rparr>"

lemma sample_pool_validated:
  "\<exists>h'. ValidateAndApplyDefaults sample_os sample_txt (\<lambda>p ks. ks)
     (sample_git_conf\<lparr>cg_PoolSize := 2, cg_DataDir := ''/data''\<rparr>) [] = (Ok sample_pool_conf, h')"
  by (simp add: ValidateAndApplyDefaults_def apply_structure_def apply_dataDir_def check_user_def
      sample_git_conf_def act_bind_def act_ok_def act_wrap_def doGitCmd_def cmd_env_def prompt_def
      username_def password_def GitStructureByDevice_def sample_os_def)

lemma sample_pool:
  "\<exists>h'. newGitDataStore sample_os sample_txt (\<lambda>p ks. ks)
     (sample_git_conf\<lparr>cg_PoolSize := 2, cg_DataDir := ''/data''\<rparr>) [] =
     (Ok (sample_pool_conf, map (pool_worker sample_pool_conf) [0..<2]), h')"
proof -
  obtain h1 where v: "ValidateAndApplyDefaults sample_os sample_txt (\<lambda>p ks. ks)
     (sample_git_conf\<lparr>cg_PoolSize := 2, cg_DataDir := ''/data''\<rparr>) [] = (Ok sample_pool_conf, h1)"
    using sample_pool_validated by blast
  have "runs (\<lambda>_. True) (concat (map (\<lambda>g. [Git (gw_dir g) [''reset'', ''--hard'']] @ [Git (gw_dir g) [''pull'']])
      (map (pool_worker sample_pool_conf) [0..<2])))
      (act_each (initialize sample_os (\<lambda>p ks. ks)) (map (pool_worker sample_pool_conf) [0..<2]))"
    by (rule runs_each) (rule runs_initialize [OF sample_os_fine])
  then obtain h2 where "act_each (initialize sample_os (\<lambda>p ks. ks))
      (map (pool_worker sample_pool_conf) [0..<2]) h1 = (Ok (), h2)"
    by (rule runsE [of _ _ _ h1]) simp
  then show ?thesis
    unfolding newGitDataStore_def act_bind_def v by (simp add: Let_def act_ok_def)
qed

theorem newGitDataStore_pool_ok_witness:
  "gw_dir (pool_worker (sample_git_conf\<lparr>cg_DataDir := ''/data''\<rparr>) 0) \<noteq>
   gw_dir (pool_worker (sample_git_conf\<lparr>cg_DataDir := ''/data''\<rparr>) 1)"
proof -
  let ?c = "sample_git_conf\<lparr>cg_PoolSize := 2, cg_DataDir := ''/data''\<rparr>"
  have c: "cg_DataDir ?c \<noteq> []" "cg_PoolSize ?c < 2 ^ 63" by simp_all
  obtain h' where "newGitDataStore sample_os sample_txt (\<lambda>p ks. ks) ?c [] =
     (Ok (sample_pool_conf, map (pool_worker sample_pool_conf) [0..<2]), h')"
    using sample_pool by blast
  from newGitDataStore_pool_ok [OF this c] show ?thesis
    by (simp add: pool_worker_def upt_rec numeral_2_eq_2)
qed

end
