(* ===== verification/Api.thy ===== *)
theory Api
  imports Scheduler_Runs Data_Store
begin

text \<open>
  The web API of the controller (controller/api.go, and the authentication wrapper of
  controller/controller.go). A request carries what net/http has parsed of it: the query of
  the request URI (\<open>None\<close> if \<open>url.ParseRequestURI\<close> fails), the \<open>Authorization\<close> header, and
  the outcome of \<open>ParseMultipartForm\<close> for a given memory limit. The response writer sends a
  snapshot of the headers with the first status, as net/http does. The decoding of basic
  authentication, \<open>json.Marshal\<close> and the limit of \<open>make\<close> are parameters.
\<close>

section \<open>Requests and responses\<close>

record form_file =
  ff_Open :: "string option"
  ff_Read :: "string + string"

record form =
  fm_Value :: "string list gomap"
  fm_File :: "form_file list gomap"

record request =
  req_Method :: string
  req_Query :: "string list gomap option"
  req_Authorization :: string
  req_Form :: "int \<Rightarrow> form option"

record writer =
  w_Header :: "string gomap"
  w_Sent :: "(int \<times> string gomap) option"
  w_Body :: string

definition new_writer :: writer where
  "new_writer = \<lparr>w_Header = [], w_Sent = None, w_Body = []\<rparr>"

definition Header_Set :: "string \<Rightarrow> string \<Rightarrow> writer \<Rightarrow> writer" where
  "Header_Set k v w = w\<lparr>w_Header := map_put k v (w_Header w)\<rparr>"

definition WriteHeader :: "int \<Rightarrow> writer \<Rightarrow> writer" where
  "WriteHeader code w = (case w_Sent w of None \<Rightarrow> w\<lparr>w_Sent := Some (code, w_Header w)\<rparr> | Some _ \<Rightarrow> w)"

definition Write_body :: "string \<Rightarrow> writer \<Rightarrow> writer" where
  "Write_body s w = (let w = WriteHeader 200 w in w\<lparr>w_Body := w_Body w @ s\<rparr>)"

definition http_Error :: "string \<Rightarrow> int \<Rightarrow> writer \<Rightarrow> writer" where
  "http_Error msg code w =
     Write_body (msg @ [CHR 0x0A])
       (WriteHeader code (Header_Set ''X-Content-Type-Options'' ''nosniff''
         (Header_Set ''Content-Type'' ''text/plain; charset=utf-8'' w)))"

definition status :: "writer \<Rightarrow> int" where
  "status w = (case w_Sent w of None \<Rightarrow> 200 | Some (code, _) \<Rightarrow> code)"

definition sent_header :: "writer \<Rightarrow> string \<Rightarrow> string option" where
  "sent_header w k = map_of (case w_Sent w of None \<Rightarrow> w_Header w | Some (_, h) \<Rightarrow> h) k"

section \<open>The controller behind the handlers\<close>

text \<open>
  The state the handlers share: the scheduler, the results passed to \<open>DataStore.Store\<close> and
  the failures written to the error log, in order.
\<close>

record 's ctl =
  ctl_Scheduler :: 's
  ctl_Stored :: "DataStoreJob list"
  ctl_Failures :: "DataStoreJob list"

record 's web =
  web_NextExecution :: "'s \<Rightarrow> string list \<Rightarrow> gotime \<Rightarrow> (Execution option \<times> 's) res"
  web_now :: gotime
  web_Marshal :: "Execution list \<Rightarrow> string + string"
  web_BasicAuth :: "string \<Rightarrow> (string \<times> string) option"
  web_make_limit :: int

type_synonym 's handler = "request \<Rightarrow> writer \<times> 's ctl \<Rightarrow> (writer \<times> 's ctl) res"

section \<open>Authentication\<close>

definition validateWebCall :: "(string \<Rightarrow> (string \<times> string) option) \<Rightarrow> cfg_Config \<Rightarrow> request \<Rightarrow> writer \<Rightarrow> bool \<times> writer" where
  "validateWebCall basicAuth conf req w =
     (if c_Username conf \<noteq> [] then
        (case basicAuth (req_Authorization req) of
           Some (u, p) \<Rightarrow>
             if u \<noteq> c_Username conf \<or> p \<noteq> c_Password conf
             then (False, Header_Set ''WWW-Authenticate'' ''Basic realm=\"Fusty\"'' (WriteHeader 401 w))
             else (True, w)
         | None \<Rightarrow> (False, Header_Set ''WWW-Authenticate'' ''Basic realm=\"Fusty\"'' (WriteHeader 401 w)))
      else if req_Authorization req \<noteq> [] then (False, WriteHeader 403 w)
      else (True, w))"

definition authedWebCall :: "('s, 'a) web_scheme \<Rightarrow> cfg_Config \<Rightarrow> 's handler \<Rightarrow> 's handler" where
  "authedWebCall web conf handler req ws =
     (case validateWebCall (web_BasicAuth web) conf req (fst ws) of
        (True, w) \<Rightarrow> handler req (w, snd ws)
      | (False, w) \<Rightarrow> Ok (w, snd ws))"

section \<open>Ping\<close>

definition apiWorkerPing :: "'s handler" where
  "apiWorkerPing req ws =
     (if req_Method req \<noteq> ''GET'' then Ok (WriteHeader 405 (fst ws), snd ws)
      else Ok (WriteHeader 200 (fst ws), snd ws))"

section \<open>Next\<close>

text \<open>The loop that collects executions, at most \<open>n\<close> of them.\<close>

fun collect :: "('s \<Rightarrow> string list \<Rightarrow> gotime \<Rightarrow> (Execution option \<times> 's) res) \<Rightarrow> string list \<Rightarrow> gotime
    \<Rightarrow> nat \<Rightarrow> 's \<Rightarrow> (Execution list \<times> 's) res" where
  "collect next tags fromNow 0 s = Ok ([], s)"
| "collect next tags fromNow (Suc n) s =
     res_bind (next s tags fromNow) (\<lambda>(found, s').
     case found of
       None \<Rightarrow> Ok ([], s')
     | Some ex \<Rightarrow> res_bind (collect next tags fromNow n s') (\<lambda>(exs, s''). Ok (ex # exs, s'')))"

definition query_values :: "string list gomap \<Rightarrow> string \<Rightarrow> string list" where
  "query_values q name = (case map_of q name of None \<Rightarrow> [] | Some vs \<Rightarrow> vs)"

text \<open>A numeric parameter: the default unless it is given exactly once, an error if it does not parse.\<close>

definition int_param :: "string list gomap \<Rightarrow> string \<Rightarrow> int \<Rightarrow> int option" where
  "int_param q name dflt =
     (case query_values q name of [v] \<Rightarrow> Atoi v | _ \<Rightarrow> Some dflt)"

definition give_executions :: "('s, 'a) web_scheme \<Rightarrow> Execution list \<Rightarrow> writer \<Rightarrow> writer" where
  "give_executions web executions w =
     (if length executions = 0 then WriteHeader 204 w
      else case web_Marshal web executions of
        Inl err \<Rightarrow> http_Error (''Internal error: '' @ err) 500 w
      | Inr body \<Rightarrow> Write_body body (Header_Set ''Content-Type'' ''application/json'' w))"

definition apiWorkerNext :: "('s, 'a) web_scheme \<Rightarrow> 's handler" where
  "apiWorkerNext web req ws =
     (case ws of (w, st) \<Rightarrow>
      if req_Method req \<noteq> ''GET'' then Ok (WriteHeader 405 w, st)
      else case req_Query req of None \<Rightarrow> Ok (WriteHeader 500 w, st)
      | Some q \<Rightarrow>
          let tags = query_values q ''tag'' in
          case int_param q ''seconds'' 15 of None \<Rightarrow> Ok (http_Error ''Invalid seconds'' 400 w, st)
          | Some seconds \<Rightarrow>
          case int_param q ''max'' 15 of None \<Rightarrow> Ok (http_Error ''Invalid max'' 400 w, st)
          | Some mx \<Rightarrow>
          if mx < 0 \<or> web_make_limit web < mx then Panic ''makeslice: cap out of range''
          else
            let fromNow = time_Add (web_now web) (wrap64 (seconds * second)) in
            res_bind (collect (web_NextExecution web) tags fromNow (nat mx) (ctl_Scheduler st))
              (\<lambda>(executions, s').
            Ok (give_executions web executions w, st\<lparr>ctl_Scheduler := s'\<rparr>)))"

section \<open>Complete\<close>

definition MaxJobBytes :: int where
  "MaxJobBytes = 524288000"

definition singleMutlipartFormValOrEmpty :: "string \<Rightarrow> form \<Rightarrow> string" where
  "singleMutlipartFormValOrEmpty name f =
     (case map_of (fm_Value f) name of None \<Rightarrow> [] | Some vals \<Rightarrow> if length vals = 0 then [] else vals ! 0)"

definition timestampOrZero :: "string \<Rightarrow> form \<Rightarrow> gotime" where
  "timestampOrZero name f =
     (let str = singleMutlipartFormValOrEmpty name f
      in if str = [] then zero_time
         else case Atoi str of None \<Rightarrow> zero_time | Some i \<Rightarrow> time_Unix i)"

text \<open>The contents of the form's file, or the text of the error; no file unless there is exactly one.\<close>

definition read_contents :: "form \<Rightarrow> string + string" where
  "read_contents f =
     (case map_of (fm_File f) ''file'' of
        Some [fl] \<Rightarrow>
          (case ff_Open fl of Some err \<Rightarrow> Inl (''Unable to read file: '' @ err)
           | None \<Rightarrow> (case ff_Read fl of Inl err \<Rightarrow> Inl (''Unable to read file: '' @ err)
                     | Inr contents \<Rightarrow> Inr contents))
      | _ \<Rightarrow> Inr [])"

definition completed_job :: "form \<Rightarrow> string \<Rightarrow> DataStoreJob" where
  "completed_job f contents =
     \<lparr>dsj_DeviceName = singleMutlipartFormValOrEmpty ''device'' f,
      dsj_JobName = singleMutlipartFormValOrEmpty ''job'' f,
      dsj_JobTime = timestampOrZero ''job_timestamp'' f,
      dsj_StartTime = timestampOrZero ''start_timestamp'' f,
      dsj_EndTime = timestampOrZero ''end_timestamp'' f,
      dsj_Failure = singleMutlipartFormValOrEmpty ''failure'' f,
      dsj_Contents = contents\<rparr>"

definition apiWorkerComplete :: "cfg_Config \<Rightarrow> 's handler" where
  "apiWorkerComplete conf req ws =
     (case ws of (w, st) \<Rightarrow>
      let maxBytes = (if c_MaxJobBytes conf \<noteq> 0 then c_MaxJobBytes conf else MaxJobBytes) in
      case req_Form req maxBytes of None \<Rightarrow> Ok (http_Error ''Invalid form'' 400 w, st)
      | Some f \<Rightarrow>
      case read_contents f of Inl err \<Rightarrow> Ok (http_Error err 500 w, st)
      | Inr contents \<Rightarrow>
      let job = completed_job f contents in
      if dsj_JobName job = [] \<or> dsj_DeviceName job = [] \<or> IsZero (dsj_JobTime job) \<or>
         IsZero (dsj_StartTime job) \<or> IsZero (dsj_EndTime job) then
        Ok (http_Error
          ''Fields job, device, job_timestamp, start_timestamp, end_timestamp are required'' 400 w, st)
      else if dsj_Failure job = [] \<and> length (dsj_Contents job) = 0 then
        Ok (http_Error ''Failure and contents may not both be empty'' 400 w, st)
      else if dsj_Failure job \<noteq> [] then
        Ok (WriteHeader 200 w, st\<lparr>ctl_Failures := ctl_Failures st @ [job]\<rparr>)
      else
        Ok (WriteHeader 200 w, st\<lparr>ctl_Stored := ctl_Stored st @ [job]\<rparr>))"

section \<open>Routing\<close>

text \<open>\<open>addApiHandlers\<close>: the handler of a path; the mux answers 404 for any other.\<close>

definition addApiHandlers :: "('s, 'a) web_scheme \<Rightarrow> cfg_Config \<Rightarrow> string \<Rightarrow> 's handler option" where
  "addApiHandlers web conf path =
     (if path = ''/worker/ping'' then Some (authedWebCall web conf apiWorkerPing)
      else if path = ''/worker/next'' then Some (authedWebCall web conf (apiWorkerNext web))
      else if path = ''/worker/complete'' then Some (authedWebCall web conf (apiWorkerComplete conf))
      else None)"

section \<open>The handlers through the scheduler's interface\<close>

context scheduler_iface
begin

lemma collect_total:
  "sch_ok s \<Longrightarrow> \<exists>exs s'. collect next_execution tags t n s = Ok (exs, s') \<and> sch_ok s' \<and> length exs \<le> n \<and>
    (\<forall>ex \<in> set exs. ex_matches tags ex)"
proof (induction n arbitrary: s)
  case 0
  then show ?case by simp
next
  case (Suc n)
  obtain found s1 where 1: "next_execution s tags t = Ok (found, s1)"
    using next_total [OF Suc.prems] by blast
  have ok: "sch_ok s1" by (rule next_keeps [OF Suc.prems 1])
  show ?case
  proof (cases found)
    case None
    with 1 ok show ?thesis by simp
  next
    case (Some ex)
    obtain exs s2 where "collect next_execution tags t n s1 = Ok (exs, s2)" "sch_ok s2" "length exs \<le> n"
      "\<forall>ex \<in> set exs. ex_matches tags ex"
      using Suc.IH [OF ok] by blast
    moreover have "ex_matches tags ex" using next_matches [OF Suc.prems] 1 Some by blast
    ultimately show ?thesis using 1 Some by simp
  qed
qed

end

section \<open>Properties of authentication\<close>

lemma writer_simps:
  "w_Sent (WriteHeader code new_writer) = Some (code, [])"
  "w_Sent (Header_Set k v w) = w_Sent w"
  by (simp_all add: WriteHeader_def new_writer_def Header_Set_def)

definition authorized :: "(string \<Rightarrow> (string \<times> string) option) \<Rightarrow> cfg_Config \<Rightarrow> request \<Rightarrow> bool" where
  "authorized basicAuth conf req \<longleftrightarrow>
     (if c_Username conf \<noteq> [] then basicAuth (req_Authorization req) = Some (c_Username conf, c_Password conf)
      else req_Authorization req = [])"

text \<open>
  C18. A handler runs only for an authorized request, and then it runs as if it were called
  directly: with a configured user only for exactly his name and password, without one only
  when no credentials are sent. Any other request leaves the controller as it is, with status
  401 or 403 and an empty body.
\<close>

theorem authedWebCall_guards:
  "authedWebCall web conf handler req (new_writer, st) =
     (if authorized (web_BasicAuth web) conf req then handler req (new_writer, st)
      else Ok (snd (validateWebCall (web_BasicAuth web) conf req new_writer), st)) \<and>
   (\<not> authorized (web_BasicAuth web) conf req \<longrightarrow>
      status (snd (validateWebCall (web_BasicAuth web) conf req new_writer)) =
        (if c_Username conf \<noteq> [] then 401 else 403) \<and>
      w_Body (snd (validateWebCall (web_BasicAuth web) conf req new_writer)) = [])"
proof -
  have "validateWebCall (web_BasicAuth web) conf req new_writer =
      (if authorized (web_BasicAuth web) conf req then (True, new_writer)
       else if c_Username conf \<noteq> []
         then (False, Header_Set ''WWW-Authenticate'' ''Basic realm=\"Fusty\"'' (WriteHeader 401 new_writer))
       else (False, WriteHeader 403 new_writer))"
    by (auto simp: validateWebCall_def authorized_def split: option.split)
  moreover have "w_Body (Header_Set k v (WriteHeader c new_writer)) = []"
    "w_Body (WriteHeader c new_writer) = []" for k v c
    by (simp_all add: Header_Set_def WriteHeader_def new_writer_def)
  ultimately show ?thesis
    by (simp add: authedWebCall_def status_def writer_simps)
qed

definition sample_web :: "schedulerLocal web" where
  "sample_web = \<lparr>web_NextExecution = NextExecution sample_cron sample_clock, web_now = sample_clock 2,
     web_Marshal = (\<lambda>exs. Inr (Itoa (int (length exs)))),
     web_BasicAuth = (\<lambda>s. if s = ''Basic dTpw'' then Some (''u'', ''p'') else None),
     web_make_limit = 2 ^ 32\<rparr>"

definition sample_ctl :: "schedulerLocal ctl" where
  "sample_ctl = \<lparr>ctl_Scheduler = sample_scheduler, ctl_Stored = [], ctl_Failures = []\<rparr>"

definition sample_get :: "string list gomap \<Rightarrow> request" where
  "sample_get q = \<lparr>req_Method = ''GET'', req_Query = Some q, req_Authorization = [], req_Form = (\<lambda>_. None)\<rparr>"

definition sample_auth_conf :: cfg_Config where
  "sample_auth_conf = NewDefault\<lparr>c_Username := ''u'', c_Password := ''p''\<rparr>"

theorem authedWebCall_guards_witness:
  "authedWebCall sample_web sample_auth_conf apiWorkerPing (sample_get []) (new_writer, sample_ctl) =
     Ok (snd (validateWebCall (web_BasicAuth sample_web) sample_auth_conf (sample_get []) new_writer), sample_ctl) \<and>
   status (snd (validateWebCall (web_BasicAuth sample_web) sample_auth_conf (sample_get []) new_writer)) = 401"
  using authedWebCall_guards [of sample_web sample_auth_conf apiWorkerPing "sample_get []" sample_ctl]
  by (simp add: authorized_def sample_web_def sample_auth_conf_def sample_get_def NewDefault_def)

text \<open>
  A refused client is never told how to authenticate: the \<open>WWW-Authenticate\<close> header is set
  only after the status has been written, so the response goes out without it.
\<close>

theorem challenge_never_sent:
  assumes "c_Username conf \<noteq> []" and "\<not> authorized basicAuth conf req"
  shows "status (snd (validateWebCall basicAuth conf req new_writer)) = 401 \<and>
    sent_header (snd (validateWebCall basicAuth conf req new_writer)) ''WWW-Authenticate'' = None"
  using assms
  by (auto simp: validateWebCall_def authorized_def status_def sent_header_def writer_simps split: option.split)

theorem challenge_never_sent_witness:
  "sent_header (snd (validateWebCall (web_BasicAuth sample_web) sample_auth_conf (sample_get []) new_writer))
     ''WWW-Authenticate'' = None"
proof -
  have "c_Username sample_auth_conf \<noteq> []" "\<not> authorized (web_BasicAuth sample_web) sample_auth_conf (sample_get [])"
    by (simp_all add: sample_auth_conf_def authorized_def sample_web_def sample_get_def)
  from challenge_never_sent [OF this] show ?thesis by blast
qed

section \<open>Properties of next\<close>

lemma give_executions_status:
  "web_Marshal web exs = Inr body \<Longrightarrow>
   status (give_executions web exs new_writer) = (if exs = [] then 204 else 200) \<and>
   w_Body (give_executions web exs new_writer) = (if exs = [] then [] else body)"
  by (simp add: give_executions_def status_def Write_body_def WriteHeader_def Header_Set_def new_writer_def
      Let_def)

text \<open>
  A well-formed request for work is answered: for a controller whose scheduler is in good
  shape \<open>/worker/next\<close> never panics for a \<open>max\<close> that is not negative, it gives at most \<open>max\<close>
  executions, each of a device with a requested tag (an untagged one if no tag is requested),
  and answers 200 with their encoding, or 204 with an empty body if there are none.
\<close>

theorem apiWorkerNext_answers:
  assumes "sched_ok (ctl_Scheduler st)" and "clock_ok clk" and "web_NextExecution web = NextExecution lib clk"
    and "req_Method req = ''GET''" and "req_Query req = Some q"
    and "int_param q ''seconds'' 15 = Some seconds" and "int_param q ''max'' 15 = Some mx"
    and "0 \<le> mx" and "mx \<le> web_make_limit web" and "\<And>exs. \<exists>body. web_Marshal web exs = Inr body"
  shows "\<exists>w' s' exs body. apiWorkerNext web req (new_writer, st) = Ok (w', st\<lparr>ctl_Scheduler := s'\<rparr>) \<and>
    sched_ok s' \<and> int (length exs) \<le> mx \<and> (\<forall>ex \<in> set exs. ex_matches (query_values q ''tag'') ex) \<and>
    web_Marshal web exs = Inr body \<and> status w' = (if exs = [] then 204 else 200) \<and>
    w_Body w' = (if exs = [] then [] else body)"
proof -
  let ?t = "time_Add (web_now web) (wrap64 (seconds * second))"
  obtain exs s' where c: "collect (NextExecution lib clk) (query_values q ''tag'') ?t (nat mx) (ctl_Scheduler st) = Ok (exs, s')"
    "sched_ok s'" "length exs \<le> nat mx" "\<forall>ex \<in> set exs. ex_matches (query_values q ''tag'') ex"
    using local_scheduler.collect_total [of "ctl_Scheduler st" clk lib "query_values q ''tag''" ?t "nat mx"]
      assms(1,2) by blast
  obtain body where b: "web_Marshal web exs = Inr body" using assms(10) by blast
  have "apiWorkerNext web req (new_writer, st) = Ok (give_executions web exs new_writer, st\<lparr>ctl_Scheduler := s'\<rparr>)"
    using c(1) assms by (simp add: apiWorkerNext_def Let_def)
  moreover have "int (length exs) \<le> mx" using c(3) assms(8) by linarith
  ultimately show ?thesis using c b give_executions_status [OF b] by blast
qed

theorem apiWorkerNext_answers_witness:
  "\<exists>w' s' exs. apiWorkerNext sample_web (sample_get [(''tag'', [''dmz'']), (''max'', [''1''])]) (new_writer, sample_ctl) =
     Ok (w', sample_ctl\<lparr>ctl_Scheduler := s'\<rparr>) \<and> int (length exs) \<le> 1 \<and>
     (\<forall>ex \<in> set exs. ex_matches [''dmz''] ex) \<and> status w' = (if exs = [] then 204 else 200)"
proof -
  let ?q = "[(''tag'', [''dmz'']), (''max'', [''1''])]"
  have q: "int_param ?q ''seconds'' 15 = Some 15" "int_param ?q ''max'' 15 = Some 1"
    by (simp_all add: int_param_def query_values_def Atoi_def)
  have w: "sched_ok (ctl_Scheduler sample_ctl)" "web_NextExecution sample_web = NextExecution sample_cron sample_clock"
    "req_Method (sample_get ?q) = ''GET''" "req_Query (sample_get ?q) = Some ?q"
    "1 \<le> web_make_limit sample_web" "\<exists>body. web_Marshal sample_web exs = Inr body" for exs
    by (simp_all add: sample_ctl_def sample_scheduler_ok sample_web_def sample_get_def)
  have "query_values ?q ''tag'' = [''dmz'']" by (simp add: query_values_def)
  then show ?thesis
    using apiWorkerNext_answers [OF w(1) sample_clock_ok w(2,3,4) q _ w(5,6)] by fastforce
qed

text \<open>
  A negative \<open>max\<close> panics: the parameter is parsed as a signed number and passed to \<open>make\<close>
  as a capacity before the loop that it bounds.
\<close>

theorem negative_max_panics:
  assumes "req_Method req = ''GET''" and "req_Query req = Some q"
    and "int_param q ''seconds'' 15 = Some seconds" and "query_values q ''max'' = [v]"
    and "Atoi v = Some mx" and "mx < 0"
  shows "is_panic (apiWorkerNext web req (w, st))"
  using assms by (simp add: apiWorkerNext_def int_param_def Let_def)

theorem negative_max_panics_witness:
  "is_panic (apiWorkerNext sample_web (sample_get [(''max'', [''-1''])]) (new_writer, sample_ctl))"
  by (rule negative_max_panics [where q = "[(''max'', [''-1''])]" and seconds = 15 and v = "''-1''" and mx = "-1"])
    (simp_all add: sample_get_def int_param_def query_values_def Atoi_def)

end
