(* ===== verification/Shell_Buffer.thy ===== *)
theory Shell_Buffer
  imports Go_Strings
begin

text \<open>
  The buffer between a shell's output and the worker (\<open>threadSafeByteBuffer\<close> in
  worker/session.go) over \<open>bytes.Buffer\<close>. The memory is explicit: the byte arrays the buffer has
  allocated, the last of which it uses. \<open>bytesAndReset\<close> returns a slice of that array, not a
  copy, and the following \<open>Reset\<close> makes the array free for the next write.
\<close>

section \<open>The buffer\<close>

record byteBuffer =
  bb_arrays :: "string list"
  bb_len :: nat

definition newThreadSafeByteBuffer :: byteBuffer where
  "newThreadSafeByteBuffer = \<lparr>bb_arrays = [[]], bb_len = 0\<rparr>"

definition overwrite :: "string \<Rightarrow> nat \<Rightarrow> string \<Rightarrow> string" where
  "overwrite a i p = take i a @ p @ drop (i + length p) a"

text \<open>\<open>bytes.Buffer.Write\<close>: in place while it fits, else in a new array (64 bytes at first).\<close>

definition new_capacity :: "nat \<Rightarrow> nat \<Rightarrow> nat" where
  "new_capacity c n = (if c = 0 \<and> n \<le> 64 then 64 else 2 * c + n)"

definition buffer_Write :: "string \<Rightarrow> byteBuffer \<Rightarrow> byteBuffer" where
  "buffer_Write p b =
     (let a = last (bb_arrays b); n = bb_len b + length p
      in if n \<le> length a then
           b\<lparr>bb_arrays := butlast (bb_arrays b) @ [overwrite a (bb_len b) p], bb_len := n\<rparr>
         else
           b\<lparr>bb_arrays := bb_arrays b @
               [take (bb_len b) a @ p @ replicate (new_capacity (length a) (length p) - n) (CHR 0x00)],
             bb_len := n\<rparr>)"

text \<open>A slice: the index of its array and its length; it starts at the array's start.\<close>

type_synonym slice = "nat \<times> nat"

definition bytesAndReset :: "byteBuffer \<Rightarrow> slice \<times> byteBuffer" where
  "bytesAndReset b = ((length (bb_arrays b) - 1, bb_len b), b\<lparr>bb_len := 0\<rparr>)"

text \<open>The shell of an SSH session: its standard input and the SSH session are events (in Sessions).\<close>

record sshSessionShell =
  stdOutAndErrBuff :: byteBuffer

definition shell_bytesAndReset :: "sshSessionShell \<Rightarrow> slice \<times> sshSessionShell" where
  "shell_bytesAndReset s =
     (let (sl, buff) = bytesAndReset (stdOutAndErrBuff s) in (sl, s\<lparr>stdOutAndErrBuff := buff\<rparr>))"

definition read_slice :: "byteBuffer \<Rightarrow> slice \<Rightarrow> string" where
  "read_slice b s = take (snd s) (bb_arrays b ! fst s)"

definition buffer_ok :: "byteBuffer \<Rightarrow> bool" where
  "buffer_ok b \<longleftrightarrow> bb_arrays b \<noteq> [] \<and> bb_len b \<le> length (last (bb_arrays b))"

definition contents :: "byteBuffer \<Rightarrow> string" where
  "contents b = take (bb_len b) (last (bb_arrays b))"

lemma buffer_Write_ok:
  assumes "buffer_ok b"
  shows "buffer_ok (buffer_Write p b) \<and> contents (buffer_Write p b) = contents b @ p"
  using assms by (cases p) (auto simp: buffer_ok_def contents_def buffer_Write_def Let_def overwrite_def min_def)

lemma bytesAndReset_ok:
  assumes "buffer_ok b" "bytesAndReset b = (s, b')"
  shows "buffer_ok b' \<and> contents b' = [] \<and> read_slice b' s = contents b"
  using assms by (auto simp: buffer_ok_def contents_def bytesAndReset_def read_slice_def last_conv_nth)

section \<open>The interface\<close>

text \<open>
  What \<open>runCommands\<close> relies on: output is handed over in order, all of it, once. \<open>drain\<close> is
  \<open>bytesAndReset\<close> with the copy of the slice right after it.
\<close>

datatype buffer_op = Output string | Drain

locale byte_queue =
  fixes put :: "string \<Rightarrow> 'b \<Rightarrow> 'b"
    and drain :: "'b \<Rightarrow> string \<times> 'b"
    and pending :: "'b \<Rightarrow> string"
    and queue_ok :: "'b \<Rightarrow> bool"
  assumes put_ok: "queue_ok b \<Longrightarrow> queue_ok (put p b)"
    and put_pending: "queue_ok b \<Longrightarrow> pending (put p b) = pending b @ p"
    and drain_ok: "queue_ok b \<Longrightarrow> queue_ok (snd (drain b))"
    and drain_all: "queue_ok b \<Longrightarrow> fst (drain b) = pending b"
    and drain_empty: "queue_ok b \<Longrightarrow> pending (snd (drain b)) = []"
begin

fun drained :: "buffer_op list \<Rightarrow> 'b \<Rightarrow> string list \<times> 'b" where
  "drained [] b = ([], b)"
| "drained (Output p # ops) b = drained ops (put p b)"
| "drained (Drain # ops) b =
     (let (out, b') = drain b; (outs, b'') = drained ops b' in (out # outs, b''))"

lemma drained_all:
  "queue_ok b \<Longrightarrow> concat (fst (drained ops b)) @ pending (snd (drained ops b)) =
     pending b @ concat (map (\<lambda>op. case op of Output p \<Rightarrow> p | Drain \<Rightarrow> []) ops)"
proof (induction ops arbitrary: b)
  case Nil
  then show ?case by simp
next
  case (Cons op ops)
  show ?case
  proof (cases op)
    case (Output p)
    then show ?thesis
      using Cons.IH [OF put_ok [OF Cons.prems]] put_pending [OF Cons.prems] by simp
  next
    case Drain
    obtain out b' where d: "drain b = (out, b')" by fastforce
    then have "queue_ok b'" "out = pending b" "pending b' = []"
      using drain_ok [OF Cons.prems] drain_all [OF Cons.prems] drain_empty [OF Cons.prems] by simp_all
    then show ?thesis
      using Cons.IH [of b'] d Drain by (simp add: split_beta Let_def)
  qed
qed

end

definition drain_buffer :: "byteBuffer \<Rightarrow> string \<times> byteBuffer" where
  "drain_buffer b = (case bytesAndReset b of (s, b') \<Rightarrow> (read_slice b' s, b'))"

interpretation shell_buffer: byte_queue buffer_Write drain_buffer contents buffer_ok
proof
  fix b p assume ok: "buffer_ok b"
  show "buffer_ok (buffer_Write p b)" "contents (buffer_Write p b) = contents b @ p"
    using buffer_Write_ok [OF ok] by simp_all
  obtain s b' where d: "bytesAndReset b = (s, b')" by fastforce
  show "buffer_ok (snd (drain_buffer b))" "fst (drain_buffer b) = contents b" "contents (snd (drain_buffer b)) = []"
    using bytesAndReset_ok [OF ok d] by (simp_all add: drain_buffer_def d)
qed

text \<open>The shell, whose output is written to its buffer, is such a queue too.\<close>

definition shell_output :: "string \<Rightarrow> sshSessionShell \<Rightarrow> sshSessionShell" where
  "shell_output p s = s\<lparr>stdOutAndErrBuff := buffer_Write p (stdOutAndErrBuff s)\<rparr>"

definition drain_shell :: "sshSessionShell \<Rightarrow> string \<times> sshSessionShell" where
  "drain_shell s = (case shell_bytesAndReset s of (sl, s') \<Rightarrow> (read_slice (stdOutAndErrBuff s') sl, s'))"

lemma drain_shell_buffer:
  "drain_shell s = (fst (drain_buffer (stdOutAndErrBuff s)), s\<lparr>stdOutAndErrBuff := snd (drain_buffer (stdOutAndErrBuff s))\<rparr>)"
  by (simp add: drain_shell_def shell_bytesAndReset_def drain_buffer_def split_beta)

interpretation shell_queue: byte_queue shell_output drain_shell "contents \<circ> stdOutAndErrBuff" "buffer_ok \<circ> stdOutAndErrBuff"
  by unfold_locales (simp_all add: shell_output_def drain_shell_buffer shell_buffer.put_ok shell_buffer.put_pending
      shell_buffer.drain_ok shell_buffer.drain_all shell_buffer.drain_empty)

section \<open>Properties\<close>

text \<open>A run of the buffer under the shell's output and the worker's reads.\<close>

fun run_buffer :: "buffer_op list \<Rightarrow> byteBuffer \<Rightarrow> string list \<times> byteBuffer" where
  "run_buffer [] b = ([], b)"
| "run_buffer (Output p # ops) b = run_buffer ops (buffer_Write p b)"
| "run_buffer (Drain # ops) b =
     (let (out, b') = drain_buffer b; (outs, b'') = run_buffer ops b' in (out # outs, b''))"

fun output_of :: "buffer_op \<Rightarrow> string" where
  "output_of (Output p) = p"
| "output_of Drain = []"

lemma run_buffer_drained: "run_buffer ops b = shell_buffer.drained ops b"
proof (induction ops arbitrary: b)
  case (Cons op ops)
  then show ?case by (cases op) (simp_all add: split_beta Let_def)
qed simp


text \<open>
  The lock does not cover that copy: \<open>bytesAndReset\<close> hands out the buffer's own memory,
  so a write that comes in before the caller has copied the slice replaces its first bytes
  with bytes that will be read a second time.
\<close>

theorem late_copy_is_torn:
  assumes "buffer_ok b" and "bytesAndReset b = (s, b')" and "length q \<le> length (contents b)"
  shows "read_slice (buffer_Write q b') s = q @ drop (length q) (contents b) \<and>
    contents (buffer_Write q b') = q"
proof -
  obtain as a where arrays: "bb_arrays b = as @ [a]"
    using assms(1) by (metis buffer_ok_def append_butlast_last_id)
  have len: "bb_len b \<le> length a" using assms(1) by (simp add: buffer_ok_def arrays)
  have s: "s = (length as, bb_len b)" and b': "b' = b\<lparr>bb_len := 0\<rparr>"
    using assms(2) by (auto simp: bytesAndReset_def arrays)
  have q: "length q \<le> bb_len b" using assms(3) len by (simp add: contents_def arrays)
  then have "buffer_Write q b' = b\<lparr>bb_arrays := as @ [q @ drop (length q) a], bb_len := length q\<rparr>"
    using len by (simp add: buffer_Write_def b' arrays overwrite_def Let_def)
  moreover have "take (bb_len b) (q @ drop (length q) a) = q @ drop (length q) (take (bb_len b) a)"
    using q by (simp add: drop_take)
  ultimately show ?thesis
    by (simp add: read_slice_def s contents_def arrays nth_append)
qed

theorem late_copy_is_torn_witness:
  "read_slice (buffer_Write ''AB'' (snd (bytesAndReset (buffer_Write ''hostname'' newThreadSafeByteBuffer))))
     (fst (bytesAndReset (buffer_Write ''hostname'' newThreadSafeByteBuffer))) = ''ABstname''"
proof -
  let ?b = "buffer_Write ''hostname'' newThreadSafeByteBuffer"
  have e: "buffer_ok newThreadSafeByteBuffer" "contents newThreadSafeByteBuffer = []"
    by (simp_all add: buffer_ok_def newThreadSafeByteBuffer_def contents_def)
  note b = buffer_Write_ok [OF e(1), of "''hostname''"]
  obtain s b' where d: "bytesAndReset ?b = (s, b')" by fastforce
  have "length ''AB'' \<le> length (contents ?b)" using b e(2) by simp
  from late_copy_is_torn [OF conjunct1 [OF b] d this] show ?thesis using d b e(2) by simp
qed

end
