(* ===== verification/Sessions.thy ===== *)
theory Sessions
  imports Devices Actions
begin

text \<open>
  Sessions on a device (worker/session.go). The SSH and SFTP libraries, the network and the
  clock are outside: every call of them is an event, answered by a parameter of type
  \<open>network\<close>. What the shell prints arrives with the answers of \<open>EvReceive\<close>: the bytes that
  \<open>bytesAndReset\<close> finds in the shell's buffer (its memory is in Shell_Buffer).
\<close>

datatype dev_event =
    EvNow
  | EvSleep
  | EvDial string string string bool
  | EvClientClose
  | EvNewSession
  | EvStdinPipe
  | EvRequestPty
  | EvStartShell
  | EvSessionClose
  | EvStdinClose
  | EvSend string
  | EvReceive
  | EvCombinedOutput string
  | EvSftpClient
  | EvSftpClose
  | EvSftpOpen string
  | EvSftpReadAll string

record dev_answer =
  dv_err :: "string option"
  dv_bytes :: string
  dv_now :: gotime

type_synonym network = "dev_event list \<Rightarrow> dev_event \<Rightarrow> dev_answer"

type_synonym 'a dev_act = "(dev_event, 'a) action"

text \<open>A call whose only result is an error.\<close>

definition dev_do :: "network \<Rightarrow> dev_event \<Rightarrow> (string \<Rightarrow> string) \<Rightarrow> unit dev_act" where
  "dev_do net ev f = act_bind (ask net ev) (\<lambda>a.
     case dv_err a of Some err \<Rightarrow> act_err (f err) | None \<Rightarrow> act_ok ())"

section \<open>The SSH session\<close>

text \<open>A session that has been dialled: the host for its messages; \<open>client\<close> is set.\<close>

record sshSession =
  ss_Host :: string

definition newSession :: "Device \<Rightarrow> unit res" where
  "newSession device =
     (case dev_DeviceProtocol device of None \<Rightarrow> nil_deref
      | Some p \<Rightarrow> (case dp_SshDeviceProtocol p of None \<Rightarrow> Err ''Unable to find SSH settings''
                   | Some _ \<Rightarrow> Ok ()))"

text \<open>\<open>authenticate\<close> dereferences the credentials and the protocol before it dials.\<close>

definition authenticate :: "network \<Rightarrow> Device \<Rightarrow> sshSession dev_act" where
  "authenticate net device =
     (case dev_DeviceCredentials device of
        None \<Rightarrow> act_panic ''invalid memory address or nil pointer dereference''
      | Some creds \<Rightarrow>
     (case Option.bind (dev_DeviceProtocol device) dp_SshDeviceProtocol of
        None \<Rightarrow> act_panic ''invalid memory address or nil pointer dereference''
      | Some ssh \<Rightarrow>
          let hostPort = dev_Host device @ '':'' @ Itoa (ssh_Port ssh)
          in act_bind (dev_do net (EvDial hostPort (cred_User creds) (cred_Pass creds) (ssh_IncludeCbcCiphers ssh))
               (\<lambda>err. ''Unable to connect to '' @ hostPort @ '': '' @ err)) (\<lambda>_.
             act_ok \<lparr>ss_Host = dev_Host device\<rparr>)))"

text \<open>\<open>close\<close> of a session that has a client.\<close>

definition session_close :: "network \<Rightarrow> string option dev_act" where
  "session_close net = act_bind (ask net EvClientClose) (\<lambda>a. act_ok (dv_err a))"

definition session_run :: "network \<Rightarrow> sshSession \<Rightarrow> string \<Rightarrow> (string \<times> string option) dev_act" where
  "session_run net s cmd =
     act_bind (ask net EvNewSession) (\<lambda>a. case dv_err a of
       Some err \<Rightarrow> act_ok ([], Some (''Unable to initiate session on '' @ ss_Host s @ '': '' @ err))
     | None \<Rightarrow>
         act_finally
           (act_bind (ask net (EvCombinedOutput cmd)) (\<lambda>res. act_ok (dv_bytes res, dv_err res)))
           (ask net EvSessionClose))"

definition session_fetchFile :: "network \<Rightarrow> sshSession \<Rightarrow> string \<Rightarrow> string dev_act" where
  "session_fetchFile net s path =
     act_bind (dev_do net EvSftpClient (\<lambda>err. ''Unable to connect to SFTP on '' @ ss_Host s @ '': '' @ err)) (\<lambda>_.
     act_finally
       (act_bind (dev_do net (EvSftpOpen path)
          (\<lambda>err. ''Unable to open '' @ path @ '' via SFTP on '' @ ss_Host s @ '': '' @ err)) (\<lambda>_.
        act_bind (ask net (EvSftpReadAll path)) (\<lambda>a. case dv_err a of
          Some err \<Rightarrow> act_err (''Unable to read '' @ path @ '' via SFTP on '' @ ss_Host s @ '': '' @ err)
        | None \<Rightarrow> act_ok (dv_bytes a))))
       (ask net EvSftpClose))"

section \<open>The shell\<close>

text \<open>A step of \<open>shell\<close> after the SSH session is open: on an error the session is closed again.\<close>

definition shell_step :: "network \<Rightarrow> dev_event \<Rightarrow> (string \<Rightarrow> string) \<Rightarrow> unit dev_act" where
  "shell_step net ev f =
     act_bind (ask net ev) (\<lambda>a. case dv_err a of
       Some err \<Rightarrow> act_bind (ask net EvSessionClose) (\<lambda>_. act_err (f err))
     | None \<Rightarrow> act_ok ())"

definition open_shell :: "network \<Rightarrow> sshSession \<Rightarrow> unit dev_act" where
  "open_shell net s =
     act_bind (dev_do net EvNewSession (\<lambda>err. ''Unable to initiate session on '' @ ss_Host s @ '': '' @ err)) (\<lambda>_.
     act_bind (shell_step net EvStdinPipe (\<lambda>err. ''Unable to open stdin pipe on '' @ ss_Host s @ '': '' @ err)) (\<lambda>_.
     act_bind (shell_step net EvRequestPty (\<lambda>err. ''Unable to request pty on '' @ ss_Host s @ '': '' @ err)) (\<lambda>_.
     shell_step net EvStartShell (\<lambda>err. ''Unable to start shell on '' @ ss_Host s @ '': '' @ err))))"

definition show_error :: "string option \<Rightarrow> string" where
  "show_error err = (case err of None \<Rightarrow> ''<nil>'' | Some e \<Rightarrow> e)"

text \<open>\<open>close\<close> of a shell wraps its error whether there is one or not.\<close>

definition shell_close :: "network \<Rightarrow> string option dev_act" where
  "shell_close net =
     act_bind (ask net EvStdinClose) (\<lambda>a.
     act_bind (ask net EvSessionClose) (\<lambda>b.
     let ret = (case dv_err b of Some err \<Rightarrow> Some err | None \<Rightarrow> dv_err a)
     in act_ok (Some (''Unable to close shell: '' @ show_error ret))))"

end
