(* ===== verification/Executor.thy ===== *)
theory Executor
  imports Sessions Templates "HOL-Library.List_Lexorder" "HOL-Library.Char_ord"
begin

text \<open>
  Running one execution on a device (worker/executor.go): commands in a shell or files over
  SFTP, then scrubbing of what was fetched. The regular expression engine and gzip are
  parameters (\<open>bytes_lib\<close>); a compiled expression is named by its source. \<open>wl_Verbose\<close> is the
  package's flag: it matters here because a log line of the verbose mode can panic.
\<close>

record bytes_lib =
  re_Compile :: "string \<Rightarrow> string option"
  re_Match :: "string \<Rightarrow> string \<Rightarrow> bool"
  re_ReplaceAllLiteral :: "string \<Rightarrow> string \<Rightarrow> string \<Rightarrow> string"
  re_ReplaceAll :: "string \<Rightarrow> string \<Rightarrow> string \<Rightarrow> string"
  gz_NewReader :: "string \<Rightarrow> string option"
  gz_ReadAll :: "string \<Rightarrow> string + string"
  wl_Verbose :: bool

record exec_result =
  res_jobName :: string
  res_deviceName :: string
  res_jobTimestamp :: int
  res_startTimestamp :: int
  res_endTimestamp :: int
  res_file :: string
  res_failure :: "string option"

definition lf :: string where
  "lf = [CHR 0x0A]"

section \<open>Scrubbing\<close>

text \<open>
  \<open>bytes.Replace\<close> with an empty \<open>old\<close> puts \<open>new\<close> before every UTF-8 sequence and at the end;
  a byte that starts no valid sequence counts as one.
\<close>

definition byte :: "char \<Rightarrow> nat" where
  "byte c = of_char c"

definition cont :: "char \<Rightarrow> bool" where
  "cont c \<longleftrightarrow> 0x80 \<le> byte c \<and> byte c \<le> 0xBF"

definition rune_len :: "string \<Rightarrow> nat" where
  "rune_len s =
     (case s of
        a # b # c # d # _ \<Rightarrow>
          if 0xC2 \<le> byte a \<and> byte a \<le> 0xDF \<and> cont b then 2
          else if 0xE0 \<le> byte a \<and> byte a \<le> 0xEF \<and> cont b \<and> cont c \<and> (byte a = 0xE0 \<longrightarrow> 0xA0 \<le> byte b)
              \<and> (byte a = 0xED \<longrightarrow> byte b \<le> 0x9F) then 3
          else if 0xF0 \<le> byte a \<and> byte a \<le> 0xF4 \<and> cont b \<and> cont c \<and> cont d
              \<and> (byte a = 0xF0 \<longrightarrow> 0x90 \<le> byte b) \<and> (byte a = 0xF4 \<longrightarrow> byte b \<le> 0x8F) then 4
          else 1
      | [a, b, c] \<Rightarrow>
          if 0xC2 \<le> byte a \<and> byte a \<le> 0xDF \<and> cont b then 2
          else if 0xE0 \<le> byte a \<and> byte a \<le> 0xEF \<and> cont b \<and> cont c \<and> (byte a = 0xE0 \<longrightarrow> 0xA0 \<le> byte b)
              \<and> (byte a = 0xED \<longrightarrow> byte b \<le> 0x9F) then 3
          else 1
      | [a, b] \<Rightarrow> if 0xC2 \<le> byte a \<and> byte a \<le> 0xDF \<and> cont b then 2 else 1
      | _ \<Rightarrow> 1)"

function insert_between :: "string \<Rightarrow> string \<Rightarrow> string" where
  "insert_between new [] = new"
| "insert_between new (c # cs) =
     new @ take (max 1 (rune_len (c # cs))) (c # cs) @ insert_between new (drop (max 1 (rune_len (c # cs))) (c # cs))"
  by pat_completeness auto
termination
  by (relation "measure (\<lambda>(new, s). length s)") auto

definition bytes_Replace :: "string \<Rightarrow> string \<Rightarrow> string \<Rightarrow> string" where
  "bytes_Replace s old new = (if old = [] then insert_between new s else replace_ne old new s)"

definition scrub_step :: "bytes_lib \<Rightarrow> string \<Rightarrow> JobScrubber \<Rightarrow> string res" where
  "scrub_step lib clean scrubber =
     (if scr_Type scrubber = ''regex'' \<or> scr_Type scrubber = ''regex_substitute'' then
        (case re_Compile lib (scr_Search scrubber) of
           Some err \<Rightarrow> Err (''Unable to compile scrubber search '' @ quoted (scr_Search scrubber) @ '': '' @ err)
         | None \<Rightarrow>
             if scr_Type scrubber = ''regex''
             then Ok (re_ReplaceAllLiteral lib (scr_Search scrubber) clean (scr_Replace scrubber))
             else Ok (re_ReplaceAll lib (scr_Search scrubber) clean (scr_Replace scrubber)))
      else Ok (bytes_Replace clean (scr_Search scrubber) (scr_Replace scrubber)))"

definition scrubBytes :: "bytes_lib \<Rightarrow> string \<Rightarrow> Job \<Rightarrow> string res" where
  "scrubBytes lib dirty job = foldM (scrub_step lib) dirty (job_Scrubbers job)"

text \<open>
  What \<open>runExecution\<close> does with the outcome of the job: the file and the failure it reports.
  \<open>scrubBytes\<close> never panics.
\<close>

definition scrub_result :: "bytes_lib \<Rightarrow> Job \<Rightarrow> string \<times> string option \<Rightarrow> string \<times> string option" where
  "scrub_result lib job out =
     (if length (fst out) > 0 \<and> length (job_Scrubbers job) > 0 then
        (case scrubBytes lib (fst out) job of
           Ok clean \<Rightarrow> (clean, snd out)
         | Err err \<Rightarrow> ([], if snd out = None then Some err else snd out)
         | Panic p \<Rightarrow> ([], Some p))
      else out)"

section \<open>Commands\<close>

fun compile_all :: "bytes_lib \<Rightarrow> string list \<Rightarrow> string option" where
  "compile_all lib [] = None"
| "compile_all lib (exp # exps) =
     (case re_Compile lib exp of
        Some err \<Rightarrow> Some (''Unable to compile regex '' @ quoted exp @ '': '' @ err)
      | None \<Rightarrow> compile_all lib exps)"

text \<open>The index of the first pattern that matches.\<close>

fun first_match :: "bytes_lib \<Rightarrow> string \<Rightarrow> nat \<Rightarrow> string list \<Rightarrow> nat option" where
  "first_match lib out i [] = None"
| "first_match lib out i (exp # exps) =
     (if re_Match lib exp out then Some i else first_match lib out (Suc i) exps)"

text \<open>
  The polling loop of a command, \<open>n\<close> rounds: all the output so far, and whether an expected
  pattern matched (\<open>Inr\<close>) or the failure that ends the job (\<open>Inl\<close>). The verbose log line of a
  failure pattern reads \<open>cmd.Expect\<close> at the index of \<open>cmd.ExpectNot\<close>.
\<close>

fun poll :: "network \<Rightarrow> bytes_lib \<Rightarrow> CommandSetCommand \<Rightarrow> nat \<Rightarrow> string \<Rightarrow> string
    \<Rightarrow> (string \<times> (string + bool)) dev_act" where
  "poll net lib cmd 0 thisCommandBytes buff = act_ok (buff, Inr False)"
| "poll net lib cmd (Suc n) thisCommandBytes buff =
     act_bind (ask net EvReceive) (\<lambda>a.
     let thisCommandBytes = thisCommandBytes @ dv_bytes a; buff = buff @ dv_bytes a
     in case first_match lib thisCommandBytes 0 (cmd_ExpectNot cmd) of
          Some i \<Rightarrow>
            if wl_Verbose lib \<and> length (cmd_Expect cmd) \<le> i then act_panic ''index out of range''
            else act_ok (buff, Inl (''Output of command '' @ quoted (cmd_Command cmd) @
              '' matched failure pattern: '' @ cmd_ExpectNot cmd ! i))
        | None \<Rightarrow>
            if first_match lib thisCommandBytes 0 (cmd_Expect cmd) \<noteq> None then act_ok (buff, Inr True)
            else act_bind (ask net EvSleep) (\<lambda>_. poll net lib cmd n thisCommandBytes buff))"

definition expect_output :: "network \<Rightarrow> bytes_lib \<Rightarrow> CommandSetCommand \<Rightarrow> string \<Rightarrow> (string \<times> string option) dev_act" where
  "expect_output net lib cmd buff =
     (case compile_all lib (cmd_Expect cmd @ cmd_ExpectNot cmd) of
        Some err \<Rightarrow> act_ok (buff, Some err)
      | None \<Rightarrow>
          act_bind (poll net lib cmd (nat (cmd_Timeout cmd)) [] buff) (\<lambda>(buff, out). case out of
            Inl err \<Rightarrow> act_ok (buff, Some err)
          | Inr matchSuccess \<Rightarrow>
              if length (cmd_Expect cmd) > 0 \<and> \<not> matchSuccess then
                act_ok (buff, Some (''Output of command '' @ quoted (cmd_Command cmd) @
                  '' never matched expected pattern(s)''))
              else act_ok (buff, None)))"

text \<open>One command: the output so far, and the error that ends the job, if any.\<close>

definition run_command :: "network \<Rightarrow> bytes_lib \<Rightarrow> CommandSetCommand \<Rightarrow> string \<Rightarrow> (string \<times> string option) dev_act" where
  "run_command net lib cmd buff =
     act_bind (ask net EvReceive) (\<lambda>a.
     let buff = buff @ dv_bytes a in
     act_bind (ask net (EvSend (cmd_Command cmd))) (\<lambda>w. case dv_err w of
       Some err \<Rightarrow> act_ok (buff, Some (''Error writing command '' @ quoted (cmd_Command cmd) @ '': '' @ err))
     | None \<Rightarrow>
         act_bind (if cmd_ImplicitEnter cmd then act_bind (ask net (EvSend lf)) (\<lambda>w. act_ok (dv_err w))
                   else act_ok None) (\<lambda>e. case e of
           Some err \<Rightarrow> act_ok (buff, Some (''Error entering after command '' @ quoted (cmd_Command cmd) @ '': '' @ err))
         | None \<Rightarrow> if cmd_Timeout cmd = 0 then act_ok (buff, None) else expect_output net lib cmd buff)))"

fun run_all :: "network \<Rightarrow> bytes_lib \<Rightarrow> CommandSetCommand list \<Rightarrow> string \<Rightarrow> (string \<times> string option) dev_act" where
  "run_all net lib [] buff = act_ok (buff, None)"
| "run_all net lib (cmd # cmds) buff =
     act_bind (run_command net lib cmd buff) (\<lambda>(buff, err). case err of
       Some e \<Rightarrow> act_ok (buff, Some e)
     | None \<Rightarrow> run_all net lib cmds buff)"

definition runCommands :: "network \<Rightarrow> bytes_lib \<Rightarrow> sshSession \<Rightarrow> CommandSet \<Rightarrow> (string \<times> string option) dev_act" where
  "runCommands net lib sess cs =
     act_bind (act_try (open_shell net sess)) (\<lambda>err. case err of
       Some e \<Rightarrow> act_ok ([], Some (''Unable to open shell: '' @ e))
     | None \<Rightarrow>
         act_finally
           (act_bind (ask net EvSleep) (\<lambda>_.
            act_bind (ask net EvReceive) (\<lambda>_.
            run_all net lib (cset_Commands cs) [])))
           (shell_close net))"

section \<open>Files\<close>

definition fileContentsHr :: string where
  "fileContentsHr = replicate 12 (CHR ''-'')"

definition decompress :: "bytes_lib \<Rightarrow> string \<Rightarrow> FileSetFile option \<Rightarrow> string \<Rightarrow> string res" where
  "decompress lib path f fileBytes =
     (case f of None \<Rightarrow> nil_deref
      | Some file \<Rightarrow>
          if file_Compression file = ''gzip'' then
            (case gz_NewReader lib fileBytes of
               Some err \<Rightarrow> Err (''Unable to begin decompressing file '' @ path @ '': '' @ err)
             | None \<Rightarrow> (case gz_ReadAll lib fileBytes of
                 Inl err \<Rightarrow> Err (''Unable to decompress file '' @ path @ '': '' @ err)
               | Inr bytes \<Rightarrow> Ok bytes))
          else Ok fileBytes)"

definition file_section :: "nat \<Rightarrow> nat \<Rightarrow> string \<Rightarrow> string \<Rightarrow> string" where
  "file_section npaths i path fileBytes =
     (if i > 0 then lf else []) @
     (if npaths > 1 then fileContentsHr @ lf @ ''File: '' @ path @ lf @ fileContentsHr @ lf else []) @ fileBytes"

fun fetch_all :: "network \<Rightarrow> bytes_lib \<Rightarrow> sshSession \<Rightarrow> FileSetFile gomap \<Rightarrow> nat \<Rightarrow> nat \<Rightarrow> string list \<Rightarrow> string
    \<Rightarrow> string dev_act" where
  "fetch_all net lib sess files npaths i [] buf = act_ok buf"
| "fetch_all net lib sess files npaths i (path # paths) buf =
     act_bind (session_fetchFile net sess path) (\<lambda>fileBytes.
     act_bind (act_res (decompress lib path (map_of files path) fileBytes)) (\<lambda>fileBytes.
     fetch_all net lib sess files npaths (Suc i) paths (buf @ file_section npaths i path fileBytes)))"

definition fetchFile :: "network \<Rightarrow> bytes_lib \<Rightarrow> sshSession \<Rightarrow> FileSet \<Rightarrow> string dev_act" where
  "fetchFile net lib sess fs =
     (let paths = sort (map file_Name (fset_Files fs));
          files = foldl (\<lambda>m f. map_put (file_Name f) f m) [] (fset_Files fs)
      in fetch_all net lib sess files (length paths) 0 paths [])"

section \<open>Jobs and executions\<close>

definition runJob :: "network \<Rightarrow> bytes_lib \<Rightarrow> sshSession \<Rightarrow> Job \<Rightarrow> (string \<times> string option) dev_act" where
  "runJob net lib sess job =
     (case job_FileSet job of
        Some fs \<Rightarrow> (\<lambda>h. case fetchFile net lib sess fs h of
          (Ok bytes, h') \<Rightarrow> (Ok (bytes, None), h')
        | (Err err, h') \<Rightarrow> (Ok ([], Some err), h')
        | (Panic p, h') \<Rightarrow> (Panic p, h'))
      | None \<Rightarrow>
          (case job_CommandSet job of
             Some cs \<Rightarrow> runCommands net lib sess cs
           | None \<Rightarrow> act_ok ([], Some ''Unable to find file set or command set to run'')))"

definition new_result :: "Execution \<Rightarrow> gotime \<Rightarrow> exec_result" where
  "new_result ex now =
     \<lparr>res_jobName = job_Name (ex_Job ex), res_deviceName = dev_Name (ex_Device ex),
      res_jobTimestamp = ex_Timestamp ex, res_startTimestamp = Unix now, res_endTimestamp = 0,
      res_file = [], res_failure = None\<rparr>"

definition finish :: "network \<Rightarrow> exec_result \<Rightarrow> string \<times> string option \<Rightarrow> exec_result dev_act" where
  "finish net res out =
     act_bind (ask net EvNow) (\<lambda>now.
     act_ok (res\<lparr>res_endTimestamp := Unix (dv_now now), res_file := fst out, res_failure := snd out\<rparr>))"

definition run_session :: "network \<Rightarrow> bytes_lib \<Rightarrow> Execution \<Rightarrow> exec_result \<Rightarrow> exec_result dev_act" where
  "run_session net lib ex res = (\<lambda>h.
     case authenticate net (ex_Device ex) h of
       (Panic p, h') \<Rightarrow> (Panic p, h')
     | (Err err, h') \<Rightarrow> finish net res ([], Some (''Authentication failed - '' @ err)) h'
     | (Ok sess, h') \<Rightarrow>
         act_finally
           (act_bind (runJob net lib sess (ex_Job ex)) (\<lambda>out.
            finish net res (scrub_result lib (ex_Job ex) out)))
           (session_close net) h')"

definition runExecution :: "network \<Rightarrow> bytes_lib \<Rightarrow> Execution \<Rightarrow> exec_result dev_act" where
  "runExecution net lib ex =
     act_bind (ask net EvNow) (\<lambda>now.
     let res = new_result ex (dv_now now)
     in case newSession (ex_Device ex) of
          Panic p \<Rightarrow> act_panic p
        | Err err \<Rightarrow> finish net res ([], Some (''Unable to initiate session - '' @ err))
        | Ok _ \<Rightarrow> run_session net lib ex res)"

end
