(* ===== verification/Executor_Properties.thy ===== *)
theory Executor_Properties
  imports Executor "HOL-Library.Sublist"
begin

text \<open>
  What running a job does: the dialogue with the device, its duration, what is captured, and
  what leaves the worker.
\<close>

section \<open>Traces of actions\<close>

text \<open>\<open>traced R m\<close>: from every history \<open>m\<close> only adds events, and outcome and events satisfy \<open>R\<close>.\<close>

definition traced :: "('e list \<Rightarrow> 'a res \<Rightarrow> 'e list \<Rightarrow> bool) \<Rightarrow> ('e, 'a) action \<Rightarrow> bool" where
  "traced R m \<longleftrightarrow> (\<forall>h. \<exists>evs. snd (m h) = h @ evs \<and> R h (fst (m h)) evs)"

lemma tracedE:
  assumes "traced R m"
  obtains evs where "snd (m h) = h @ evs" "R h (fst (m h)) evs"
  using assms unfolding traced_def by blast

lemma traced_ok: "(\<And>h. R h (Ok a) []) \<Longrightarrow> traced R (act_ok a)"
  by (simp add: traced_def act_ok_def)

lemma traced_ask: "(\<And>h. R h (Ok (env h ev)) [ev]) \<Longrightarrow> traced R (ask env ev)"
  by (simp add: traced_def ask_def)

lemma traced_bind:
  assumes "traced R m"
    and "\<And>h a evs. R h (Ok a) evs \<Longrightarrow>
      \<exists>S. traced S (f a) \<and> (\<forall>out evs'. S (h @ evs) out evs' \<longrightarrow> T h out (evs @ evs'))"
    and "\<And>h e evs. R h (Err e) evs \<Longrightarrow> T h (Err e) evs"
    and "\<And>h p evs. R h (Panic p) evs \<Longrightarrow> T h (Panic p) evs"
  shows "traced T (act_bind m f)"
  unfolding traced_def
proof
  fix h
  obtain out h1 where m: "m h = (out, h1)" by fastforce
  obtain evs where 1: "h1 = h @ evs" "R h out evs"
    using tracedE [OF assms(1), of h] m by auto
  show "\<exists>evs. snd (act_bind m f h) = h @ evs \<and> T h (fst (act_bind m f h)) evs"
  proof (cases out)
    case (Ok a)
    obtain S where S: "traced S (f a)" "\<forall>out evs'. S (h @ evs) out evs' \<longrightarrow> T h out (evs @ evs')"
      using assms(2) 1(2) Ok by blast
    obtain evs' where "snd (f a h1) = h1 @ evs'" "S h1 (fst (f a h1)) evs'"
      using tracedE [OF S(1), of h1] by blast
    then show ?thesis using S(2) 1 Ok m by (intro exI [of _ "evs @ evs'"]) (simp add: act_bind_def)
  qed (use 1 m assms(3,4) in \<open>auto simp: act_bind_def\<close>)
qed

lemma traced_weaken: "traced R m \<Longrightarrow> (\<And>h out evs. R h out evs \<Longrightarrow> S h out evs) \<Longrightarrow> traced S m"
  unfolding traced_def by blast

section \<open>The dialogue of a command job\<close>

definition sends :: "dev_event list \<Rightarrow> string list" where
  "sends evs = concat (map (\<lambda>e. case e of EvSend s \<Rightarrow> [s] | _ \<Rightarrow> []) evs)"

definition sleeps :: "dev_event list \<Rightarrow> nat" where
  "sleeps evs = length (filter (\<lambda>e. e = EvSleep) evs)"

fun received :: "network \<Rightarrow> dev_event list \<Rightarrow> dev_event list \<Rightarrow> string" where
  "received net h [] = []"
| "received net h (e # evs) =
     (if e = EvReceive then dv_bytes (net h e) else []) @ received net (h @ [e]) evs"

lemma sends_append [simp]: "sends (xs @ ys) = sends xs @ sends ys"
  by (simp add: sends_def)

lemma sleeps_append [simp]: "sleeps (xs @ ys) = sleeps xs + sleeps ys"
  by (simp add: sleeps_def)

lemma received_append [simp]: "received net h (xs @ ys) = received net h xs @ received net (h @ xs) ys"
  by (induction xs arbitrary: h) simp_all

lemma sends_simps [simp]:
  "sends [] = []" "sends (e # evs) = (case e of EvSend s \<Rightarrow> [s] | _ \<Rightarrow> []) @ sends evs"
  by (simp_all add: sends_def)

lemma sleeps_simps [simp]:
  "sleeps [] = 0" "sleeps (e # evs) = (if e = EvSleep then 1 else 0) + sleeps evs"
  by (simp_all add: sleeps_def)

definition job_trace :: "network \<Rightarrow> string list \<Rightarrow> nat \<Rightarrow> string \<Rightarrow> dev_event list
    \<Rightarrow> (string \<times> string option) res \<Rightarrow> dev_event list \<Rightarrow> bool" where
  "job_trace net script n buff h out evs \<longleftrightarrow>
     (\<exists>buff' err. out = Ok (buff', err) \<and> buff' = buff @ received net h evs \<and> sleeps evs \<le> n \<and>
        prefix (sends evs) script \<and> (err = None \<longrightarrow> sends evs = script))"

text \<open>A command whose failure patterns cannot make the verbose log line panic.\<close>

definition log_safe :: "bytes_lib \<Rightarrow> CommandSetCommand \<Rightarrow> bool" where
  "log_safe lib cmd \<longleftrightarrow> \<not> wl_Verbose lib \<or> length (cmd_ExpectNot cmd) \<le> length (cmd_Expect cmd)"

lemma first_match_bound: "first_match lib out i exps = Some k \<Longrightarrow> i \<le> k \<and> k < i + length exps"
  by (induction exps arbitrary: i) (fastforce split: if_splits)+

lemma poll_trace:
  assumes "log_safe lib cmd"
  shows "traced (\<lambda>h out evs. \<exists>buff' r. out = Ok (buff', r) \<and> buff' = buff @ received net h evs \<and>
    sleeps evs \<le> n \<and> sends evs = []) (poll net lib cmd n this_bytes buff)"
proof (induction n arbitrary: this_bytes buff)
  case 0
  then show ?case by (simp add: traced_ok)
next
  case (Suc n)
  have panic: "\<not> (wl_Verbose lib \<and> length (cmd_Expect cmd) \<le> i)"
    if "first_match lib out 0 (cmd_ExpectNot cmd) = Some i" for i out
    using first_match_bound [OF that] assms by (auto simp: log_safe_def)
  have step: "\<exists>S. traced S
      (let this_bytes = this_bytes @ dv_bytes a; buff = buff @ dv_bytes a
       in case first_match lib this_bytes 0 (cmd_ExpectNot cmd) of
            Some i \<Rightarrow>
              if wl_Verbose lib \<and> length (cmd_Expect cmd) \<le> i then act_panic ''index out of range''
              else act_ok (buff, Inl (''Output of command '' @ quoted (cmd_Command cmd) @
                '' matched failure pattern: '' @ cmd_ExpectNot cmd ! i))
          | None \<Rightarrow>
              if first_match lib this_bytes 0 (cmd_Expect cmd) \<noteq> None then act_ok (buff, Inr True)
              else act_bind (ask net EvSleep) (\<lambda>_. poll net lib cmd n this_bytes buff)) \<and>
      (\<forall>out evs'. S (h @ [EvReceive]) out evs' \<longrightarrow>
        (\<exists>buff' r. out = Ok (buff', r) \<and> buff' = buff @ received net h ([EvReceive] @ evs') \<and>
           sleeps ([EvReceive] @ evs') \<le> Suc n \<and> sends ([EvReceive] @ evs') = []))"
    if a: "a = net h EvReceive" for a h
  proof -
    let ?S = "\<lambda>h' out evs'. \<exists>buff' r. out = Ok (buff', r) \<and> buff' = (buff @ dv_bytes a) @ received net h' evs' \<and>
      sleeps evs' \<le> Suc n \<and> sends evs' = []"
    have rest: "traced ?S (act_bind (ask net EvSleep) (\<lambda>_. poll net lib cmd n (this_bytes @ dv_bytes a) (buff @ dv_bytes a)))"
    proof (rule traced_bind [where R = "\<lambda>h' out evs. evs = [EvSleep] \<and> (\<exists>x. out = Ok x)"])
      show "traced (\<lambda>h' out evs. evs = [EvSleep] \<and> (\<exists>x. out = Ok x)) (ask net EvSleep)"
        by (rule traced_ask) simp
      show "\<exists>S. traced S (poll net lib cmd n (this_bytes @ dv_bytes a) (buff @ dv_bytes a)) \<and>
          (\<forall>out evs'. S (h' @ evs) out evs' \<longrightarrow> ?S h' out (evs @ evs'))"
        if "evs = [EvSleep] \<and> (\<exists>x. Ok x0 = Ok x)" for h' x0 evs
        by (rule exI, rule conjI, rule Suc.IH) (use that in auto)
    qed auto
    have "traced ?S
      (case first_match lib (this_bytes @ dv_bytes a) 0 (cmd_ExpectNot cmd) of
            Some i \<Rightarrow>
              if wl_Verbose lib \<and> length (cmd_Expect cmd) \<le> i then act_panic ''index out of range''
              else act_ok (buff @ dv_bytes a, Inl (''Output of command '' @ quoted (cmd_Command cmd) @
                '' matched failure pattern: '' @ cmd_ExpectNot cmd ! i))
          | None \<Rightarrow>
              if first_match lib (this_bytes @ dv_bytes a) 0 (cmd_Expect cmd) \<noteq> None then act_ok (buff @ dv_bytes a, Inr True)
              else act_bind (ask net EvSleep) (\<lambda>_. poll net lib cmd n (this_bytes @ dv_bytes a) (buff @ dv_bytes a)))"
    proof (cases "first_match lib (this_bytes @ dv_bytes a) 0 (cmd_ExpectNot cmd)")
      case None
      then show ?thesis using rest by (simp add: traced_ok)
    next
      case (Some i)
      then show ?thesis using panic [OF Some] by (auto intro!: traced_ok)
    qed
    then show ?thesis unfolding Let_def by (intro exI [of _ ?S]) (auto simp: a)
  qed
  show ?case
    unfolding poll.simps
    by (rule traced_bind [where R = "\<lambda>h out evs. evs = [EvReceive] \<and> out = Ok (net h EvReceive)"])
      (auto intro: traced_ask simp del: Let_def intro!: step [simplified])
qed

lemma job_traceI [intro]:
  "buff' = buff @ received net h evs \<Longrightarrow> sleeps evs \<le> n \<Longrightarrow> prefix (sends evs) script \<Longrightarrow>
   (err = None \<Longrightarrow> sends evs = script) \<Longrightarrow> job_trace net script n buff h (Ok (buff', err)) evs"
  by (simp add: job_trace_def)

lemma job_trace_stop: "traced (job_trace net script n buff) (act_ok (buff, Some e))"
  by (rule traced_ok) (auto intro!: job_traceI)

lemma job_trace_done: "traced (job_trace net [] n buff) (act_ok (buff, None))"
  by (rule traced_ok) (auto intro!: job_traceI)

lemma traced_ask_bind:
  assumes "\<And>h. \<exists>S. traced S (f (env h ev)) \<and> (\<forall>out evs. S (h @ [ev]) out evs \<longrightarrow> T h out (ev # evs))"
  shows "traced T (act_bind (ask env ev) f)"
proof (rule traced_bind [where R = "\<lambda>h out evs. evs = [ev] \<and> out = Ok (env h ev)"])
  show "traced (\<lambda>h out evs. evs = [ev] \<and> out = Ok (env h ev)) (ask env ev)"
    by (rule traced_ask) simp
qed (use assms in auto)

lemma job_trace_receive:
  assumes "\<And>a. traced (job_trace net script n (buff @ dv_bytes a)) (f a)"
  shows "traced (job_trace net script n buff) (act_bind (ask net EvReceive) f)"
proof (rule traced_ask_bind)
  fix h
  show "\<exists>S. traced S (f (net h EvReceive)) \<and>
      (\<forall>out evs. S (h @ [EvReceive]) out evs \<longrightarrow> job_trace net script n buff h out (EvReceive # evs))"
    by (rule exI, rule conjI, rule assms) (auto simp: job_trace_def)
qed

lemma job_trace_send:
  assumes "traced (job_trace net script n buff) g"
  shows "traced (job_trace net (s # script) n buff)
    (act_bind (ask net (EvSend s)) (\<lambda>w. case dv_err w of Some e \<Rightarrow> act_ok (buff, Some (F e)) | None \<Rightarrow> g))"
proof (rule traced_ask_bind)
  fix h
  show "\<exists>S. traced S (case dv_err (net h (EvSend s)) of Some e \<Rightarrow> act_ok (buff, Some (F e)) | None \<Rightarrow> g) \<and>
      (\<forall>out evs. S (h @ [EvSend s]) out evs \<longrightarrow> job_trace net (s # script) n buff h out (EvSend s # evs))"
  proof (cases "dv_err (net h (EvSend s))")
    case None
    show ?thesis
      unfolding None option.case by (rule exI, rule conjI, rule assms) (auto simp: job_trace_def)
  next
    case (Some e)
    show ?thesis
      unfolding Some option.case
      by (rule exI, rule conjI, rule job_trace_stop [of net script n]) (auto simp: job_trace_def)
  qed
qed

lemma job_trace_sleep:
  assumes "traced (job_trace net script n buff) m"
  shows "traced (job_trace net script (Suc n) buff) (act_bind (ask net EvSleep) (\<lambda>_. m))"
proof (rule traced_ask_bind)
  fix h
  show "\<exists>S. traced S m \<and>
      (\<forall>out evs. S (h @ [EvSleep]) out evs \<longrightarrow> job_trace net script (Suc n) buff h out (EvSleep # evs))"
    by (rule exI, rule conjI, rule assms) (auto simp: job_trace_def)
qed

lemma job_trace_bind:
  assumes "traced (job_trace net s1 n1 buff) m" "\<And>buff'. traced (job_trace net s2 n2 buff') (f (buff', None))"
    and "\<And>buff' e. f (buff', Some e) = act_ok (buff', Some e)"
  shows "traced (job_trace net (s1 @ s2) (n1 + n2) buff) (act_bind m f)"
proof (rule traced_bind [OF assms(1)])
  fix h a evs
  assume tr: "job_trace net s1 n1 buff h (Ok a) evs"
  then obtain buff' err where a: "a = (buff', err)" by (cases a)
  show "\<exists>S. traced S (f a) \<and>
      (\<forall>out evs'. S (h @ evs) out evs' \<longrightarrow> job_trace net (s1 @ s2) (n1 + n2) buff h out (evs @ evs'))"
  proof (cases err)
    case None
    show ?thesis
      unfolding a None
      by (rule exI, rule conjI, rule assms(2)) (use tr a None in \<open>auto simp: job_trace_def\<close>)
  next
    case (Some e)
    show ?thesis
      unfolding a Some assms(3)
      by (rule exI, rule conjI, rule traced_ok [where R = "\<lambda>h out evs. out = Ok (buff', Some e) \<and> evs = []"])
        (use tr a Some in \<open>auto simp: job_trace_def intro: prefix_order.trans\<close>)
  qed
qed (auto simp: job_trace_def)

section \<open>Commands\<close>

definition command_script :: "CommandSetCommand \<Rightarrow> string list" where
  "command_script cmd = cmd_Command cmd # (if cmd_ImplicitEnter cmd then [lf] else [])"

text \<open>The dialogue of a command after its polling loop: nothing more is sent.\<close>

lemma expect_output_trace:
  assumes "log_safe lib cmd"
  shows "traced (job_trace net [] (nat (cmd_Timeout cmd)) buff) (expect_output net lib cmd buff)"
proof (cases "compile_all lib (cmd_Expect cmd @ cmd_ExpectNot cmd)")
  case (Some err)
  then show ?thesis by (simp add: expect_output_def job_trace_stop)
next
  case None
  show ?thesis
    unfolding expect_output_def None option.case
  proof (rule traced_bind [OF poll_trace [OF assms]], goal_cases)
    case (1 h a evs)
    then obtain r where a: "a = (buff @ received net h evs, r)"
      and ev: "sleeps evs \<le> nat (cmd_Timeout cmd)" "sends evs = []" by auto
    show ?case
      unfolding a prod.case
      by (rule exI [of _ "\<lambda>h' out evs'. (\<exists>e. out = Ok (buff @ received net h evs, e)) \<and> evs' = []"])
        (use ev in \<open>auto simp: traced_ok job_trace_def split: sum.split\<close>)
  qed auto
qed

lemma run_command_trace:
  assumes "log_safe lib cmd"
  shows "traced (job_trace net (command_script cmd) (nat (cmd_Timeout cmd)) buff) (run_command net lib cmd buff)"
proof -
  have rest: "traced (job_trace net [] (nat (cmd_Timeout cmd)) b)
      (if cmd_Timeout cmd = 0 then act_ok (b, None) else expect_output net lib cmd b)" for b
    using expect_output_trace [OF assms] by (simp add: job_trace_done)
  show ?thesis
    unfolding run_command_def command_script_def Let_def
    apply (rule job_trace_receive)
    apply (rule job_trace_send)
    apply (cases "cmd_ImplicitEnter cmd")
     apply (simp only: if_True act_bind_assoc act_bind_ok)
     apply (rule job_trace_send)
     apply (rule rest)
    apply (simp only: if_False act_bind_ok option.case)
    apply (rule rest)
    done
qed

definition script_of :: "CommandSetCommand list \<Rightarrow> string list" where
  "script_of cmds = concat (map command_script cmds)"

definition seconds_of :: "CommandSetCommand list \<Rightarrow> nat" where
  "seconds_of cmds = sum_list (map (\<lambda>cmd. nat (cmd_Timeout cmd)) cmds)"

lemma run_all_trace:
  "\<forall>cmd \<in> set cmds. log_safe lib cmd \<Longrightarrow>
   traced (job_trace net (script_of cmds) (seconds_of cmds) buff) (run_all net lib cmds buff)"
proof (induction cmds arbitrary: buff)
  case Nil
  then show ?case by (simp add: script_of_def job_trace_done)
next
  case (Cons cmd cmds)
  have "traced (job_trace net (command_script cmd @ script_of cmds) (nat (cmd_Timeout cmd) + seconds_of cmds) buff)
      (run_all net lib (cmd # cmds) buff)"
    unfolding run_all.simps
    by (rule job_trace_bind [OF run_command_trace]) (use Cons in auto)
  then show ?case by (simp add: script_of_def seconds_of_def)
qed

text \<open>Opening and closing the shell neither sends nor waits.\<close>

definition quiet :: "dev_event \<Rightarrow> bool" where
  "quiet e \<longleftrightarrow> (case e of EvSend _ \<Rightarrow> False | EvSleep \<Rightarrow> False | EvReceive \<Rightarrow> False | _ \<Rightarrow> True)"

lemma quiet_trace:
  assumes "\<forall>e \<in> set evs. quiet e"
  shows "sends evs = []" "sleeps evs = 0" "received net h evs = []"
  using assms by (induction evs arbitrary: h) (auto simp: quiet_def split: dev_event.splits)

lemma dev_do_quiet [act_intros]: "P ev \<Longrightarrow> act_only P (dev_do net ev f)"
  unfolding dev_do_def by (intro act_intros)

lemma shell_step_quiet [act_intros]: "quiet ev \<Longrightarrow> act_only quiet (shell_step net ev f)"
  unfolding shell_step_def by (intro act_intros) (simp_all add: quiet_def)

lemma open_shell_quiet: "act_only quiet (act_try (open_shell net s))"
  unfolding open_shell_def by (intro act_intros) (simp_all add: quiet_def)

lemma runCommands_trace:
  assumes "\<forall>cmd \<in> set (cset_Commands cs). log_safe lib cmd"
  obtains bytes err evs where
    "runCommands net lib sess cs h = (Ok (bytes, err), h @ evs)"
    "(bytes = [] \<and> err \<noteq> None \<and> sends evs = [] \<and> sleeps evs = 0) \<or>
     (\<exists>start dialogue. evs = start @ [EvSleep, EvReceive] @ dialogue @ [EvStdinClose, EvSessionClose] \<and>
        (\<forall>e \<in> set start. quiet e) \<and>
        bytes = received net (h @ start @ [EvSleep, EvReceive]) dialogue \<and>
        sleeps dialogue \<le> seconds_of (cset_Commands cs) \<and>
        prefix (sends dialogue) (script_of (cset_Commands cs)) \<and>
        (err = None \<longrightarrow> sends dialogue = script_of (cset_Commands cs)))"
proof -
  obtain out h1 where o: "act_try (open_shell net sess) h = (out, h1)" by fastforce
  obtain start where h1: "h1 = h @ start" "\<forall>e \<in> set start. quiet e" "\<not> is_panic out"
    using open_shell_quiet [of net sess] o unfolding act_only_def by (metis fst_conv snd_conv)
  have "\<exists>e. out = Ok e"
    using o h1(3) by (cases "open_shell net sess h"; cases "fst (open_shell net sess h)") (auto simp: act_try_def)
  then obtain e where out: "out = Ok e" by blast
  show thesis
  proof (cases e)
    case (Some err)
    then have "runCommands net lib sess cs h = (Ok ([], Some (''Unable to open shell: '' @ err)), h @ start)"
      using o out h1(1) by (simp add: runCommands_def act_bind_def act_ok_def)
    then show thesis using that quiet_trace [OF h1(2)] by blast
  next
    case None
    let ?h2 = "h @ start @ [EvSleep, EvReceive]"
    obtain dialogue where d: "snd (run_all net lib (cset_Commands cs) [] ?h2) = ?h2 @ dialogue"
      and tr: "job_trace net (script_of (cset_Commands cs)) (seconds_of (cset_Commands cs)) [] ?h2
        (fst (run_all net lib (cset_Commands cs) [] ?h2)) dialogue"
      using tracedE [OF run_all_trace [OF assms]] by blast
    obtain bytes err' where r: "fst (run_all net lib (cset_Commands cs) [] ?h2) = Ok (bytes, err')"
      using tr unfolding job_trace_def by blast
    have run: "run_all net lib (cset_Commands cs) [] ?h2 = (Ok (bytes, err'), ?h2 @ dialogue)"
      using d r by (simp add: prod_eq_iff)
    have "runCommands net lib sess cs h =
      (Ok (bytes, err'), h @ start @ [EvSleep, EvReceive] @ dialogue @ [EvStdinClose, EvSessionClose])"
      using o out None h1(1) run
      by (simp add: runCommands_def act_bind_def act_ok_def ask_def act_finally_def shell_close_def Let_def)
    moreover have "bytes = received net ?h2 dialogue \<and> sleeps dialogue \<le> seconds_of (cset_Commands cs) \<and>
        prefix (sends dialogue) (script_of (cset_Commands cs)) \<and>
        (err' = None \<longrightarrow> sends dialogue = script_of (cset_Commands cs))"
      using tr r by (auto simp: job_trace_def)
    ultimately show thesis using that h1(2) by blast
  qed
qed

section \<open>Samples\<close>

text \<open>A regular expression engine that searches literally, and a device that echoes.\<close>

definition sample_bytes_lib :: "bool \<Rightarrow> bytes_lib" where
  "sample_bytes_lib verbose =
     \<lparr>re_Compile = (\<lambda>s. if s = ''('' then Some ''missing closing )'' else None),
      re_Match = (\<lambda>s out. Contains out s),
      re_ReplaceAllLiteral = (\<lambda>s dirty new. replace_ne s new dirty),
      re_ReplaceAll = (\<lambda>s dirty new. replace_ne s new dirty),
      gz_NewReader = (\<lambda>b. None), gz_ReadAll = (\<lambda>b. Inr b), wl_Verbose = verbose\<rparr>"

definition sample_answer :: dev_answer where
  "sample_answer = \<lparr>dv_err = None, dv_bytes = ''ok'', dv_now = zero_time\<rparr>"

definition sample_net :: network where
  "sample_net h ev = sample_answer"

definition sample_command :: "string list \<Rightarrow> string list \<Rightarrow> CommandSetCommand" where
  "sample_command expect expect_not =
     \<lparr>cmd_Command = ''show run'', cmd_Expect = expect, cmd_ExpectNot = expect_not, cmd_Timeout = 5,
      cmd_ImplicitEnter = True\<rparr>"

section \<open>Properties of command jobs\<close>



end
