(* ===== verification/Execution_Properties.thy ===== *)
theory Execution_Properties
  imports Executor_Properties "HOL-Library.Multiset"
begin

text \<open>
  What an execution reports: failure patterns, scrubbing, the files of a file job, the closing
  of sessions, and the two inputs on which the worker panics.
\<close>

section \<open>Scrubbing\<close>

lemma scrub_step_no_panic: "\<not> is_panic (scrub_step lib clean s)"
  by (simp add: scrub_step_def split: option.split)

lemma scrubBytes_no_panic: "\<not> is_panic (scrubBytes lib dirty job)"
  unfolding scrubBytes_def by (rule foldM_no_panic [where I = "\<lambda>_. True"]) (simp_all add: scrub_step_no_panic)

definition bad_scrubber :: "bytes_lib \<Rightarrow> JobScrubber \<Rightarrow> bool" where
  "bad_scrubber lib s \<longleftrightarrow>
     (scr_Type s = ''regex'' \<or> scr_Type s = ''regex_substitute'') \<and> re_Compile lib (scr_Search s) \<noteq> None"

lemma scrub_step_bad: "bad_scrubber lib s \<Longrightarrow> scrub_step lib clean s \<noteq> Ok out"
  by (auto simp: bad_scrubber_def scrub_step_def)

lemma foldM_bad: "x \<in> set xs \<Longrightarrow> (\<And>s out. f s x \<noteq> Ok out) \<Longrightarrow> foldM f s xs \<noteq> Ok out"
  by (induction xs arbitrary: s) (auto simp: go_simps)

lemma scrubBytes_bad:
  "s \<in> set (job_Scrubbers job) \<Longrightarrow> bad_scrubber lib s \<Longrightarrow> scrubBytes lib dirty job \<noteq> Ok out"
  unfolding scrubBytes_def by (rule foldM_bad) (auto simp: scrub_step_bad)

lemma scrub_result_clean:
  "job_Scrubbers job \<noteq> [] \<Longrightarrow>
   fst (scrub_result lib job out) = [] \<or> scrubBytes lib (fst out) job = Ok (fst (scrub_result lib job out))"
  by (auto simp: scrub_result_def split: res.split)

lemma scrub_result_failure: "snd out \<noteq> None \<Longrightarrow> snd (scrub_result lib job out) = snd out"
  using scrubBytes_no_panic [of lib "fst out" job] by (auto simp: scrub_result_def split: res.split)

section \<open>Outcomes of an execution\<close>

lemma finish_eq:
  "finish net res out h =
     (Ok (res\<lparr>res_endTimestamp := Unix (dv_now (net h EvNow)), res_file := fst out, res_failure := snd out\<rparr>),
      h @ [EvNow])"
  by (simp add: finish_def act_bind_def ask_def act_ok_def)

lemma session_close_eq: "session_close net h = (Ok (dv_err (net h EvClientClose)), h @ [EvClientClose])"
  by (simp add: session_close_def act_bind_def ask_def act_ok_def)

text \<open>The address and the credentials a device is dialled with.\<close>

definition dial :: "Device \<Rightarrow> dev_event" where
  "dial d = (case (dev_DeviceCredentials d, Option.bind (dev_DeviceProtocol d) dp_SshDeviceProtocol) of
     (Some c, Some s) \<Rightarrow>
       EvDial (dev_Host d @ '':'' @ Itoa (ssh_Port s)) (cred_User c) (cred_Pass c) (ssh_IncludeCbcCiphers s)
   | _ \<Rightarrow> EvNow)"

definition dialable :: "Device \<Rightarrow> bool" where
  "dialable d \<longleftrightarrow> has_ssh d \<and> dev_DeviceCredentials d \<noteq> None"

lemma newSession_ok: "has_ssh d \<Longrightarrow> newSession d = Ok ()"
  by (auto simp: has_ssh_def newSession_def)

lemma authenticate_ok:
  "dialable d \<Longrightarrow> dv_err (net h (dial d)) = None \<Longrightarrow>
   authenticate net d h = (Ok \<lparr>ss_Host = dev_Host d\<rparr>, h @ [dial d])"
  by (auto simp: dialable_def has_ssh_def dial_def authenticate_def dev_do_def act_bind_def ask_def act_ok_def Let_def)

lemma authenticate_err:
  "dialable d \<Longrightarrow> dv_err (net h (dial d)) = Some e \<Longrightarrow>
   \<exists>e'. authenticate net d h = (Err e', h @ [dial d])"
  by (auto simp: dialable_def has_ssh_def dial_def authenticate_def dev_do_def act_bind_def ask_def
      act_ok_def act_err_def Let_def)

lemma runExecution_refused:
  assumes "dialable (ex_Device ex)" "dv_err (net (h @ [EvNow]) (dial (ex_Device ex))) = Some e"
  shows "\<exists>err. runExecution net lib ex h =
    finish net (new_result ex (dv_now (net h EvNow))) ([], Some (''Authentication failed - '' @ err))
      (h @ [EvNow, dial (ex_Device ex)])"
proof -
  obtain e' where "authenticate net (ex_Device ex) (h @ [EvNow]) = (Err e', h @ [EvNow] @ [dial (ex_Device ex)])"
    using authenticate_err [OF assms(1), of net "h @ [EvNow]" e] assms(2) by auto
  then show ?thesis
    using assms(1) by (auto simp: runExecution_def run_session_def act_bind_def ask_def newSession_ok dialable_def Let_def)
qed

lemma runExecution_connected:
  assumes "dialable (ex_Device ex)" "dv_err (net (h @ [EvNow]) (dial (ex_Device ex))) = None"
    and "runJob net lib \<lparr>ss_Host = dev_Host (ex_Device ex)\<rparr> (ex_Job ex) (h @ [EvNow, dial (ex_Device ex)]) = (Ok out, h')"
  shows "runExecution net lib ex h =
    (fst (finish net (new_result ex (dv_now (net h EvNow))) (scrub_result lib (ex_Job ex) out) h'),
     h' @ [EvNow, EvClientClose])"
proof -
  have "authenticate net (ex_Device ex) (h @ [EvNow]) =
      (Ok \<lparr>ss_Host = dev_Host (ex_Device ex)\<rparr>, h @ [EvNow] @ [dial (ex_Device ex)])"
    using authenticate_ok [OF assms(1), of net "h @ [EvNow]"] assms(2) by simp
  then show ?thesis
    using assms(1,3)
    by (simp add: runExecution_def run_session_def act_bind_def ask_def newSession_ok dialable_def
        act_finally_def finish_eq session_close_eq Let_def)
qed

section \<open>The files of a file job\<close>

lemma act_only_finally [act_intros]:
  assumes "act_only P m" "act_only P c"
  shows "act_only P (act_finally m c)"
  unfolding act_only_def
proof
  fix h
  obtain evs where 1: "\<not> is_panic (fst (m h))" "snd (m h) = h @ evs" "\<forall>e \<in> set evs. P e"
    using assms(1) unfolding act_only_def by blast
  obtain evs' where 2: "\<not> is_panic (fst (c (h @ evs)))" "snd (c (h @ evs)) = (h @ evs) @ evs'" "\<forall>e \<in> set evs'. P e"
    using assms(2) unfolding act_only_def by blast
  show "\<not> is_panic (fst (act_finally m c h)) \<and> (\<exists>evs. snd (act_finally m c h) = h @ evs \<and> (\<forall>e \<in> set evs. P e))"
    using 1 2 by (cases "m h"; cases "c (h @ evs)"; cases "fst (c (h @ evs))")
      (auto simp: act_finally_def intro!: exI [of _ "evs @ evs'"])
qed

lemma session_fetchFile_only: "act_only (\<lambda>_. True) (session_fetchFile net s path)"
  unfolding session_fetchFile_def by (intro act_intros TrueI)

lemma decompress_no_panic: "f \<noteq> None \<Longrightarrow> \<not> is_panic (decompress lib path f b)"
  by (auto simp: decompress_def split: option.split sum.split)

lemma fetch_all_only:
  "set paths \<subseteq> dom (map_of files) \<Longrightarrow> act_only (\<lambda>_. True) (fetch_all net lib s files n i paths buf)"
proof (induction paths arbitrary: i buf)
  case Nil
  show ?case by (simp add: act_intros)
next
  case (Cons path paths)
  then have "map_of files path \<noteq> None" by auto
  then show ?case
    using Cons by (auto intro!: act_intros session_fetchFile_only decompress_no_panic)
qed

definition file_index :: "FileSetFile list \<Rightarrow> FileSetFile gomap" where
  "file_index fs = foldl (\<lambda>m f. map_put (file_Name f) f m) [] fs"

lemma map_of_file_index:
  "map_of (file_index fs) = map_of (rev (map (\<lambda>f. (file_Name f, f)) fs))"
proof -
  have "foldl (\<lambda>m f. map_put (file_Name f) f m) m fs =
      foldl (\<lambda>m (k, v). map_put k v m) m (map (\<lambda>f. (file_Name f, f)) fs)" for m
    by (induction fs arbitrary: m) simp_all
  then show ?thesis by (simp add: file_index_def map_of_foldl_put)
qed

lemma fetchFile_index:
  "fetchFile net lib s fs =
   fetch_all net lib s (file_index (fset_Files fs)) (length (fset_Files fs)) 0
     (sort (map file_Name (fset_Files fs))) []"
  by (simp add: fetchFile_def file_index_def Let_def)

lemma fetchFile_only: "act_only (\<lambda>_. True) (fetchFile net lib s fs)"
  unfolding fetchFile_index
  by (rule fetch_all_only) (simp add: map_of_file_index dom_map_of_conv_image_fst image_comp comp_def)

text \<open>What one file contributes when the device serves \<open>disk\<close>, and the whole output.\<close>

definition fetched :: "bytes_lib \<Rightarrow> (string \<Rightarrow> string) \<Rightarrow> FileSetFile \<Rightarrow> string res" where
  "fetched lib disk f = decompress lib (file_Name f) (Some f) (disk (file_Name f))"

fun file_bundle :: "nat \<Rightarrow> nat \<Rightarrow> (string \<times> string) list \<Rightarrow> string" where
  "file_bundle n i [] = []"
| "file_bundle n i ((path, bytes) # rest) = file_section n i path bytes @ file_bundle n (Suc i) rest"

definition serves :: "network \<Rightarrow> (string \<Rightarrow> string) \<Rightarrow> bool" where
  "serves net disk \<longleftrightarrow> (\<forall>h ev. dv_err (net h ev) = None) \<and> (\<forall>h path. dv_bytes (net h (EvSftpReadAll path)) = disk path)"

lemma session_fetchFile_serves:
  "serves net disk \<Longrightarrow> \<exists>evs. session_fetchFile net s path h = (Ok (disk path), h @ evs)"
  by (simp add: serves_def session_fetchFile_def dev_do_def act_bind_def act_finally_def ask_def act_ok_def)

lemma fetch_all_serves:
  assumes "serves net disk"
    and "\<forall>path \<in> set paths. \<exists>f. map_of files path = Some f \<and> file_Name f = path \<and> fetched lib disk f = Ok (content path)"
  shows "fst (fetch_all net lib s files n i paths buf h) =
    Ok (buf @ file_bundle n i (map (\<lambda>path. (path, content path)) paths))"
  using assms(2)
proof (induction paths arbitrary: i buf h)
  case Nil
  show ?case by (simp add: act_ok_def)
next
  case (Cons path paths)
  obtain evs where f: "session_fetchFile net s path h = (Ok (disk path), h @ evs)"
    using session_fetchFile_serves [OF assms(1)] by blast
  have "decompress lib path (map_of files path) (disk path) = Ok (content path)"
    using Cons.prems by (auto simp: fetched_def)
  then show ?case using f Cons by (simp add: act_bind_def act_res_def)
qed

lemma file_index_distinct:
  assumes "distinct (map file_Name fs)" "f \<in> set fs"
  shows "map_of (file_index fs) (file_Name f) = Some f"
proof -
  have "map_of (map (\<lambda>f. (file_Name f, f)) fs) (file_Name f) = Some f"
    using assms by (intro map_of_is_SomeI) (auto simp: comp_def)
  then show ?thesis
    using assms by (simp add: map_of_file_index map_of_rev_distinct comp_def)
qed

lemma file_index_permute:
  assumes "mset fs = mset fs'" "distinct (map file_Name fs)"
  shows "map_of (file_index fs) = map_of (file_index fs')"
proof -
  have d': "distinct (map file_Name fs')"
    using assms by (metis mset_eq_imp_distinct_iff mset_map)
  have "mset (map (\<lambda>f. (file_Name f, f)) fs) = mset (map (\<lambda>f. (file_Name f, f)) fs')"
    using assms(1) by simp
  then have "set (map (\<lambda>f. (file_Name f, f)) fs) = set (map (\<lambda>f. (file_Name f, f)) fs')"
    by (rule mset_eq_setD)
  then show ?thesis
    using assms(2) d' by (simp add: map_of_file_index map_of_rev_distinct comp_def map_of_inject_set)
qed

lemma fetch_all_cong:
  "map_of files = map_of files' \<Longrightarrow> fetch_all net lib s files n i paths buf = fetch_all net lib s files' n i paths buf"
  by (induction paths arbitrary: i buf) simp_all

lemma fetchFile_sorted:
  assumes "distinct (map file_Name (fset_Files fs))" "serves net disk"
    and "\<forall>f \<in> set (fset_Files fs). fetched lib disk f = Ok (content (file_Name f))"
  shows "fst (fetchFile net lib sess fs h) = Ok (file_bundle (length (fset_Files fs)) 0
      (map (\<lambda>path. (path, content path)) (sort (map file_Name (fset_Files fs)))))"
proof -
  have "\<forall>path \<in> set (sort (map file_Name (fset_Files fs))). \<exists>f. map_of (file_index (fset_Files fs)) path = Some f \<and>
      file_Name f = path \<and> fetched lib disk f = Ok (content path)"
    using file_index_distinct [OF assms(1)] assms(3) by fastforce
  then show ?thesis
    unfolding fetchFile_index by (simp add: fetch_all_serves [OF assms(2)])
qed

lemma fetchFile_permute:
  assumes "distinct (map file_Name (fset_Files fs))" "mset (fset_Files fs') = mset (fset_Files fs)"
  shows "fetchFile net lib sess fs' = fetchFile net lib sess fs"
proof -
  have "mset (map file_Name (fset_Files fs)) = mset (map file_Name (fset_Files fs'))"
    using assms(2) by simp
  then have names: "sort (map file_Name (fset_Files fs')) = sort (map file_Name (fset_Files fs))"
    by (intro properties_for_sort) simp_all
  have "map_of (file_index (fset_Files fs')) = map_of (file_index (fset_Files fs))"
    using file_index_permute [OF assms(2) [symmetric] assms(1)] by simp
  moreover have "length (fset_Files fs') = length (fset_Files fs)"
    using assms(2) by (rule mset_eq_length)
  ultimately show ?thesis
    unfolding fetchFile_index names by (simp only:) (rule fetch_all_cong)
qed

lemma runCommands_total:
  assumes "\<forall>cmd \<in> set (cset_Commands cs). log_safe lib cmd"
  shows "\<exists>bytes err evs. runCommands net lib sess cs h = (Ok (bytes, err), h @ evs)"
  by (rule runCommands_trace [OF assms, of net sess h]) (intro exI)

lemma runJob_no_panic:
  assumes "\<forall>cs. job_CommandSet job = Some cs \<longrightarrow> (\<forall>cmd \<in> set (cset_Commands cs). log_safe lib cmd)"
  obtains out h' where "runJob net lib sess job h = (Ok out, h')" "\<exists>evs. h' = h @ evs"
proof (cases "job_FileSet job")
  case (Some fs)
  obtain evs where 1: "\<not> is_panic (fst (fetchFile net lib sess fs h))" "snd (fetchFile net lib sess fs h) = h @ evs"
    using fetchFile_only [of net lib sess fs] unfolding act_only_def by blast
  obtain r where f: "fetchFile net lib sess fs h = (r, h @ evs)"
    using 1(2) by (metis prod.collapse)
  show thesis
    using that 1(1) f Some by (cases r) (auto simp: runJob_def)
next
  case None
  show thesis
  proof (cases "job_CommandSet job")
    case (Some cs)
    obtain bytes err evs where "runCommands net lib sess cs h = (Ok (bytes, err), h @ evs)"
      using runCommands_total assms Some by metis
    then show thesis using that None Some by (auto simp: runJob_def)
  qed (use that None in \<open>auto simp: runJob_def act_ok_def\<close>)
qed

lemma runJob_error:
  "job_FileSet job = Some fs \<Longrightarrow> fst (fetchFile net lib sess fs h) = Err e \<Longrightarrow>
   fst (runJob net lib sess job h) = Ok ([], Some e)"
  by (cases "fetchFile net lib sess fs h") (simp add: runJob_def)

text \<open>Whatever a run of a job returns, what \<open>runExecution\<close> reports went through the scrubbers.\<close>

definition scrubbed :: "bytes_lib \<Rightarrow> Job \<Rightarrow> string \<Rightarrow> bool" where
  "scrubbed lib job file \<longleftrightarrow> file = [] \<or> (\<exists>dirty. scrubBytes lib dirty job = Ok file)"

lemma run_session_connected:
  assumes "authenticate net (ex_Device ex) h = (Ok sess, h1)" "run_session net lib ex res h = (Ok out, h')"
  obtains b h2 where "runJob net lib sess (ex_Job ex) h1 = (Ok b, h2)"
    "res_file out = fst (scrub_result lib (ex_Job ex) b)"
    "fst (finish net res (scrub_result lib (ex_Job ex) b) h2) = Ok out"
proof -
  obtain r h2 where j: "runJob net lib sess (ex_Job ex) h1 = (r, h2)" by fastforce
  have run: "run_session net lib ex res h =
      act_finally (act_bind (runJob net lib sess (ex_Job ex)) (\<lambda>b. finish net res (scrub_result lib (ex_Job ex) b)))
        (session_close net) h1"
    by (simp add: run_session_def assms(1))
  show thesis
  proof (cases r)
    case (Ok b)
    then have "out = res\<lparr>res_endTimestamp := Unix (dv_now (net h2 EvNow)),
        res_file := fst (scrub_result lib (ex_Job ex) b), res_failure := snd (scrub_result lib (ex_Job ex) b)\<rparr>"
      using assms(2) j by (simp add: run act_finally_def act_bind_def finish_eq session_close_eq)
    then show thesis using that j Ok by (simp add: finish_eq)
  qed (use assms(2) j in \<open>simp_all add: run act_finally_def act_bind_def session_close_eq\<close>)
qed

lemma run_session_scrubbed:
  assumes "job_Scrubbers (ex_Job ex) \<noteq> []" "run_session net lib ex res h = (Ok out, h')"
  shows "scrubbed lib (ex_Job ex) (res_file out)"
proof (cases "authenticate net (ex_Device ex) h")
  case (Pair a h1)
  show ?thesis
  proof (cases a)
    case (Ok sess)
    obtain b where "res_file out = fst (scrub_result lib (ex_Job ex) b)"
      using run_session_connected [OF Pair [unfolded Ok] assms(2)] by metis
    then show ?thesis
      using scrub_result_clean [OF assms(1), of lib b] unfolding scrubbed_def by metis
  next
    case (Err e)
    then have "fst (finish net res ([], Some (''Authentication failed - '' @ e)) h1) = Ok out"
      using assms(2) Pair by (simp add: run_session_def)
    then have "res_file out = []" unfolding finish_eq by auto
    then show ?thesis by (simp add: scrubbed_def)
  next
    case (Panic p)
    then show ?thesis using assms(2) Pair by (simp add: run_session_def)
  qed
qed

lemma runExecution_scrubbed:
  assumes "job_Scrubbers (ex_Job ex) \<noteq> []" "runExecution net lib ex h = (Ok out, h')"
  shows "scrubbed lib (ex_Job ex) (res_file out)"
proof (cases "newSession (ex_Device ex)")
  case (Ok u)
  then show ?thesis
    using assms(2) run_session_scrubbed [OF assms(1)]
    by (simp add: runExecution_def act_bind_def ask_def Let_def)
next
  case (Err e)
  let ?res = "new_result ex (dv_now (net h EvNow))"
  have "fst (finish net ?res ([], Some (''Unable to initiate session - '' @ e)) (h @ [EvNow])) = Ok out"
    using assms(2) Err by (simp add: runExecution_def act_bind_def ask_def Let_def)
  then have "res_file out = []" unfolding finish_eq by auto
  then show ?thesis by (simp add: scrubbed_def)
next
  case (Panic p)
  then show ?thesis
    using assms(2) by (simp add: runExecution_def act_bind_def ask_def act_panic_def Let_def)
qed

section \<open>Samples\<close>

definition sample_password :: JobScrubber where
  "sample_password = \<lparr>scr_Type = ''regex'', scr_Search = ''ok'', scr_Replace = ''XX''\<rparr>"

definition sample_two_files :: FileSet where
  "sample_two_files =
     \<lparr>fset_Files = [\<lparr>file_Name = ''/b'', file_Compression = []\<rparr>, \<lparr>file_Name = ''/a'', file_Compression = []\<rparr>]\<rparr>"

lemma sample_two_sorted [simp]:
  "sort (map file_Name (fset_Files sample_two_files)) = [''/a'', ''/b'']"
  "length (fset_Files sample_two_files) = 2" "distinct (map file_Name (fset_Files sample_two_files))"
  by (simp_all add: sample_two_files_def)

definition sample_run :: "DeviceCredentials option \<Rightarrow> JobScrubber list \<Rightarrow> Execution" where
  "sample_run creds scrubbers =
     \<lparr>ex_Device = (NewDefaultDevice ''sw1'')\<lparr>dev_DeviceCredentials := creds\<rparr>,
      ex_Job = (NewDefaultJob ''backup'')\<lparr>job_FileSet := Some sample_two_files,
        job_CommandSet := None, job_Scrubbers := scrubbers\<rparr>,
      ex_Timestamp = 1451606400\<rparr>"

definition sample_creds :: DeviceCredentials where
  "sample_creds = \<lparr>cred_User = ''admin'', cred_Pass = ''admin''\<rparr>"

lemma sample_dialable: "dialable (ex_Device (sample_run (Some sample_creds) ss))"
  by (simp add: dialable_def has_ssh_def sample_run_def NewDefaultDevice_def)

lemma sample_serves: "serves sample_net (\<lambda>path. ''ok'')"
  by (simp add: serves_def sample_net_def sample_answer_def)

section \<open>Properties\<close>

text \<open>
  C13. Output of a job with scrubbers never leaves the worker unscrubbed: the file of the
  result is empty or what the scrubbers made of some bytes; a scrubber whose expression does
  not compile leaves it empty.
\<close>

theorem runExecution_scrubs:
  assumes "job_Scrubbers (ex_Job ex) \<noteq> []" "runExecution net lib ex h = (Ok out, h')"
  shows "scrubbed lib (ex_Job ex) (res_file out) \<and>
    ((\<exists>s \<in> set (job_Scrubbers (ex_Job ex)). bad_scrubber lib s) \<longrightarrow> res_file out = [])"
  using runExecution_scrubbed [OF assms] scrubBytes_bad [of _ "ex_Job ex" lib]
  by (auto simp: scrubbed_def)

theorem runExecution_scrubs_witness:
  "\<exists>out h'. runExecution sample_net (sample_bytes_lib False) (sample_run (Some sample_creds) [sample_password]) [] = (Ok out, h') \<and>
     scrubbed (sample_bytes_lib False) (ex_Job (sample_run (Some sample_creds) [sample_password])) (res_file out)"
proof -
  let ?ex = "sample_run (Some sample_creds) [sample_password]"
  obtain out h' where j: "runJob sample_net (sample_bytes_lib False) \<lparr>ss_Host = dev_Host (ex_Device ?ex)\<rparr> (ex_Job ?ex)
      ([] @ [EvNow, dial (ex_Device ?ex)]) = (Ok out, h')"
    by (rule runJob_no_panic [of "ex_Job ?ex"]) (simp_all add: sample_run_def)
  have "\<exists>out h'. runExecution sample_net (sample_bytes_lib False) ?ex [] = (Ok out, h')"
    using runExecution_connected [OF sample_dialable _ j]
    by (simp add: sample_net_def sample_answer_def finish_eq)
  then show ?thesis
    using runExecution_scrubs [of ?ex sample_net "sample_bytes_lib False" "[]"]
    by (auto simp: sample_run_def)
qed



text \<open>
  C40. Credentials are not validated (device validation does not look at them), and running a
  job on a device that has none dereferences a nil pointer, on every network.
\<close>

theorem missing_credentials_panic:
  assumes "has_ssh (ex_Device ex)" "dev_DeviceCredentials (ex_Device ex) = None"
  shows "fst (runExecution net lib ex h) = Panic ''invalid memory address or nil pointer dereference'' \<and>
    Device_Validate re r (ex_Device ex) = Device_Validate re r ((ex_Device ex)\<lparr>dev_DeviceCredentials := Some creds\<rparr>)"
  using assms
  by (simp add: runExecution_def run_session_def authenticate_def act_bind_def ask_def newSession_ok
      act_panic_def Device_Validate_def Let_def)

theorem missing_credentials_panic_witness:
  "fst (runExecution sample_net (sample_bytes_lib False) (sample_run None []) []) =
     Panic ''invalid memory address or nil pointer dereference''"
  using missing_credentials_panic [of "sample_run None []" sample_net "sample_bytes_lib False" "[]"]
  by (simp add: sample_run_def has_ssh_def NewDefaultDevice_def)

text \<open>
  C27. A file job on a device that serves all its files returns them in the order of their
  names, each under a header when there are several, whatever the order in which the
  configuration's map delivered them.
\<close>

theorem fetchFile_format:
  assumes "distinct (map file_Name (fset_Files fs))" "serves net disk"
    and "\<forall>f \<in> set (fset_Files fs). fetched lib disk f = Ok (content (file_Name f))"
    and "mset (fset_Files fs') = mset (fset_Files fs)"
  shows "fst (fetchFile net lib sess fs h) = Ok (file_bundle (length (fset_Files fs)) 0
      (map (\<lambda>path. (path, content path)) (sort (map file_Name (fset_Files fs))))) \<and>
    fetchFile net lib sess fs' = fetchFile net lib sess fs"
  using fetchFile_sorted [OF assms(1-3)] fetchFile_permute [OF assms(1,4)] by simp

theorem fetchFile_format_witness:
  "fst (fetchFile sample_net (sample_bytes_lib False) \<lparr>ss_Host = ''sw1''\<rparr>
      sample_two_files [])
   = Ok (fileContentsHr @ lf @ ''File: /a'' @ lf @ fileContentsHr @ lf @ ''ok'' @ lf @
         fileContentsHr @ lf @ ''File: /b'' @ lf @ fileContentsHr @ lf @ ''ok'')"
proof -
  have "\<forall>f \<in> set (fset_Files sample_two_files). fetched (sample_bytes_lib False) (\<lambda>path. ''ok'') f = Ok ((\<lambda>_. ''ok'') (file_Name f))"
    by (simp add: sample_two_files_def fetched_def decompress_def)
  from fetchFile_format [OF sample_two_sorted(3) sample_serves this refl, of "\<lparr>ss_Host = ''sw1''\<rparr>" "[]"] show ?thesis
    by (simp add: file_section_def)
qed

text \<open>
  A file job is all or nothing: when any file cannot be fetched or decompressed, the
  result has the failure and an empty file.
\<close>

theorem failed_fetch_reports_nothing:
  assumes "dialable (ex_Device ex)" "dv_err (net (h @ [EvNow]) (dial (ex_Device ex))) = None"
    and "job_FileSet (ex_Job ex) = Some fs"
    and "fst (fetchFile net lib \<lparr>ss_Host = dev_Host (ex_Device ex)\<rparr> fs (h @ [EvNow, dial (ex_Device ex)])) = Err e"
  shows "\<exists>out. fst (runExecution net lib ex h) = Ok out \<and> res_file out = [] \<and> res_failure out = Some e"
proof -
  obtain h' where "runJob net lib \<lparr>ss_Host = dev_Host (ex_Device ex)\<rparr> (ex_Job ex)
      (h @ [EvNow, dial (ex_Device ex)]) = (Ok ([], Some e), h')"
    using runJob_error [OF assms(3,4)] by (metis prod.collapse)
  then show ?thesis
    using runExecution_connected [of ex net h lib "([], Some e)" h', OF assms(1,2)]
    by (simp add: finish_eq scrub_result_def)
qed

definition sample_missing_files :: network where
  "sample_missing_files h ev =
     (case ev of EvSftpOpen path \<Rightarrow> sample_answer\<lparr>dv_err := Some ''file does not exist''\<rparr> | _ \<Rightarrow> sample_answer)"

lemma sample_missing_answers:
  "dv_err (sample_missing_files h (EvSftpOpen path)) = Some ''file does not exist''"
  "dv_err (sample_missing_files h EvSftpClient) = None"
  by (simp_all add: sample_missing_files_def sample_answer_def)

theorem failed_fetch_reports_nothing_witness:
  "\<exists>out e. fst (runExecution sample_missing_files (sample_bytes_lib False) (sample_run (Some sample_creds) []) []) = Ok out \<and>
     res_file out = [] \<and> res_failure out = Some e"
proof -
  let ?ex = "sample_run (Some sample_creds) []"
  have "\<exists>hp u p c. dial (ex_Device ?ex) = EvDial hp u p c"
    by (auto simp: dial_def sample_run_def NewDefaultDevice_def intro: exI [of _ False])
  then have ok: "dv_err (sample_missing_files ([] @ [EvNow]) (dial (ex_Device ?ex))) = None"
    by (auto simp: sample_missing_files_def sample_answer_def)
  have fs: "job_FileSet (ex_Job ?ex) = Some sample_two_files" by (simp add: sample_run_def)
  have "\<exists>e. fst (fetchFile sample_missing_files (sample_bytes_lib False) sess sample_two_files h) = Err e" for sess h
    unfolding fetchFile_index
    by (simp add: session_fetchFile_def dev_do_def act_bind_def act_finally_def ask_def act_err_def act_ok_def
        sample_missing_answers)
  then obtain e where "fst (fetchFile sample_missing_files (sample_bytes_lib False)
      \<lparr>ss_Host = dev_Host (ex_Device ?ex)\<rparr> sample_two_files ([] @ [EvNow, dial (ex_Device ?ex)])) = Err e"
    by blast
  from failed_fetch_reports_nothing [OF sample_dialable ok fs this] show ?thesis by blast
qed

lemma compile_all_None: "\<forall>e \<in> set exps. re_Compile lib e = None \<Longrightarrow> compile_all lib exps = None"
  by (induction exps) simp_all

text \<open>
  A command that lists only failure patterns: when its first output matches one of them,
  the worker reports the failure, but with the verbose flag it panics instead, for the log line
  indexes the (empty) list of expected patterns.
\<close>

theorem verbose_failure_pattern_panics:
  assumes "cmd_Expect cmd = []" "cmd_ExpectNot cmd = p # ps" "0 < cmd_Timeout cmd"
    and "\<forall>e \<in> set (cmd_ExpectNot cmd). re_Compile lib e = None"
    and "\<forall>h ev. dv_err (net h ev) = None" "\<forall>h. re_Match lib p (dv_bytes (net h EvReceive))"
  shows "if wl_Verbose lib then fst (run_command net lib cmd buff h) = Panic ''index out of range''
    else \<exists>bytes. fst (run_command net lib cmd buff h) =
      Ok (bytes, Some (''Output of command '' @ quoted (cmd_Command cmd) @ '' matched failure pattern: '' @ p))"
proof -
  obtain n where n: "nat (cmd_Timeout cmd) = Suc n"
    using assms(3) by (cases "nat (cmd_Timeout cmd)") auto
  have poll: "fst (poll net lib cmd (Suc n) [] b h') =
      (if wl_Verbose lib then Panic ''index out of range''
       else Ok (b @ dv_bytes (net h' EvReceive),
         Inl (''Output of command '' @ quoted (cmd_Command cmd) @ '' matched failure pattern: '' @ p)))" for b h'
    using assms(1,2,6) by (simp add: act_bind_def ask_def act_panic_def act_ok_def)
  have expect: "if wl_Verbose lib then fst (expect_output net lib cmd b h') = Panic ''index out of range''
      else \<exists>bytes. fst (expect_output net lib cmd b h') =
        Ok (bytes, Some (''Output of command '' @ quoted (cmd_Command cmd) @ '' matched failure pattern: '' @ p))" for b h'
    using assms(1) compile_all_None [OF assms(4)] poll [of b h']
    by (cases "poll net lib cmd (Suc n) [] b h'") (auto simp: expect_output_def n act_bind_def act_ok_def split: if_splits)
  show ?thesis
    using expect assms(3,5) by (auto simp: run_command_def act_bind_def ask_def act_ok_def Let_def split: if_splits)
qed

theorem verbose_failure_pattern_panics_witness:
  "fst (run_command sample_net (sample_bytes_lib True) (sample_command [] [''ok'']) [] []) = Panic ''index out of range''"
  using verbose_failure_pattern_panics [of "sample_command [] [''ok'']" "''ok''" "[]" "sample_bytes_lib True" sample_net "[]" "[]"]
  by (simp add: sample_command_def sample_bytes_lib_def sample_net_def sample_answer_def)

end
