(* ===== verification/Url_Query.thy ===== *)
theory Url_Query
  imports Go_Strings "HOL-Library.List_Lexorder" "HOL-Library.Char_ord"
begin

text \<open>
  What both ends of the API use of net/url: the worker encodes its request for work
  (\<open>url.Values.Encode\<close>), the controller reads it (\<open>URL.Query\<close>, which ignores the parts it cannot
  decode). The theorem at the end says that the values arrive.
\<close>

section \<open>Escaping\<close>

definition char_code :: "char \<Rightarrow> nat" where
  "char_code c = of_char c"

definition unreserved :: "char \<Rightarrow> bool" where
  "unreserved c \<longleftrightarrow> (48 \<le> char_code c \<and> char_code c \<le> 57) \<or> (65 \<le> char_code c \<and> char_code c \<le> 90) \<or>
     (97 \<le> char_code c \<and> char_code c \<le> 122) \<or> c \<in> set ''-_.~''"

definition hex_char :: "nat \<Rightarrow> char" where
  "hex_char n = char_of (if n < 10 then 48 + n else 55 + n)"

definition hex_value :: "char \<Rightarrow> nat option" where
  "hex_value c =
     (if 48 \<le> char_code c \<and> char_code c \<le> 57 then Some (char_code c - 48)
      else if 65 \<le> char_code c \<and> char_code c \<le> 70 then Some (char_code c - 55)
      else if 97 \<le> char_code c \<and> char_code c \<le> 102 then Some (char_code c - 87)
      else None)"

definition escape_char :: "char \<Rightarrow> string" where
  "escape_char c =
     (if unreserved c then [c] else if c = CHR '' '' then ''+''
      else [CHR ''%'', hex_char (char_code c div 16), hex_char (char_code c mod 16)])"

definition QueryEscape :: "string \<Rightarrow> string" where
  "QueryEscape s = concat (map escape_char s)"

fun QueryUnescape :: "string \<Rightarrow> string option" where
  "QueryUnescape [] = Some []"
| "QueryUnescape (c # cs) =
     (if c = CHR ''%'' then
        (case cs of
           a # b # rest \<Rightarrow>
             (case (hex_value a, hex_value b) of
                (Some x, Some y) \<Rightarrow> map_option ((#) (char_of (16 * x + y))) (QueryUnescape rest)
              | _ \<Rightarrow> None)
         | _ \<Rightarrow> None)
      else map_option ((#) (if c = CHR ''+'' then CHR '' '' else c)) (QueryUnescape cs))"

section \<open>Queries\<close>

definition values_of :: "string list gomap \<Rightarrow> string \<Rightarrow> string list" where
  "values_of v k = (case map_of v k of None \<Rightarrow> [] | Some vs \<Rightarrow> vs)"

definition Values_Add :: "string \<Rightarrow> string \<Rightarrow> string list gomap \<Rightarrow> string list gomap" where
  "Values_Add k x v = map_put k (values_of v k @ [x]) v"

definition Values_Set :: "string \<Rightarrow> string \<Rightarrow> string list gomap \<Rightarrow> string list gomap" where
  "Values_Set k x v = map_put k [x] v"

definition encode_pair :: "string \<times> string \<Rightarrow> string" where
  "encode_pair kx = QueryEscape (fst kx) @ ''='' @ QueryEscape (snd kx)"

definition pairs_of :: "string list gomap \<Rightarrow> (string \<times> string) list" where
  "pairs_of v = concat (map (\<lambda>k. map (Pair k) (values_of v k)) (sort (map_keys v)))"

definition Encode :: "string list gomap \<Rightarrow> string" where
  "Encode v = join ''&'' (map encode_pair (pairs_of v))"

definition separator :: "char \<Rightarrow> bool" where
  "separator c \<longleftrightarrow> c = CHR ''&'' \<or> c = CHR '';''"

fun split_query :: "string \<Rightarrow> string list" where
  "split_query [] = [[]]"
| "split_query (c # cs) =
     (if separator c then [] # split_query cs
      else (case split_query cs of p # ps \<Rightarrow> (c # p) # ps | [] \<Rightarrow> [[c]]))"

definition add_part :: "string list gomap \<Rightarrow> string \<Rightarrow> string list gomap" where
  "add_part v part =
     (if part = [] then v
      else let k = takeWhile (\<lambda>c. c \<noteq> CHR ''='') part;
               x = drop (length k + 1) part
           in case (QueryUnescape k, QueryUnescape x) of
                (Some k, Some x) \<Rightarrow> Values_Add k x v
              | _ \<Rightarrow> v)"

definition ParseQuery :: "string \<Rightarrow> string list gomap" where
  "ParseQuery raw = foldl add_part [] (split_query raw)"

section \<open>The values arrive\<close>

lemma hex_value_char: "n < 16 \<Longrightarrow> hex_value (hex_char n) = Some n"
  by (cases "n < 10") (auto simp: hex_value_def hex_char_def char_code_def)

lemma char_split: "char_of (16 * (char_code c div 16) + char_code c mod 16) = c"
  by (simp add: char_code_def)

lemma char_code_less: "char_code c < 256"
  by (simp add: char_code_def)

lemma unreserved_not_special:
  "unreserved c \<Longrightarrow> c \<noteq> CHR ''%'' \<and> c \<noteq> CHR ''+'' \<and> c \<noteq> CHR ''='' \<and> \<not> separator c"
  by (auto simp: unreserved_def char_code_def separator_def)

lemma QueryUnescape_escape_char: "QueryUnescape (escape_char c @ rest) = map_option ((#) c) (QueryUnescape rest)"
proof -
  have "char_code c div 16 < 16" using char_code_less [of c] by linarith
  then show ?thesis
    using unreserved_not_special [of c] char_split [of c]
    by (simp add: escape_char_def hex_value_char)
qed

lemma QueryUnescape_QueryEscape: "QueryUnescape (QueryEscape s) = Some s"
  by (induction s) (simp_all add: QueryEscape_def QueryUnescape_escape_char)

lemma char_code_hex: "n < 16 \<Longrightarrow> char_code (hex_char n) = (if n < 10 then 48 + n else 55 + n)"
  by (simp add: char_code_def hex_char_def)

lemma hex_char_plain:
  assumes "n < 16"
  shows "hex_char n \<noteq> CHR ''='' \<and> \<not> separator (hex_char n)"
proof -
  have "char_code (CHR ''='') = 61" "char_code (CHR ''&'') = 38" "char_code (CHR '';'') = 59"
    by (simp_all add: char_code_def)
  then show ?thesis
    using char_code_hex [OF assms] by (auto simp: separator_def split: if_splits)
qed

lemma escape_char_plain: "x \<in> set (escape_char c) \<Longrightarrow> x \<noteq> CHR ''='' \<and> \<not> separator x"
proof -
  assume x: "x \<in> set (escape_char c)"
  have "char_code c div 16 < 16" "char_code c mod 16 < 16" using char_code_less [of c] by linarith+
  then show ?thesis
    using x unreserved_not_special [of c] hex_char_plain
    by (auto simp: escape_char_def separator_def split: if_splits)
qed

lemma QueryEscape_plain: "x \<in> set (QueryEscape s) \<Longrightarrow> x \<noteq> CHR ''='' \<and> \<not> separator x"
  using escape_char_plain by (auto simp: QueryEscape_def)

lemma encode_pair_no_separator: "x \<in> set (encode_pair kx) \<Longrightarrow> \<not> separator x"
  using QueryEscape_plain by (auto simp: encode_pair_def separator_def)

lemma add_part_encode_pair: "add_part v (encode_pair (k, x)) = Values_Add k x v"
proof -
  have k: "takeWhile (\<lambda>c. c \<noteq> CHR ''='') (QueryEscape k @ ''='' @ QueryEscape x) = QueryEscape k"
    using QueryEscape_plain by (subst takeWhile_append2) auto
  show ?thesis
    by (simp add: add_part_def encode_pair_def k [simplified] QueryUnescape_QueryEscape Let_def)
qed

lemma split_query_plain: "\<forall>x \<in> set s. \<not> separator x \<Longrightarrow> split_query s = [s]"
  by (induction s) simp_all

lemma split_query_append:
  "\<forall>x \<in> set s. \<not> separator x \<Longrightarrow> split_query (s @ CHR ''&'' # t) = s # split_query t"
  by (induction s) (simp_all add: separator_def)

lemma split_query_join:
  "ss \<noteq> [] \<Longrightarrow> \<forall>s \<in> set ss. \<forall>x \<in> set s. \<not> separator x \<Longrightarrow> split_query (join ''&'' ss) = ss"
proof (induction ss)
  case (Cons s ss)
  then show ?case
    by (cases ss) (simp_all add: split_query_plain split_query_append)
qed simp

lemma values_of_Add: "values_of (Values_Add k x v) k' = values_of v k' @ (if k = k' then [x] else [])"
  by (simp add: Values_Add_def values_of_def update_conv')

lemma values_of_pairs:
  "values_of (foldl (\<lambda>v (k, x). Values_Add k x v) v kxs) k = values_of v k @ map snd (filter (\<lambda>kx. fst kx = k) kxs)"
  by (induction kxs arbitrary: v) (auto simp: values_of_Add)

lemma ParseQuery_Encode: "ParseQuery (Encode v) = foldl (\<lambda>v (k, x). Values_Add k x v) [] (pairs_of v)"
proof -
  have add: "foldl add_part w (map encode_pair kxs) = foldl (\<lambda>v (k, x). Values_Add k x v) w kxs" for w kxs
    by (induction kxs arbitrary: w) (auto simp: add_part_encode_pair)
  show ?thesis
  proof (cases "pairs_of v = []")
    case True
    then show ?thesis by (simp add: ParseQuery_def Encode_def add_part_def)
  next
    case False
    have "\<forall>s \<in> set (map encode_pair (pairs_of v)). \<forall>x \<in> set s. \<not> separator x"
      using encode_pair_no_separator by auto
    then have "split_query (Encode v) = map encode_pair (pairs_of v)"
      using False split_query_join by (simp add: Encode_def)
    then show ?thesis by (simp add: ParseQuery_def add)
  qed
qed

lemma filter_pairs:
  "distinct ks \<Longrightarrow>
   map snd (filter (\<lambda>kx. fst kx = k) (concat (map (\<lambda>k. map (Pair k) (f k)) ks))) = (if k \<in> set ks then f k else [])"
proof (induction ks)
  case (Cons k' ks)
  have "filter (\<lambda>kx. fst kx = k) (map (Pair k') (f k')) = (if k' = k then map (Pair k) (f k) else [])"
    by (auto simp: filter_map comp_def)
  then show ?case using Cons by (auto simp: comp_def)
qed simp

lemma query_arrives: "map_wf v \<Longrightarrow> values_of (ParseQuery (Encode v)) k = values_of v k"
proof -
  assume "map_wf v"
  then have "distinct (sort (map_keys v))" by (simp add: map_keys_def)
  then have "values_of (ParseQuery (Encode v)) k = (if k \<in> set (map_keys v) then values_of v k else [])"
    unfolding ParseQuery_Encode values_of_pairs pairs_of_def by (simp add: filter_pairs) (simp add: values_of_def)
  then show ?thesis by (auto simp: set_map_keys values_of_def split: option.split)
qed

end
