(* ===== verification/Worker.thy ===== *)
theory Worker
  imports Execution_Properties Url_Query
begin

text \<open>
  The worker (worker/config.go, worker/worker.go): the checks before it starts, the request for
  work, the timers, and the post of a result. The controller, the HTTP client and the system
  are outside: a call of them is an event, answered by a parameter. Of a multipart form the
  fields and the file are kept, in the order in which they are written; writing them to a
  memory buffer does not fail. \<open>url.Parse\<close>, \<open>http.NewRequest\<close> and the JSON decoder are
  parameters.
\<close>

section \<open>Configuration\<close>

record worker_Config =
  wc_ControllerUrl :: string
  wc_Tags :: "string list"
  wc_SleepSeconds :: int
  wc_MaxJobs :: int
  wc_TimeoutSeconds :: int
  wc_Syslog :: bool
  wc_SkipVerify :: bool
  wc_CAFile :: string

section \<open>The outside\<close>

record post_form =
  pf_fields :: "(string \<times> string) list"
  pf_file :: "(string \<times> string) option"

datatype wk_event =
    WkSyslog string
  | WkReadFile string
  | WkAppendCerts string
  | WkGet string string
  | WkPost string post_form
  | WkSleep int

record http_response =
  hr_StatusCode :: int
  hr_Status :: string
  hr_Body :: "string + string"

text \<open>The answer to a call: its error, the response (nil with most errors), the data of a file.\<close>

record wk_answer =
  wk_err :: "string option"
  wk_resp :: "http_response option"
  wk_data :: string

type_synonym outside = "wk_event list \<Rightarrow> wk_event \<Rightarrow> wk_answer"

type_synonym 'a wk_act = "(wk_event, 'a) action"

record wk_lib =
  url_Parse :: "string \<Rightarrow> string + string"
  url_NewRequest :: "string \<Rightarrow> string option"
  json_Executions :: "string \<Rightarrow> string + Execution list"

text \<open>\<open>url_Parse\<close> gives the scheme, or the error.\<close>

definition nil_panic :: "('e, 'a) action" where
  "nil_panic = act_panic ''invalid memory address or nil pointer dereference''"

section \<open>Starting\<close>

definition setup_syslog :: "outside \<Rightarrow> worker_Config \<Rightarrow> unit wk_act" where
  "setup_syslog out conf =
     (if wc_Syslog conf then
        act_bind (ask out (WkSyslog ''LOG_ERR'')) (\<lambda>a. case wk_err a of
          Some err \<Rightarrow> act_err (''Unable to create syslog: '' @ err)
        | None \<Rightarrow> act_bind (ask out (WkSyslog ''LOG_INFO'')) (\<lambda>a. case wk_err a of
            Some err \<Rightarrow> act_err (''Unable to create syslog: '' @ err)
          | None \<Rightarrow> act_ok ()))
      else act_ok ())"

definition setup_tls :: "outside \<Rightarrow> worker_Config \<Rightarrow> unit wk_act" where
  "setup_tls out conf =
     (if wc_SkipVerify conf then
        (if wc_CAFile conf \<noteq> [] then act_err ''Cannot have both noverify and cafile'' else act_ok ())
      else if wc_CAFile conf \<noteq> [] then
        act_bind (ask out (WkReadFile (wc_CAFile conf))) (\<lambda>a. case wk_err a of
          Some err \<Rightarrow> act_err (''Unable to read CA file: '' @ err)
        | None \<Rightarrow> act_bind (ask out (WkAppendCerts (wk_data a))) (\<lambda>a. case wk_err a of
            Some _ \<Rightarrow> act_err ''Unable to add CA''
          | None \<Rightarrow> act_ok ()))
      else act_ok ())"

text \<open>\<open>http.Client.Get\<close> without an error returns a response.\<close>

definition NewWorker :: "outside \<Rightarrow> worker_Config \<Rightarrow> worker_Config wk_act" where
  "NewWorker out conf =
     act_bind (setup_syslog out conf) (\<lambda>_.
     act_bind (setup_tls out conf) (\<lambda>_.
     act_bind (ask out (WkGet (wc_ControllerUrl conf @ ''/worker/ping'') [])) (\<lambda>a. case wk_err a of
       Some err \<Rightarrow> act_err (''Unable to contact controller at /worker/ping: '' @ err)
     | None \<Rightarrow> (case wk_resp a of None \<Rightarrow> nil_panic
       | Some resp \<Rightarrow>
           if hr_StatusCode resp \<noteq> 200
           then act_err (''Bad status from /worker/ping: '' @ Itoa (hr_StatusCode resp))
           else act_ok conf))))"

text \<open>\<open>RunWorker\<close> up to \<open>work.Start()\<close>, which does not return: \<open>Ok\<close> is the worker that starts.\<close>

definition RunWorker :: "outside \<Rightarrow> wk_lib \<Rightarrow> worker_Config \<Rightarrow> worker_Config wk_act" where
  "RunWorker out lib conf =
     (if wc_ControllerUrl conf = [] then act_err ''Controller URL required''
      else case url_Parse lib (wc_ControllerUrl conf) of
        Inl err \<Rightarrow> act_err (''Invalid controller URL '' @ wc_ControllerUrl conf @ '': '' @ err)
      | Inr scheme \<Rightarrow>
          if scheme = [] then act_err ''Invalid scheme, expecting http or https''
          else act_wrap (\<lambda>err. ''Unable to start worker: '' @ err)
            (NewWorker out (conf\<lparr>wc_ControllerUrl := TrimRight (wc_ControllerUrl conf) (CHR ''/'')\<rparr>)))"

section \<open>Asking for work\<close>

definition next_query :: "worker_Config \<Rightarrow> int \<Rightarrow> string list gomap" where
  "next_query conf jobsNeeded =
     Values_Set ''max'' (Itoa jobsNeeded)
       (Values_Set ''seconds'' (Itoa (wc_SleepSeconds conf))
         (foldl (\<lambda>v tag. Values_Add ''tag'' tag v) [] (wc_Tags conf)))"

definition nextExecutions :: "outside \<Rightarrow> wk_lib \<Rightarrow> worker_Config \<Rightarrow> int \<Rightarrow> Execution list wk_act" where
  "nextExecutions out lib conf jobsNeeded =
     (let url = wc_ControllerUrl conf @ ''/worker/next''; query = Encode (next_query conf jobsNeeded) in
      case url_Parse lib url of Inl err \<Rightarrow> act_panic (''Unable to parse URL: '' @ err)
      | Inr _ \<Rightarrow>
      case url_NewRequest lib url of Some err \<Rightarrow> act_panic (''Unable to parse URL: '' @ err)
      | None \<Rightarrow>
      act_bind (ask out (WkGet url query)) (\<lambda>a. case wk_err a of
        Some err \<Rightarrow> act_err (''Failed to obtain next set of jobs: '' @ err)
      | None \<Rightarrow> (case wk_resp a of None \<Rightarrow> nil_panic
        | Some resp \<Rightarrow>
            if hr_StatusCode resp = 204 then act_ok []
            else case hr_Body resp of
              Inl err \<Rightarrow> act_err (''Unable to read body: '' @ err)
            | Inr body \<Rightarrow>
                if hr_StatusCode resp \<noteq> 200 then
                  act_err (''Failed to retrieve next jobs, status '' @ hr_Status resp @ '', body: '' @ body)
                else case json_Executions lib body of
                  Inl err \<Rightarrow> act_err (''Unable to unmarshal JSON: '' @ err @ ''. Body: '' @ body)
                | Inr executions \<Rightarrow> act_ok executions)))"

text \<open>
  \<open>tick\<close>: the executions it schedules; a failure to fetch them is logged. \<open>running\<close> is
  \<open>runningExecutionCount\<close> when the tick reads it.
\<close>

definition tick :: "outside \<Rightarrow> wk_lib \<Rightarrow> worker_Config \<Rightarrow> int \<Rightarrow> Execution list wk_act" where
  "tick out lib conf running =
     (let jobsNeeded = wrap64 (wc_MaxJobs conf - running) in
      if jobsNeeded \<le> 0 then act_ok []
      else (\<lambda>h. case nextExecutions out lib conf jobsNeeded h of
        (Ok executions, h') \<Rightarrow> (Ok executions, h')
      | (Err _, h') \<Rightarrow> (Ok [], h')
      | (Panic p, h') \<Rightarrow> (Panic p, h')))"

text \<open>
  One round of \<open>Start\<close>: two ticks and a pause of half the seconds (truncated), given the count
  that each of the ticks reads.
\<close>

definition start_round :: "outside \<Rightarrow> wk_lib \<Rightarrow> worker_Config \<Rightarrow> int \<Rightarrow> int \<Rightarrow> Execution list wk_act" where
  "start_round out lib conf running1 running2 =
     act_bind (tick out lib conf running1) (\<lambda>exs1.
     act_bind (tick out lib conf running2) (\<lambda>exs2.
     act_bind (ask out (WkSleep (sgn (wc_SleepSeconds conf) * (abs (wc_SleepSeconds conf) div 2)))) (\<lambda>_.
     act_ok (exs1 @ exs2))))"

text \<open>The delay of the timer: \<open>t.Sub(time.Now())\<close>, saturated; a timer that is not positive fires at once.\<close>

definition scheduleExecution :: "gotime \<Rightarrow> Execution \<Rightarrow> int" where
  "scheduleExecution now ex = max (- (2 ^ 63)) (min (2 ^ 63 - 1) (nanos (time_Unix (ex_Timestamp ex)) - nanos now))"

section \<open>Posting a result\<close>

definition result_form :: "exec_result \<Rightarrow> post_form" where
  "result_form res =
     \<lparr>pf_fields =
        [(''job'', res_jobName res), (''device'', res_deviceName res),
         (''job_timestamp'', Itoa (res_jobTimestamp res)), (''start_timestamp'', Itoa (res_startTimestamp res)),
         (''end_timestamp'', Itoa (res_endTimestamp res))] @
        (case res_failure res of None \<Rightarrow> [] | Some failure \<Rightarrow> [(''failure'', failure)]),
      pf_file = (if length (res_file res) > 0 then Some (res_jobName res, res_file res) else None)\<rparr>"

text \<open>
  The post: the error that is logged, if any. The response is looked at only when there is an
  error, and then \<open>resp.Body\<close> is evaluated first.
\<close>

definition postResult :: "outside \<Rightarrow> wk_lib \<Rightarrow> worker_Config \<Rightarrow> exec_result \<Rightarrow> string option wk_act" where
  "postResult out lib conf res =
     (let url = wc_ControllerUrl conf @ ''/worker/complete'' in
      case url_Parse lib url of Inl err \<Rightarrow> act_panic (''Unable to parse URL: '' @ err)
      | Inr _ \<Rightarrow>
      case url_NewRequest lib url of Some err \<Rightarrow> act_ok (Some err)
      | None \<Rightarrow>
      act_bind (ask out (WkPost url (result_form res))) (\<lambda>a. case wk_err a of
        None \<Rightarrow> act_ok None
      | Some _ \<Rightarrow> (case wk_resp a of None \<Rightarrow> nil_panic
        | Some resp \<Rightarrow> (case hr_Body resp of
            Inl err \<Rightarrow> act_ok (Some err)
          | Inr body \<Rightarrow>
              if hr_StatusCode resp \<noteq> 200 then
                act_ok (Some (''Controller failed to accept post with status '' @ hr_Status resp @ '', body: '' @ body))
              else act_ok None))))"

text \<open>
  The goroutine of an execution: the run on the device, then the post; their events are kept
  apart. The increment and decrement of the count are the steps of Worker_Runs.
\<close>

definition runExecutionAndPostResult :: "network \<Rightarrow> bytes_lib \<Rightarrow> outside \<Rightarrow> wk_lib \<Rightarrow> worker_Config \<Rightarrow> Execution
    \<Rightarrow> dev_event list \<times> wk_event list \<Rightarrow> string option res \<times> dev_event list \<times> wk_event list" where
  "runExecutionAndPostResult net blib out lib conf ex h =
     (case runExecution net blib ex (fst h) of
        (Ok result, h1) \<Rightarrow> (case postResult out lib conf result (snd h) of (posted, h2) \<Rightarrow> (posted, h1, h2))
      | (Err err, h1) \<Rightarrow> (Err err, h1, snd h)
      | (Panic p, h1) \<Rightarrow> (Panic p, h1, snd h))"

end
