(* ===== verification/Worker_Api.thy ===== *)
theory Worker_Api
  imports Worker Api
begin

text \<open>
  The worker and the controller together: a request for work means the same at both ends, a
  result arrives as it was sent, and what happens to a result that does not.
\<close>

section \<open>Starting\<close>

lemma NewWorker_ok:
  assumes "NewWorker out conf h = (Ok conf', h')"
  shows "conf' = conf \<and> \<not> (wc_SkipVerify conf \<and> wc_CAFile conf \<noteq> []) \<and>
    (\<exists>h1 resp. h' = h1 @ [WkGet (wc_ControllerUrl conf @ ''/worker/ping'') []] \<and>
       wk_resp (out h1 (WkGet (wc_ControllerUrl conf @ ''/worker/ping'') [])) = Some resp \<and>
       hr_StatusCode resp = 200)"
proof -
  obtain a1 h1 where 1: "setup_syslog out conf h = (Ok a1, h1)"
    using assms by (cases "setup_syslog out conf h"; cases "fst (setup_syslog out conf h)")
      (auto simp: NewWorker_def act_bind_def)
  obtain a2 h2 where 2: "setup_tls out conf h1 = (Ok a2, h2)"
    using assms 1 by (cases "setup_tls out conf h1"; cases "fst (setup_tls out conf h1)")
      (auto simp: NewWorker_def act_bind_def)
  have tls: "\<not> (wc_SkipVerify conf \<and> wc_CAFile conf \<noteq> [])"
    using 2 by (auto simp: setup_tls_def act_err_def split: if_splits)
  show ?thesis
    using assms 1 2 tls
    by (auto simp: NewWorker_def act_bind_def ask_def act_err_def act_ok_def nil_panic_def act_panic_def
        split: option.splits if_splits)
qed

text \<open>
  A worker starts only with a controller URL that parses, has a scheme and, in the
  configuration it runs with, no slash at its end; not with both a CA file and no verification;
  and only after the controller has answered its ping with status 200.
\<close>

theorem RunWorker_starts:
  assumes "RunWorker out lib conf h = (Ok conf', h')"
  shows "conf' = conf\<lparr>wc_ControllerUrl := TrimRight (wc_ControllerUrl conf) (CHR ''/'')\<rparr> \<and>
    \<not> HasSuffix (wc_ControllerUrl conf') ''/'' \<and>
    (\<exists>scheme. url_Parse lib (wc_ControllerUrl conf) = Inr scheme \<and> scheme \<noteq> []) \<and>
    \<not> (wc_SkipVerify conf \<and> wc_CAFile conf \<noteq> []) \<and>
    (\<exists>h1 resp. h' = h1 @ [WkGet (wc_ControllerUrl conf' @ ''/worker/ping'') []] \<and>
       wk_resp (out h1 (WkGet (wc_ControllerUrl conf' @ ''/worker/ping'') [])) = Some resp \<and>
       hr_StatusCode resp = 200)"
proof -
  let ?conf = "conf\<lparr>wc_ControllerUrl := TrimRight (wc_ControllerUrl conf) (CHR ''/'')\<rparr>"
  obtain scheme where s: "url_Parse lib (wc_ControllerUrl conf) = Inr scheme" "scheme \<noteq> []"
    using assms by (auto simp: RunWorker_def act_err_def split: if_splits sum.splits)
  obtain out' h1 where n: "NewWorker out ?conf h = (out', h1)" by fastforce
  have "out' = Ok conf' \<and> h1 = h'"
    using assms s n by (cases out') (auto simp: RunWorker_def act_err_def act_wrap_def split: if_splits)
  then have "NewWorker out ?conf h = (Ok conf', h')" using n by simp
  from NewWorker_ok [OF this] s show ?thesis by (simp add: TrimRight_no_suffix)
qed

definition sample_wk_conf :: worker_Config where
  "sample_wk_conf = \<lparr>wc_ControllerUrl = ''http://c/'', wc_Tags = [''dmz''], wc_SleepSeconds = 15, wc_MaxJobs = 2,
     wc_TimeoutSeconds = 3, wc_Syslog = False, wc_SkipVerify = False, wc_CAFile = []\<rparr>"

definition sample_wk_lib :: wk_lib where
  "sample_wk_lib = \<lparr>url_Parse = (\<lambda>u. if Contains u '':'' then Inr ''http'' else Inl ''no scheme''),
     url_NewRequest = (\<lambda>u. None), json_Executions = (\<lambda>b. Inr [])\<rparr>"

definition sample_outside :: outside where
  "sample_outside h ev = \<lparr>wk_err = None,
     wk_resp = Some \<lparr>hr_StatusCode = 200, hr_Status = ''200 OK'', hr_Body = Inr ''[]''\<rparr>, wk_data = []\<rparr>"

theorem RunWorker_starts_witness:
  "\<exists>conf' h'. RunWorker sample_outside sample_wk_lib sample_wk_conf [] = (Ok conf', h') \<and>
     wc_ControllerUrl conf' = ''http://c'' \<and> \<not> HasSuffix (wc_ControllerUrl conf') ''/''"
proof -
  have t: "TrimRight ''http://c/'' (CHR ''/'') = ''http://c''" by (simp add: TrimRight_def)
  have "\<exists>conf' h'. RunWorker sample_outside sample_wk_lib sample_wk_conf [] = (Ok conf', h')"
    by (simp add: RunWorker_def sample_wk_lib_def sample_wk_conf_def NewWorker_def setup_syslog_def
        setup_tls_def act_bind_def ask_def sample_outside_def act_ok_def act_wrap_def)
  then obtain conf' h' where r: "RunWorker sample_outside sample_wk_lib sample_wk_conf [] = (Ok conf', h')" by blast
  from RunWorker_starts [OF this] r show ?thesis by (auto simp: sample_wk_conf_def t)
qed

section \<open>Asking for work\<close>

lemma query_values_of: "query_values q k = values_of q k"
  by (simp add: query_values_def values_of_def)

lemma values_of_Nil [simp]: "values_of [] k = []"
  by (simp add: values_of_def)

lemma values_of_Set: "values_of (Values_Set k x v) k' = (if k = k' then [x] else values_of v k')"
  by (simp add: Values_Set_def values_of_def update_conv')

lemma values_of_tags: "values_of (foldl (\<lambda>v tag. Values_Add k tag v) v tags) k' =
    values_of v k' @ (if k = k' then tags else [])"
  by (induction tags arbitrary: v) (auto simp: values_of_Add)

lemma wf_tags: "map_wf v \<Longrightarrow> map_wf (foldl (\<lambda>v tag. Values_Add k tag v) v tags)"
  by (induction tags arbitrary: v) (auto simp: Values_Add_def distinct_update)

lemma next_query_wf: "map_wf (next_query conf n)"
  by (simp add: next_query_def Values_Set_def distinct_update wf_tags)

definition int64 :: "int \<Rightarrow> bool" where
  "int64 i \<longleftrightarrow> - (2 ^ 63) \<le> i \<and> i < 2 ^ 63"

lemma next_query_values:
  "values_of (next_query conf n) ''tag'' = wc_Tags conf"
  "values_of (next_query conf n) ''seconds'' = [Itoa (wc_SleepSeconds conf)]"
  "values_of (next_query conf n) ''max'' = [Itoa n]"
  by (simp_all add: next_query_def values_of_Set values_of_tags)

lemma request_understood:
  assumes "int64 (wc_SleepSeconds conf)" "int64 n"
  shows "query_values (ParseQuery (Encode (next_query conf n))) ''tag'' = wc_Tags conf"
    and "int_param (ParseQuery (Encode (next_query conf n))) ''seconds'' dflt = Some (wc_SleepSeconds conf)"
    and "int_param (ParseQuery (Encode (next_query conf n))) ''max'' dflt = Some n"
  using assms unfolding int_param_def query_values_of query_arrives [OF next_query_wf] next_query_values
  by (simp_all add: Atoi_Itoa int64_def)

text \<open>
  What the worker encodes into the URL of its request is what the controller decodes: the
  tags in order, the number of seconds and the number of jobs.
\<close>

theorem work_request_roundtrip:
  assumes "int64 (wc_SleepSeconds conf)" "int64 n"
  shows "query_values (ParseQuery (Encode (next_query conf n))) ''tag'' = wc_Tags conf \<and>
    int_param (ParseQuery (Encode (next_query conf n))) ''seconds'' dflt = Some (wc_SleepSeconds conf) \<and>
    int_param (ParseQuery (Encode (next_query conf n))) ''max'' dflt = Some n"
  using request_understood [OF assms] by simp

theorem work_request_roundtrip_witness:
  "query_values (ParseQuery (Encode (next_query (sample_wk_conf\<lparr>wc_Tags := [''a&b=c'', ''d e'']\<rparr>) 2))) ''tag'' =
     [''a&b=c'', ''d e'']"
  using work_request_roundtrip [of "sample_wk_conf\<lparr>wc_Tags := [''a&b=c'', ''d e'']\<rparr>" 2]
  by (simp add: int64_def sample_wk_conf_def)

section \<open>Work over the wire\<close>

text \<open>
  What is left of an execution after \<open>json.Marshal\<close> and \<open>json.Unmarshal\<close>: the fields tagged
  \<open>json:"-"\<close> are gone (the schedule, the command generic, the device's tags and jobs).
\<close>

definition wire_job :: "Job \<Rightarrow> Job" where
  "wire_job j = j\<lparr>job_CommandSet := map_option (\<lambda>c. c\<lparr>cset_Generic := None\<rparr>) (job_CommandSet j), job_Schedule := None\<rparr>"

definition wire :: "Execution \<Rightarrow> Execution" where
  "wire ex = ex\<lparr>ex_Device := (ex_Device ex)\<lparr>dev_Tags := [], dev_Jobs := []\<rparr>, ex_Job := wire_job (ex_Job ex)\<rparr>"

lemma runCommands_wire: "runCommands net lib sess (c\<lparr>cset_Generic := g\<rparr>) = runCommands net lib sess c"
  by (cases c, hypsubst, unfold runCommands_def CommandSet.update_convs CommandSet.select_convs, rule refl)

lemma runJob_wire: "runJob net lib sess (wire_job j) = runJob net lib sess j"
  by (rule ext) (simp add: runJob_def wire_job_def runCommands_wire split: option.split)

lemma scrub_result_wire: "scrub_result lib (wire_job j) = scrub_result lib j"
  by (rule ext) (simp add: scrub_result_def wire_job_def scrubBytes_def)

lemma authenticate_wire: "authenticate net (d\<lparr>dev_Tags := ts, dev_Jobs := js\<rparr>) = authenticate net d"
  by (cases d, hypsubst, unfold authenticate_def Device.update_convs Device.select_convs, rule refl)

lemma newSession_wire: "newSession (d\<lparr>dev_Tags := ts, dev_Jobs := js\<rparr>) = newSession d"
  by (simp add: newSession_def)

lemma wire_simps:
  "ex_Device (wire ex) = (ex_Device ex)\<lparr>dev_Tags := [], dev_Jobs := []\<rparr>" "ex_Job (wire ex) = wire_job (ex_Job ex)"
  by (simp_all add: wire_def)

lemma run_session_wire: "run_session net lib (wire ex) = run_session net lib ex"
  unfolding run_session_def wire_simps authenticate_wire runJob_wire scrub_result_wire by (rule refl)

text \<open>
  The fields of an execution that are not sent to the worker do not matter there: running
  what arrives is running what was scheduled, on every network.
\<close>

theorem runExecution_wire: "runExecution net lib (wire ex) = runExecution net lib ex"
proof -
  have "new_result (wire ex) = new_result ex" "newSession (ex_Device (wire ex)) = newSession (ex_Device ex)"
    by (simp_all add: new_result_def wire_def wire_job_def fun_eq_iff newSession_wire)
  then show ?thesis unfolding runExecution_def run_session_wire by simp
qed

text \<open>The request for work as the controller parses it, and the response as the worker sees it.\<close>

definition work_request :: "worker_Config \<Rightarrow> int \<Rightarrow> request" where
  "work_request conf n = \<lparr>req_Method = ''GET'', req_Query = Some (ParseQuery (Encode (next_query conf n))),
     req_Authorization = [], req_Form = (\<lambda>_. None)\<rparr>"

definition response_of :: "writer \<Rightarrow> wk_answer" where
  "response_of w = \<lparr>wk_err = None,
     wk_resp = Some \<lparr>hr_StatusCode = status w, hr_Status = Itoa (status w), hr_Body = Inr (w_Body w)\<rparr>, wk_data = []\<rparr>"

definition url_ok :: "wk_lib \<Rightarrow> string \<Rightarrow> bool" where
  "url_ok lib u \<longleftrightarrow> (\<exists>scheme. url_Parse lib u = Inr scheme) \<and> url_NewRequest lib u = None"

lemma give_executions_error:
  "web_Marshal web exs = Inl e \<Longrightarrow> exs \<noteq> [] \<Longrightarrow> status (give_executions web exs new_writer) = 500"
  by (simp add: give_executions_def http_Error_def status_def Write_body_def WriteHeader_def Header_Set_def
      new_writer_def Let_def)


definition sample_exec :: Execution where
  "sample_exec = \<lparr>ex_Device = sample_device, ex_Job = sample_copy, ex_Timestamp = 1451606401\<rparr>"

definition sample_wire_web :: "schedulerLocal web" where
  "sample_wire_web = sample_web\<lparr>web_Marshal := \<lambda>exs. if exs = [sample_exec] then Inr ''one'' else Inl ''unsupported''\<rparr>"

definition sample_wire_lib :: wk_lib where
  "sample_wire_lib = sample_wk_lib\<lparr>json_Executions :=
     \<lambda>b. if b = ''one'' then Inr [wire sample_exec] else Inl ''invalid character''\<rparr>"

definition sample_controller :: outside where
  "sample_controller h ev =
     (case apiWorkerNext sample_wire_web (work_request sample_wk_conf 2) (new_writer, sample_ctl) of
        Ok (w, _) \<Rightarrow> response_of w | _ \<Rightarrow> \<lparr>wk_err = Some ''EOF'', wk_resp = None, wk_data = []\<rparr>)"


section \<open>Completed runs\<close>

text \<open>
  The form as \<open>ParseMultipartForm\<close> delivers it: values grouped by name, and the file under
  \<open>file\<close>; a part with an empty file name counts as a value.
\<close>

definition form_of :: "post_form \<Rightarrow> form" where
  "form_of p =
     (let values = foldl (\<lambda>v (k, x). Values_Add k x v) [] (pf_fields p) in
      case pf_file p of
        None \<Rightarrow> \<lparr>fm_Value = values, fm_File = []\<rparr>
      | Some (name, bytes) \<Rightarrow>
          if name = [] then \<lparr>fm_Value = Values_Add ''file'' bytes values, fm_File = []\<rparr>
          else \<lparr>fm_Value = values, fm_File = [(''file'', [\<lparr>ff_Open = None, ff_Read = Inr bytes\<rparr>])]\<rparr>)"

definition reported_job :: "exec_result \<Rightarrow> DataStoreJob" where
  "reported_job res =
     \<lparr>dsj_DeviceName = res_deviceName res, dsj_JobName = res_jobName res,
      dsj_JobTime = time_Unix (res_jobTimestamp res), dsj_StartTime = time_Unix (res_startTimestamp res),
      dsj_EndTime = time_Unix (res_endTimestamp res),
      dsj_Failure = (case res_failure res of None \<Rightarrow> [] | Some f \<Rightarrow> f), dsj_Contents = res_file res\<rparr>"

text \<open>A time stamp that arrives: it fits 64 bits, and is not the zero time.\<close>

definition sendable_time :: "int \<Rightarrow> bool" where
  "sendable_time i \<longleftrightarrow> int64 i \<and> wrap64 (i + unixToInternal) \<noteq> 0"

definition sendable :: "exec_result \<Rightarrow> bool" where
  "sendable res \<longleftrightarrow> res_jobName res \<noteq> [] \<and> res_deviceName res \<noteq> [] \<and> sendable_time (res_jobTimestamp res) \<and>
     sendable_time (res_startTimestamp res) \<and> sendable_time (res_endTimestamp res)"

lemma form_values:
  "values_of (fm_Value (form_of (result_form res))) k =
    (if k = ''job'' then [res_jobName res] else if k = ''device'' then [res_deviceName res]
     else if k = ''job_timestamp'' then [Itoa (res_jobTimestamp res)]
     else if k = ''start_timestamp'' then [Itoa (res_startTimestamp res)]
     else if k = ''end_timestamp'' then [Itoa (res_endTimestamp res)]
     else if k = ''failure'' then (case res_failure res of None \<Rightarrow> [] | Some f \<Rightarrow> [f]) else [])"
  if "res_jobName res \<noteq> []"
  using that
  by (simp add: form_of_def result_form_def values_of_Add Let_def split: option.split)

lemma single_values: "singleMutlipartFormValOrEmpty k f = (case values_of (fm_Value f) k of [] \<Rightarrow> [] | v # _ \<Rightarrow> v)"
  by (simp add: singleMutlipartFormValOrEmpty_def values_of_def split: option.split list.split)

lemma Itoa_not_Nil: "Itoa i \<noteq> []"
  by (simp add: Itoa_def)

lemma timestamp_arrives:
  assumes "values_of (fm_Value f) k = [Itoa i]" "sendable_time i"
  shows "timestampOrZero k f = time_Unix i" "\<not> IsZero (time_Unix i)"
  using assms Atoi_Itoa [of i]
  by (simp_all add: timestampOrZero_def single_values Itoa_not_Nil sendable_time_def int64_def Let_def
      IsZero_def time_Unix_def zero_time_def)

lemma read_contents_form: "read_contents (form_of (result_form res)) = Inr (res_file res)" if "res_jobName res \<noteq> []"
  using that by (simp add: read_contents_def form_of_def result_form_def Let_def)

lemma completed_job_arrives:
  assumes "sendable res"
  shows "completed_job (form_of (result_form res)) (res_file res) = reported_job res"
proof -
  have n: "res_jobName res \<noteq> []" using assms by (simp add: sendable_def)
  let ?f = "form_of (result_form res)"
  have "timestampOrZero ''job_timestamp'' ?f = time_Unix (res_jobTimestamp res)"
    "timestampOrZero ''start_timestamp'' ?f = time_Unix (res_startTimestamp res)"
    "timestampOrZero ''end_timestamp'' ?f = time_Unix (res_endTimestamp res)"
    using assms by (simp_all add: timestamp_arrives form_values [OF n] sendable_def)
  moreover have "singleMutlipartFormValOrEmpty ''job'' ?f = res_jobName res"
    "singleMutlipartFormValOrEmpty ''device'' ?f = res_deviceName res"
    "singleMutlipartFormValOrEmpty ''failure'' ?f = (case res_failure res of None \<Rightarrow> [] | Some e \<Rightarrow> e)"
    by (simp_all add: single_values form_values [OF n] split: option.split)
  ultimately show ?thesis by (simp add: completed_job_def reported_job_def)
qed

lemma http_Error_status: "status (http_Error msg code new_writer) = code"
  by (simp add: http_Error_def status_def Write_body_def WriteHeader_def Header_Set_def new_writer_def Let_def)

lemma WriteHeader_status: "status (WriteHeader code new_writer) = code"
  by (simp add: status_def WriteHeader_def new_writer_def)

definition form_limit :: "cfg_Config \<Rightarrow> int" where
  "form_limit conf = (if c_MaxJobBytes conf \<noteq> 0 then c_MaxJobBytes conf else MaxJobBytes)"

lemma complete_arrives:
  assumes "sendable res" "req_Form req (form_limit conf) = Some (form_of (result_form res))" "res_failure res \<noteq> Some []"
  shows "\<exists>w. apiWorkerComplete conf req (new_writer, st) =
      Ok (w, if res_failure res \<noteq> None then st\<lparr>ctl_Failures := ctl_Failures st @ [reported_job res]\<rparr>
             else if res_file res = [] then st
             else st\<lparr>ctl_Stored := ctl_Stored st @ [reported_job res]\<rparr>) \<and>
    status w = (if res_failure res = None \<and> res_file res = [] then 400 else 200)"
proof -
  have n: "res_jobName res \<noteq> []" using assms(1) by (simp add: sendable_def)
  have times: "\<not> IsZero (time_Unix (res_jobTimestamp res))" "\<not> IsZero (time_Unix (res_startTimestamp res))"
    "\<not> IsZero (time_Unix (res_endTimestamp res))"
    using assms(1) by (auto simp: sendable_def sendable_time_def IsZero_def time_Unix_def zero_time_def)
  have req: "req_Form req (if c_MaxJobBytes conf \<noteq> 0 then c_MaxJobBytes conf else MaxJobBytes) = Some (form_of (result_form res))"
    using assms(2) by (simp add: form_limit_def)
  show ?thesis
    unfolding apiWorkerComplete_def prod.case Let_def req option.case read_contents_form [OF n] sum.case
      completed_job_arrives [OF assms(1)]
    using times assms(1,3)
    by (cases "res_failure res") (auto simp: reported_job_def sendable_def http_Error_status WriteHeader_status)
qed

text \<open>
  C8. A result arrives as it was sent: the controller stores exactly the job, device, times and
  contents that the worker reported, a failed run is recorded as a failure and never stored,
  and a run that succeeded with no output at all is refused with status 400.
\<close>

theorem result_roundtrip:
  assumes "sendable res" "req_Form req (form_limit conf) = Some (form_of (result_form res))" "res_failure res \<noteq> Some []"
  shows "\<exists>w. apiWorkerComplete conf req (new_writer, st) =
      Ok (w, if res_failure res \<noteq> None then st\<lparr>ctl_Failures := ctl_Failures st @ [reported_job res]\<rparr>
             else if res_file res = [] then st
             else st\<lparr>ctl_Stored := ctl_Stored st @ [reported_job res]\<rparr>) \<and>
    status w = (if res_failure res = None \<and> res_file res = [] then 400 else 200)"
  by (rule complete_arrives [OF assms])

definition sample_res :: "string \<Rightarrow> exec_result" where
  "sample_res file = \<lparr>res_jobName = ''backup'', res_deviceName = ''sw1'', res_jobTimestamp = 1451606401,
     res_startTimestamp = 1451606402, res_endTimestamp = 1451606403, res_file = file, res_failure = None\<rparr>"

definition sample_post :: "exec_result \<Rightarrow> request" where
  "sample_post res = \<lparr>req_Method = ''POST'', req_Query = Some [], req_Authorization = [],
     req_Form = (\<lambda>limit. Some (form_of (result_form res)))\<rparr>"

lemma sample_sendable: "sendable (sample_res file)"
  by (simp add: sendable_def sample_res_def sendable_time_def int64_def unixToInternal_def wrap64_def)

theorem result_roundtrip_witness:
  "\<exists>w. apiWorkerComplete NewDefault (sample_post (sample_res ''version 15'')) (new_writer, sample_ctl) =
     Ok (w, sample_ctl\<lparr>ctl_Stored := [reported_job (sample_res ''version 15'')]\<rparr>) \<and> status w = 200"
  using result_roundtrip [OF sample_sendable, of "sample_post (sample_res ''version 15'')" NewDefault "''version 15''" sample_ctl]
  by (simp add: sample_post_def) (simp add: sample_res_def sample_ctl_def)

text \<open>
  C26. Nothing but complete results reaches the data store: whatever form is posted, the handler
  answers; it changes nothing unless it answers 200, and then it adds one job with names, times
  that are not zero, and either a failure, to the failures, or contents, to the stored results.
\<close>

theorem apiWorkerComplete_guards:
  "\<exists>w st'. apiWorkerComplete conf req (new_writer, st) = Ok (w, st') \<and> ctl_Scheduler st' = ctl_Scheduler st \<and>
    (status w \<noteq> 200 \<and> st' = st \<or>
     status w = 200 \<and> (\<exists>job. dsj_JobName job \<noteq> [] \<and> dsj_DeviceName job \<noteq> [] \<and> \<not> IsZero (dsj_JobTime job) \<and>
        \<not> IsZero (dsj_StartTime job) \<and> \<not> IsZero (dsj_EndTime job) \<and>
        (dsj_Failure job \<noteq> [] \<and> st' = st\<lparr>ctl_Failures := ctl_Failures st @ [job]\<rparr> \<or>
         dsj_Failure job = [] \<and> dsj_Contents job \<noteq> [] \<and> st' = st\<lparr>ctl_Stored := ctl_Stored st @ [job]\<rparr>)))"
proof (cases "req_Form req (form_limit conf)")
  case None
  then show ?thesis by (simp add: apiWorkerComplete_def form_limit_def http_Error_status Let_def split: if_splits)
next
  case (Some f)
  show ?thesis
  proof (cases "read_contents f")
    case (Inl e)
    then show ?thesis
      using Some by (simp add: apiWorkerComplete_def form_limit_def http_Error_status Let_def split: if_splits)
  next
    case (Inr contents)
    define job where "job = completed_job f contents"
    have "apiWorkerComplete conf req (new_writer, st) =
        (if dsj_JobName job = [] \<or> dsj_DeviceName job = [] \<or> IsZero (dsj_JobTime job) \<or>
           IsZero (dsj_StartTime job) \<or> IsZero (dsj_EndTime job) then
          Ok (http_Error ''Fields job, device, job_timestamp, start_timestamp, end_timestamp are required'' 400 new_writer, st)
         else if dsj_Failure job = [] \<and> length (dsj_Contents job) = 0 then
          Ok (http_Error ''Failure and contents may not both be empty'' 400 new_writer, st)
         else if dsj_Failure job \<noteq> [] then
          Ok (WriteHeader 200 new_writer, st\<lparr>ctl_Failures := ctl_Failures st @ [job]\<rparr>)
         else Ok (WriteHeader 200 new_writer, st\<lparr>ctl_Stored := ctl_Stored st @ [job]\<rparr>))"
      using Some Inr by (simp add: apiWorkerComplete_def form_limit_def job_def Let_def split: if_splits)
    then show ?thesis
      by (cases "dsj_Failure job = []") (auto simp: http_Error_status WriteHeader_status split: if_splits)
  qed
qed

section \<open>Results that are lost\<close>

definition post_event :: "worker_Config \<Rightarrow> exec_result \<Rightarrow> wk_event" where
  "post_event conf res = WkPost (wc_ControllerUrl conf @ ''/worker/complete'') (result_form res)"

lemma postResult_eq:
  assumes "url_ok lib (wc_ControllerUrl conf @ ''/worker/complete'')"
  shows "fst (postResult out lib conf res h) =
    (case wk_err (out h (post_event conf res)) of
       None \<Rightarrow> Ok None
     | Some _ \<Rightarrow> (case wk_resp (out h (post_event conf res)) of
         None \<Rightarrow> Panic ''invalid memory address or nil pointer dereference''
       | Some resp \<Rightarrow> (case hr_Body resp of
           Inl err \<Rightarrow> Ok (Some err)
         | Inr body \<Rightarrow> Ok (if hr_StatusCode resp \<noteq> 200
             then Some (''Controller failed to accept post with status '' @ hr_Status resp @ '', body: '' @ body)
             else None))))"
  using assms
  by (auto simp: url_ok_def postResult_def post_event_def act_bind_def ask_def act_ok_def nil_panic_def act_panic_def
      Let_def split: option.split sum.split)

text \<open>
  C36. A post that gets no response takes the worker down: the error check is inverted, so when
  the controller cannot be reached the body of a nil response is dereferenced, in a goroutine
  that nobody recovers.
\<close>

theorem unreachable_controller_panics:
  assumes "url_ok lib (wc_ControllerUrl conf @ ''/worker/complete'')"
    and "wk_err (out h (post_event conf res)) \<noteq> None" "wk_resp (out h (post_event conf res)) = None"
  shows "is_panic (fst (postResult out lib conf res h))"
  using assms by (auto simp: postResult_eq)

theorem unreachable_controller_panics_witness:
  "is_panic (fst (postResult (\<lambda>h ev. \<lparr>wk_err = Some ''connection refused'', wk_resp = None, wk_data = []\<rparr>)
     sample_wk_lib sample_wk_conf (sample_res ''ok'') []))"
  by (rule unreachable_controller_panics) (simp_all add: url_ok_def sample_wk_lib_def sample_wk_conf_def)

text \<open>
  C37. A run that succeeds without output is lost in silence: the controller refuses its result
  with status 400, and the worker, which does not look at the status of a post that was
  delivered, reports no error.
\<close>

theorem empty_result_lost:
  assumes "sendable res" "res_failure res = None" "res_file res = []"
    and "req_Form req (form_limit conf) = Some (form_of (result_form res))"
    and "url_ok lib (wc_ControllerUrl wconf @ ''/worker/complete'')"
    and "\<And>w st'. apiWorkerComplete conf req (new_writer, st) = Ok (w, st') \<Longrightarrow>
      out h (post_event wconf res) = response_of w"
  shows "\<exists>w. apiWorkerComplete conf req (new_writer, st) = Ok (w, st) \<and> status w = 400 \<and>
    fst (postResult out lib wconf res h) = Ok None"
proof -
  obtain w where w: "apiWorkerComplete conf req (new_writer, st) = Ok (w, st)" "status w = 400"
    using complete_arrives [OF assms(1,4), of st] assms(2,3) by auto
  have "out h (post_event wconf res) = response_of w" by (rule assms(6) [OF w(1)])
  then show ?thesis using w by (simp add: postResult_eq [OF assms(5)] response_of_def)
qed

definition sample_refusal :: outside where
  "sample_refusal h ev =
     (case apiWorkerComplete NewDefault (sample_post (sample_res [])) (new_writer, sample_ctl) of
        Ok (w, _) \<Rightarrow> response_of w | _ \<Rightarrow> \<lparr>wk_err = Some ''EOF'', wk_resp = None, wk_data = []\<rparr>)"

theorem empty_result_lost_witness:
  "\<exists>w. apiWorkerComplete NewDefault (sample_post (sample_res [])) (new_writer, sample_ctl) = Ok (w, sample_ctl) \<and>
     status w = 400 \<and> fst (postResult sample_refusal sample_wk_lib sample_wk_conf (sample_res []) []) = Ok None"
  by (rule empty_result_lost [OF sample_sendable])
    (simp_all add: sample_post_def sample_refusal_def url_ok_def sample_wk_lib_def sample_wk_conf_def, simp_all add: sample_res_def)

end
