(* ===== verification/Worker_Runs.thy ===== *)
theory Worker_Runs
  imports Worker "HOL-Library.Multiset"
begin

text \<open>
  The goroutines of a worker (worker/worker.go): \<open>Start\<close> ticks for ever, each execution that a
  tick obtains waits for its timer and then runs in a goroutine of its own, which counts itself
  in and out of \<open>runningExecutionCount\<close>. A step is one of the sections between which others can
  run: the read of the count, the arrival of the controller's answer, the start and the end of
  an execution. \<open>wks_received\<close> is history only.
\<close>

record wk_state =
  wks_count :: int
  wks_asked :: "int option"
  wks_timers :: "Execution list"
  wks_active :: "Execution list"
  wks_finished :: "Execution list"
  wks_received :: "Execution list"

definition wk_init :: wk_state where
  "wk_init = \<lparr>wks_count = 0, wks_asked = None, wks_timers = [], wks_active = [], wks_finished = [], wks_received = []\<rparr>"

definition take_out :: "nat \<Rightarrow> 'a list \<Rightarrow> 'a list" where
  "take_out i xs = take i xs @ drop (Suc i) xs"

text \<open>
  A tick holds \<open>tickLock\<close>, so there is at most one request under way; the answer has at most as
  many executions as were asked for (what the controller promises), or none after an error.
\<close>

inductive wk_step :: "worker_Config \<Rightarrow> wk_state \<Rightarrow> wk_state \<Rightarrow> bool" for conf where
  step_ask: "wks_asked s = None \<Longrightarrow> 0 < wrap64 (wc_MaxJobs conf - wks_count s) \<Longrightarrow>
    wk_step conf s (s\<lparr>wks_asked := Some (wrap64 (wc_MaxJobs conf - wks_count s))\<rparr>)"
| step_schedule: "wks_asked s = Some n \<Longrightarrow> int (length exs) \<le> n \<Longrightarrow>
    wk_step conf s (s\<lparr>wks_asked := None, wks_timers := wks_timers s @ exs, wks_received := wks_received s @ exs\<rparr>)"
| step_start: "i < length (wks_timers s) \<Longrightarrow>
    wk_step conf s (s\<lparr>wks_timers := take_out i (wks_timers s), wks_active := wks_active s @ [wks_timers s ! i],
      wks_count := wks_count s + 1\<rparr>)"
| step_end: "i < length (wks_active s) \<Longrightarrow>
    wk_step conf s (s\<lparr>wks_active := take_out i (wks_active s), wks_finished := wks_finished s @ [wks_active s ! i],
      wks_count := wks_count s - 1\<rparr>)"

inductive_cases wk_stepE: "wk_step conf s s'"

inductive wk_reachable :: "worker_Config \<Rightarrow> wk_state \<Rightarrow> bool" for conf where
  wk_reach_init: "wk_reachable conf wk_init"
| wk_reach_step: "wk_reachable conf s \<Longrightarrow> wk_step conf s s' \<Longrightarrow> wk_reachable conf s'"

section \<open>The count\<close>

lemma take_out_length: "i < length xs \<Longrightarrow> length (take_out i xs) = length xs - 1"
  by (simp add: take_out_def)

lemma take_out_mset: "i < length xs \<Longrightarrow> mset (take_out i xs) + {#xs ! i#} = mset xs"
  using id_take_nth_drop [of i xs]
  by (metis take_out_def add_mset_add_single mset.simps(2) mset_append union_mset_add_mset_right)

definition wk_inv :: "wk_state \<Rightarrow> bool" where
  "wk_inv s \<longleftrightarrow> wks_count s = int (length (wks_active s)) \<and>
     mset (wks_received s) = mset (wks_timers s) + mset (wks_active s) + mset (wks_finished s)"

lemma wk_step_inv: "wk_step conf s s' \<Longrightarrow> wk_inv s \<Longrightarrow> wk_inv s'"
proof (induction rule: wk_step.induct)
  case (step_start i s)
  then show ?case using take_out_mset [of i "wks_timers s"] by (simp add: wk_inv_def)
next
  case (step_end i s)
  then show ?case
    using take_out_mset [of i "wks_active s"] take_out_length [of i "wks_active s"]
    by (simp add: wk_inv_def of_nat_diff)
qed (simp_all add: wk_inv_def)

lemma wk_reachable_inv: "wk_reachable conf s \<Longrightarrow> wk_inv s"
proof (induction rule: wk_reachable.induct)
  case wk_reach_init
  show ?case by (simp add: wk_init_def wk_inv_def)
qed (rule wk_step_inv)

section \<open>Runs as lists of moves\<close>

datatype wk_move = Ask | Schedule "Execution list" | Start_run nat | End_run nat

fun move :: "worker_Config \<Rightarrow> wk_move \<Rightarrow> wk_state \<Rightarrow> wk_state option" where
  "move conf Ask s =
     (let n = wrap64 (wc_MaxJobs conf - wks_count s)
      in if wks_asked s = None \<and> 0 < n then Some (s\<lparr>wks_asked := Some n\<rparr>) else None)"
| "move conf (Schedule exs) s =
     (case wks_asked s of None \<Rightarrow> None
      | Some n \<Rightarrow> if int (length exs) \<le> n
          then Some (s\<lparr>wks_asked := None, wks_timers := wks_timers s @ exs, wks_received := wks_received s @ exs\<rparr>)
          else None)"
| "move conf (Start_run i) s =
     (if i < length (wks_timers s)
      then Some (s\<lparr>wks_timers := take_out i (wks_timers s), wks_active := wks_active s @ [wks_timers s ! i],
        wks_count := wks_count s + 1\<rparr>) else None)"
| "move conf (End_run i) s =
     (if i < length (wks_active s)
      then Some (s\<lparr>wks_active := take_out i (wks_active s), wks_finished := wks_finished s @ [wks_active s ! i],
        wks_count := wks_count s - 1\<rparr>) else None)"

fun moves :: "worker_Config \<Rightarrow> wk_move list \<Rightarrow> wk_state \<Rightarrow> wk_state option" where
  "moves conf [] s = Some s"
| "moves conf (m # ms) s = (case move conf m s of None \<Rightarrow> None | Some s' \<Rightarrow> moves conf ms s')"

lemma move_step: "move conf m s = Some s' \<Longrightarrow> wk_step conf s s'"
  by (cases m) (auto simp: Let_def split: if_splits option.splits intro: wk_step.intros)

lemma moves_reachable: "moves conf ms s = Some s' \<Longrightarrow> wk_reachable conf s \<Longrightarrow> wk_reachable conf s'"
  by (induction conf ms s rule: moves.induct) (auto split: option.splits intro: wk_reach_step move_step)

definition sample_at :: "int \<Rightarrow> Execution" where
  "sample_at n = (sample_run None [])\<lparr>ex_Timestamp := n\<rparr>"

definition sample_max :: "int \<Rightarrow> worker_Config" where
  "sample_max n = \<lparr>wc_ControllerUrl = ''http://c'', wc_Tags = [], wc_SleepSeconds = 15, wc_MaxJobs = n,
     wc_TimeoutSeconds = 3, wc_Syslog = False, wc_SkipVerify = False, wc_CAFile = []\<rparr>"



section \<open>The limit\<close>

text \<open>What a tick asks for fits under the limit at the moment it asks.\<close>

definition within_limit :: "worker_Config \<Rightarrow> bool" where
  "within_limit conf \<longleftrightarrow> 0 < wc_MaxJobs conf \<and> wc_MaxJobs conf < 2 ^ 63"

lemma ask_all: "within_limit conf \<Longrightarrow> wrap64 (wc_MaxJobs conf) = wc_MaxJobs conf"
  by (rule wrap64_id) (simp_all add: within_limit_def)

lemma reach_timers:
  assumes "within_limit conf" "\<forall>b \<in> set bs. int (length b) \<le> wc_MaxJobs conf"
  shows "wk_reachable conf (wk_init\<lparr>wks_timers := concat bs, wks_received := concat bs\<rparr>)"
  using assms(2)
proof (induction bs rule: rev_induct)
  case Nil
  show ?case using wk_reach_init [of conf] by (simp add: wk_init_def)
next
  case (snoc b bs)
  let ?s = "wk_init\<lparr>wks_timers := concat bs, wks_received := concat bs\<rparr>"
  have "moves conf [Ask, Schedule b] ?s =
      Some (wk_init\<lparr>wks_timers := concat (bs @ [b]), wks_received := concat (bs @ [b])\<rparr>)"
    using snoc.prems assms(1) by (simp add: wk_init_def ask_all within_limit_def Let_def)
  from moves_reachable [OF this] snoc show ?case by simp
qed

lemma start_all:
  "wk_reachable conf s \<Longrightarrow> wks_timers s = ts \<Longrightarrow>
   \<exists>s'. wk_reachable conf s' \<and> wks_timers s' = [] \<and> wks_active s' = wks_active s @ ts"
proof (induction ts arbitrary: s)
  case Nil
  then show ?case by auto
next
  case (Cons t ts)
  let ?s = "s\<lparr>wks_timers := ts, wks_active := wks_active s @ [t], wks_count := wks_count s + 1\<rparr>"
  have "move conf (Start_run 0) s = Some ?s" using Cons.prems(2) by (simp add: take_out_def)
  then have "wk_reachable conf ?s" using Cons.prems(1) by (blast intro: wk_reach_step move_step)
  from Cons.IH [OF this] show ?case by simp
qed

text \<open>
  The limit on running jobs does not hold: only running executions are counted, not those
  that wait for their timers, so ticks that come before the timers fire each ask for the full
  number. Any number of full batches can end up running at once.
\<close>

theorem max_jobs_exceeded:
  assumes "within_limit conf" "\<forall>b \<in> set batches. int (length b) = wc_MaxJobs conf"
  shows "\<exists>s. wk_reachable conf s \<and> wks_active s = concat batches \<and>
    int (length (wks_active s)) = int (length batches) * wc_MaxJobs conf"
proof -
  have "wk_reachable conf (wk_init\<lparr>wks_timers := concat batches, wks_received := concat batches\<rparr>)"
    using reach_timers [OF assms(1)] assms(2) by simp
  from start_all [OF this refl] obtain s where s: "wk_reachable conf s" "wks_active s = concat batches"
    by (auto simp: wk_init_def)
  have "int (length (concat batches)) = int (length batches) * wc_MaxJobs conf"
    using assms(2) by (induction batches) (simp_all add: algebra_simps)
  with s show ?thesis by auto
qed

theorem max_jobs_exceeded_witness:
  "\<exists>s. wk_reachable (sample_max 2) s \<and> wks_active s = [sample_at 1, sample_at 2, sample_at 3, sample_at 4]"
  using max_jobs_exceeded [of "sample_max 2" "[[sample_at 1, sample_at 2], [sample_at 3, sample_at 4]]"] by (auto simp: within_limit_def sample_max_def)

end
