(* ===== verification/Controller.thy ===== *)
theory Controller
  imports Git_Script Api
begin

text \<open>
  The controller (config/marshal.go, controller/controller.go): finding and reading the
  configuration, building the stores and the scheduler, and starting to listen. The decoders of
  the four formats are parameters; files, the system log and the network are events of the
  operating system.
\<close>

section \<open>Reading the configuration\<close>

datatype Format = JSONFormat | TOMLFormat | YAMLFormat | HCLFormat

text \<open>A decoder takes the bytes and the configuration it fills in.\<close>

record decoders =
  json_Unmarshal :: "string \<Rightarrow> cfg_Config \<Rightarrow> cfg_Config res"
  toml_Unmarshal :: "string \<Rightarrow> cfg_Config \<Rightarrow> cfg_Config res"
  yaml_Unmarshal :: "string \<Rightarrow> cfg_Config \<Rightarrow> cfg_Config res"
  hcl_Decode :: "string \<Rightarrow> cfg_Config \<Rightarrow> cfg_Config res"

definition newFromJSONBytes :: "decoders \<Rightarrow> string \<Rightarrow> cfg_Config res" where
  "newFromJSONBytes dec bytes = json_Unmarshal dec bytes NewDefault"

definition newFromTOMLBytes :: "decoders \<Rightarrow> string \<Rightarrow> cfg_Config res" where
  "newFromTOMLBytes dec bytes = toml_Unmarshal dec bytes NewDefault"

definition newFromYAMLBytes :: "decoders \<Rightarrow> string \<Rightarrow> cfg_Config res" where
  "newFromYAMLBytes dec bytes = yaml_Unmarshal dec bytes NewDefault"

definition newFromHCLBytes :: "decoders \<Rightarrow> string \<Rightarrow> cfg_Config res" where
  "newFromHCLBytes dec bytes = hcl_Decode dec bytes NewDefault"

definition format_of :: "string \<Rightarrow> Format option" where
  "format_of filename =
     (if HasSuffix filename ''.json'' then Some JSONFormat
      else if HasSuffix filename ''.toml'' then Some TOMLFormat
      else if HasSuffix filename ''.yaml'' then Some YAMLFormat
      else if HasSuffix filename ''.hcl'' then Some HCLFormat
      else None)"

definition NewFromBytes :: "decoders \<Rightarrow> string \<Rightarrow> Format \<Rightarrow> cfg_Config res" where
  "NewFromBytes dec bytes format =
     (case format of
        JSONFormat \<Rightarrow> newFromJSONBytes dec bytes
      | TOMLFormat \<Rightarrow> newFromTOMLBytes dec bytes
      | YAMLFormat \<Rightarrow> newFromYAMLBytes dec bytes
      | HCLFormat \<Rightarrow> newFromHCLBytes dec bytes)"

definition NewFromFile :: "os \<Rightarrow> decoders \<Rightarrow> string \<Rightarrow> cfg_Config act" where
  "NewFromFile os dec filename =
     (case format_of filename of
        None \<Rightarrow> act_err (''Unrecognized file format for config file: '' @ filename)
      | Some format \<Rightarrow>
          act_bind (os_call os (EvReadFile filename)) (\<lambda>a. case an_err a of
            Some err \<Rightarrow> act_err err
          | None \<Rightarrow> act_res (NewFromBytes dec (an_text a) format)))"

fun first_existing :: "os \<Rightarrow> string list \<Rightarrow> string act" where
  "first_existing os [] = act_ok []"
| "first_existing os (f # fs) =
     act_bind (os_call os (EvStat f)) (\<lambda>a. if an_err a = None then act_ok f else first_existing os fs)"

text \<open>The first part of \<open>RunController\<close>: the configuration it runs with.\<close>

definition load_config :: "os \<Rightarrow> decoders \<Rightarrow> string \<Rightarrow> cfg_Config act" where
  "load_config os dec configFilename =
     act_bind
       (if configFilename = []
        then first_existing os [''./fusty.conf.json'', ''./fusty.conf.yaml'', ''./fusty.conf.toml'']
        else act_ok configFilename) (\<lambda>configFilename.
     if configFilename \<noteq> [] then
       act_bind (os_call os (EvStat configFilename)) (\<lambda>a.
       if an_err a \<noteq> None \<and> an_notExist a then act_err (''Cannot find config file: '' @ configFilename)
       else act_wrap (\<lambda>err. ''Unable to read config file '' @ configFilename @ '': '' @ err)
         (NewFromFile os dec configFilename))
     else act_ok NewDefault)"

section \<open>Building\<close>

record Controller =
  co_conf :: cfg_Config
  co_JobStore :: localJobStore
  co_DeviceStore :: localDeviceStore
  co_DataStore :: "cfg_DataStoreGit \<times> gitWorker list"
  co_Scheduler :: schedulerLocal
  co_started :: bool

text \<open>The libraries the controller is built with.\<close>

record libs =
  lb_cron :: cron_lib
  lb_re :: "string \<Rightarrow> string option"
  lb_txt :: text_lib
  lb_clock :: clock

definition new_loggers :: "os \<Rightarrow> cfg_Config \<Rightarrow> unit act" where
  "new_loggers os conf =
     (if c_Syslog conf then
        act_bind (os_do os (EvSyslog ''LOG_ERR'') (\<lambda>err. ''Unable to create syslog: '' @ err)) (\<lambda>_.
        os_do os (EvSyslog ''LOG_INFO'') (\<lambda>err. ''Unable to create syslog: '' @ err))
      else act_ok ())"

definition NewController :: "os \<Rightarrow> libs \<Rightarrow> rng \<Rightarrow> cfg_Config \<Rightarrow> Controller act" where
  "NewController os lb r conf =
     act_bind (new_loggers os conf) (\<lambda>_.
     case c_JobStore conf of None \<Rightarrow> act_err ''Job store configuration not found''
     | Some js \<Rightarrow>
     act_bind (act_res (map_err (\<lambda>err. ''Unable to create job store: '' @ err)
       (NewJobStoreFromConfig (lb_cron lb) (lb_re lb) (at ''jobs'' r) js))) (\<lambda>jobStore.
     case c_DeviceStore conf of None \<Rightarrow> act_err ''Device store configuration not found''
     | Some ds \<Rightarrow>
     act_bind (act_res (map_err (\<lambda>err. ''Unable to create device store: '' @ err)
       (NewDeviceStoreFromConfig (lb_cron lb) (lb_re lb) (at ''devices'' r) ds (AllJobs jobStore)))) (\<lambda>deviceStore.
     case c_DataStore conf of None \<Rightarrow> act_err ''Data store configuration not found''
     | Some dst \<Rightarrow>
     act_bind (act_wrap (\<lambda>err. ''Unable to create data store: '' @ err)
       (NewDataStoreFromConfig os (lb_txt lb) (at ''data'' r) dst)) (\<lambda>dataStore.
     act_ok \<lparr>co_conf = conf, co_JobStore = jobStore, co_DeviceStore = deviceStore, co_DataStore = dataStore,
       co_Scheduler = NewLocalScheduler (at ''scheduler'' r) (lb_clock lb) (AllDevices deviceStore),
       co_started = False\<rparr>))))"

section \<open>Starting\<close>

definition listen_address :: "cfg_Config \<Rightarrow> string" where
  "listen_address conf =
     (if c_Ip conf = [] then ''0.0.0.0'' else c_Ip conf) @ '':'' @ Itoa (if c_Port conf = 0 then 9400 else c_Port conf)"

text \<open>\<open>ListenAndServe\<close> returns only with an error.\<close>

definition listen :: "os \<Rightarrow> string \<Rightarrow> (string \<times> string) option \<Rightarrow> unit act" where
  "listen os addr cert = os_do os (EvListen addr cert) (\<lambda>err. err)"

definition Start :: "os \<Rightarrow> Controller \<Rightarrow> unit act" where
  "Start os c =
     (if co_started c then act_err ''Controller already started''
      else
        let conf = co_conf c in
        if (c_Username conf = []) \<noteq> (c_Password conf = [])
        then act_err ''Username and password must be supplied together''
        else case c_Tls conf of
          None \<Rightarrow> listen os (listen_address conf) None
        | Some tls \<Rightarrow>
            if (ct_CertFile tls = []) \<noteq> (ct_KeyFile tls = [])
            then act_err ''If cert file is present key file must be and vice versa''
            else if ct_CertFile tls \<noteq> []
            then listen os (listen_address conf) (Some (ct_CertFile tls, ct_KeyFile tls))
            else listen os (listen_address conf) None)"

definition RunController :: "os \<Rightarrow> libs \<Rightarrow> rng \<Rightarrow> decoders \<Rightarrow> string \<Rightarrow> unit act" where
  "RunController os lb r dec configFilename =
     act_bind (load_config os dec configFilename) (\<lambda>conf.
     act_bind (act_wrap (\<lambda>err. ''Unable to start controller: '' @ err) (NewController os lb r conf)) (\<lambda>cont.
     act_wrap (\<lambda>err. ''Unable to start controller: '' @ err) (Start os cont)))"

section \<open>What is built\<close>

lemma act_res_Ok: "act_res m h = (Ok a, h') \<longleftrightarrow> m = Ok a \<and> h' = h"
  by (auto simp: act_res_def)

lemma act_wrap_Ok: "act_wrap f m h = (Ok a, h') \<longleftrightarrow> m h = (Ok a, h')"
  by (cases "m h"; cases "fst (m h)") (auto simp: act_wrap_def)

definition conf_scheduler :: "libs \<Rightarrow> rng \<Rightarrow> localDeviceStore \<Rightarrow> schedulerLocal" where
  "conf_scheduler lb r ds = NewLocalScheduler (at ''scheduler'' r) (lb_clock lb) (AllDevices ds)"

lemma NewController_parts:
  assumes "NewController os lb r conf h = (Ok c, h')"
  obtains js ds dst h1 h2 where
    "c_JobStore conf = Some js" "c_DeviceStore conf = Some ds" "c_DataStore conf = Some dst"
    "NewJobStoreFromConfig (lb_cron lb) (lb_re lb) (at ''jobs'' r) js = Ok (co_JobStore c)"
    "NewDeviceStoreFromConfig (lb_cron lb) (lb_re lb) (at ''devices'' r) ds (AllJobs (co_JobStore c)) = Ok (co_DeviceStore c)"
    "NewDataStoreFromConfig os (lb_txt lb) (at ''data'' r) dst h1 = (Ok (co_DataStore c), h2)"
    "co_Scheduler c = conf_scheduler lb r (co_DeviceStore c)" "co_conf c = conf" "\<not> co_started c"
proof -
  obtain js where js: "c_JobStore conf = Some js"
    using assms by (cases "c_JobStore conf") (auto simp: NewController_def act_bind_Ok act_simps)
  obtain ds where ds: "c_DeviceStore conf = Some ds"
    using assms js by (cases "c_DeviceStore conf") (auto simp: NewController_def act_bind_Ok act_simps)
  obtain dst where dst: "c_DataStore conf = Some dst"
    using assms js ds by (cases "c_DataStore conf") (auto simp: NewController_def act_bind_Ok act_simps)
  show thesis
    using assms by (auto simp: NewController_def act_bind_Ok act_simps act_res_Ok act_wrap_Ok go_simps js ds dst
        conf_scheduler_def intro!: that)
qed

end
