(* ===== verification/Controller_Properties.thy ===== *)
theory Controller_Properties
  imports Controller
begin

text \<open>
  The controller as a whole: what a configuration that is accepted gives, when it listens, and
  that its handlers keep working.
\<close>

section \<open>What is scheduled\<close>

lemma heap_names_of:
  assumes "schedulable ds" "valid_rng r"
  shows "set (heap_names (NewLocalScheduler r clk ds)) =
    {(n, k). \<exists>d. map_of ds n = Some d \<and> k \<in> dom (map_of (dev_Jobs d))}"
proof -
  let ?s = "\<lparr>sl_heap = [], sl_byTag = [], sl_ticks = 0\<rparr>"
  have s: "tags_ok ?s" "scheduled ?s" "heap_names ?s = []"
    by (simp_all add: tags_ok_def scheduled_def jobs_of_tag_def heap_names_def)
  have eq: "heap_names (NewLocalScheduler r clk ds) = concat (map (device_names r) (go_range r ds))"
    using foldl_addDeviceJob [OF s(1,2) assms(1) go_range_subset [of r] assms(2), of clk] s(3)
    by (simp add: NewLocalScheduler_def)
  have names: "set (device_names r (n, d)) = {n} \<times> dom (map_of (dev_Jobs d))" for n d
    using go_range_dom [OF valid_rng_at [OF assms(2)], of n "dev_Jobs d"]
    by (auto simp: device_names_def image_iff)
  show ?thesis
  proof (intro set_eqI iffI)
    fix x assume "x \<in> set (heap_names (NewLocalScheduler r clk ds))"
    then obtain n d where "(n, d) \<in> set (go_range r ds)" "x \<in> set (device_names r (n, d))"
      unfolding eq by auto
    then show "x \<in> {(n, k). \<exists>d. map_of ds n = Some d \<and> k \<in> dom (map_of (dev_Jobs d))}"
      using go_range_sound names by fastforce
  next
    fix x assume "x \<in> {(n, k). \<exists>d. map_of ds n = Some d \<and> k \<in> dom (map_of (dev_Jobs d))}"
    then obtain n k d where x: "x = (n, k)" "map_of ds n = Some d" "k \<in> dom (map_of (dev_Jobs d))" by auto
    have "(n, d) \<in> set (go_range r ds)" using x(2) go_range_mem [OF assms(2), of n d ds] by simp
    moreover have "x \<in> set (device_names r (n, d))" using x(1,3) names by simp
    ultimately show "x \<in> set (heap_names (NewLocalScheduler r clk ds))" unfolding eq by auto
  qed
qed

lemma job_store_from_config:
  assumes "NewJobStoreFromConfig lib re r js = Ok st" "valid_rng r"
  shows "job_store_ok lib re st"
proof -
  obtain conf where "newLocalJobStore lib re r (Some conf) = Ok st"
    using assms(1) by (cases "cjs_JobStoreLocal js")
      (auto simp: NewJobStoreFromConfig_def newLocalJobStore_def split: if_splits)
  from new_job_store [OF this assms(2)] show ?thesis by blast
qed

lemma device_store_from_config:
  assumes "NewDeviceStoreFromConfig lib re r ds (AllJobs js) = Ok st" "job_store_ok lib re js" "valid_rng r"
  obtains conf where "cdvs_DeviceStoreLocal ds = Some conf" "device_store_ok lib re st"
    "dom (map_of (AllDevices st)) = dom (map_of (cdl_Devices conf))"
    "\<And>n d. map_of (AllDevices st) n = Some d \<Longrightarrow> dom (map_of (dev_Jobs d)) = configured_jobs conf n"
proof -
  obtain conf where c: "cdvs_DeviceStoreLocal ds = Some conf" "newLocalDeviceStore lib re r (Some conf) (AllJobs js) = Ok st"
    using assms(1) by (cases "cdvs_DeviceStoreLocal ds")
      (auto simp: NewDeviceStoreFromConfig_def newLocalDeviceStore_def split: if_splits)
  from new_device_store [OF c(2) assms(2,3)] c(1) show thesis by (blast intro: that)
qed

lemma git_store_from_config:
  assumes "NewDataStoreFromConfig os txt r dst h = (Ok (gconf, workers), h')"
  shows "git_conf_ok gconf \<and> length workers = nat (cg_PoolSize gconf)"
proof -
  obtain git where "newGitDataStore os txt r git h = (Ok (gconf, workers), h')"
    using assms by (cases "cds_DataStoreGit dst") (auto simp: NewDataStoreFromConfig_def act_simps split: if_splits)
  then obtain h1 where v: "ValidateAndApplyDefaults os txt r git h = (Ok gconf, h1)"
    and w: "workers = map (pool_worker gconf) [0..<nat (cg_PoolSize gconf)]"
    by (auto simp: newGitDataStore_def act_bind_Ok act_simps Let_def)
  from validated_conf [OF v] w show ?thesis by simp
qed


definition sample_libs :: libs where
  "sample_libs = \<lparr>lb_cron = sample_lib, lb_re = sample_re, lb_txt = sample_txt, lb_clock = sample_clock\<rparr>"

definition sample_conf :: cfg_Config where
  "sample_conf = NewDefault\<lparr>c_JobStore := Some \<lparr>cjs_Type = ''local'', cjs_JobStoreLocal = Some sample_stores\<rparr>,
     c_DeviceStore := Some \<lparr>cdvs_Type = ''local'', cdvs_DeviceStoreLocal = Some sample_devices\<rparr>,
     c_DataStore := Some \<lparr>cds_Type = ''git'',
       cds_DataStoreGit = Some (sample_git_conf\<lparr>cg_PoolSize := 2, cg_DataDir := ''/data''\<rparr>)\<rparr>\<rparr>"

lemma sample_controller_built: "\<exists>c h'. NewController sample_os sample_libs (\<lambda>p ks. ks) sample_conf [] = (Ok c, h')"
proof -
  obtain h1 where "newGitDataStore sample_os sample_txt (\<lambda>p ks. ks)
     (sample_git_conf\<lparr>cg_PoolSize := 2, cg_DataDir := ''/data''\<rparr>) [] =
     (Ok (sample_pool_conf, map (pool_worker sample_pool_conf) [0..<2]), h1)"
    using sample_pool by blast
  then show ?thesis
    using sample_device_store
    by (simp add: NewController_def sample_conf_def sample_libs_def NewDefault_def new_loggers_def
        NewJobStoreFromConfig_def NewDeviceStoreFromConfig_def NewDataStoreFromConfig_def sample_store
        act_bind_def act_res_def act_wrap_def act_ok_def AllJobs_def sample_js_def)
qed


section \<open>Starting\<close>

definition no_files :: "os \<Rightarrow> bool" where
  "no_files os \<longleftrightarrow> (\<forall>h f. an_err (os h (EvStat f)) \<noteq> None)"

lemma no_files_stat: "no_files os \<Longrightarrow> (an_err (os h (EvStat f)) = None) = False"
  unfolding no_files_def by blast

lemma first_existing_none: "no_files os \<Longrightarrow> first_existing os fs h = (Ok [], h @ map EvStat fs)"
  by (induction fs arbitrary: h) (simp_all add: act_bind_def ask_def act_ok_def no_files_stat)

text \<open>
  A controller that finds no configuration file does not start: the default configuration
  has no job store.
\<close>

theorem no_configuration_no_controller:
  assumes "no_files os"
  shows "fst (RunController os lb r dec [] h) =
    Err ''Unable to start controller: Job store configuration not found''"
proof -
  have "\<exists>h'. load_config os dec [] h = (Ok NewDefault, h')"
    by (simp add: load_config_def act_bind_def first_existing_none [OF assms] del: first_existing.simps) (simp add: act_ok_def)
  then obtain h' where "load_config os dec [] h = (Ok NewDefault, h')" by blast
  moreover have "NewController os lb r NewDefault h' = (Err ''Job store configuration not found'', h')"
    by (simp add: NewController_def new_loggers_def NewDefault_def act_err_def)
  ultimately show ?thesis by (simp add: RunController_def act_bind_def act_wrap_def)
qed

theorem no_configuration_no_controller_witness:
  "fst (RunController (\<lambda>h ev. \<lparr>an_err = Some ''no such file'', an_notExist = True, an_isDir = False, an_text = [], an_list = []\<rparr>)
     sample_libs (\<lambda>p ks. ks) dec [] []) = Err ''Unable to start controller: Job store configuration not found''"
  by (rule no_configuration_no_controller) (simp add: no_files_def)

text \<open>
  A controller listens exactly when its credentials are both set or both empty and so are
  its certificate and key: then on the configured address, port 9400 of all addresses by
  default, with TLS exactly when a certificate is configured. Otherwise it touches nothing.
\<close>

theorem Start_listens:
  assumes "\<not> co_started c"
  shows "snd (Start os c h) =
    (let conf = co_conf c; tls = (case c_Tls conf of None \<Rightarrow> ([], []) | Some t \<Rightarrow> (ct_CertFile t, ct_KeyFile t)) in
     if (c_Username conf = []) = (c_Password conf = []) \<and> (fst tls = []) = (snd tls = [])
     then h @ [EvListen (listen_address conf) (if fst tls = [] then None else Some tls)]
     else h)"
proof -
  have l: "snd (listen os a cert h) = h @ [EvListen a cert]" for a cert
    by (simp add: listen_def os_do_def act_bind_def ask_def act_ok_def act_err_def split: option.split)
  show ?thesis
    using assms by (auto simp: Start_def act_err_def l Let_def split: option.split)
qed

theorem Start_listens_witness:
  "\<exists>c h'. NewController sample_os sample_libs (\<lambda>p ks. ks) sample_conf [] = (Ok c, h') \<and>
     snd (Start sample_os c h') = h' @ [EvListen ''0.0.0.0:9400'' None]"
proof -
  obtain c h' where c: "NewController sample_os sample_libs (\<lambda>p ks. ks) sample_conf [] = (Ok c, h')"
    using sample_controller_built by blast
  have "co_conf c = sample_conf \<and> \<not> co_started c"
    by (rule NewController_parts [OF c]) simp
  then have conf: "co_conf c = sample_conf" "\<not> co_started c" by simp_all
  have "listen_address sample_conf = ''0.0.0.0:9400''"
  proof -
    have "char_of 57 = CHR ''9''" "char_of 52 = CHR ''4''" "char_of 48 = CHR ''0''"
      by (simp_all add: char_of_def)
    then have "Itoa 9400 = ''9400''" by (simp add: Itoa_def nat_digits.simps digit_char_def)
    then show ?thesis by (simp add: listen_address_def sample_conf_def NewDefault_def)
  qed
  moreover have "c_Username sample_conf = []" "c_Password sample_conf = []" "c_Tls sample_conf = None"
    by (simp_all add: sample_conf_def NewDefault_def)
  ultimately have "snd (Start sample_os c h') = h' @ [EvListen ''0.0.0.0:9400'' None]"
    unfolding Start_listens [OF conf(2)] conf(1) Let_def by (simp only: option.case fst_conv snd_conv simp_thms if_True)
  then show ?thesis using c by blast
qed

section \<open>Serving\<close>

definition serve :: "('s, 'a) web_scheme \<Rightarrow> cfg_Config \<Rightarrow> 's ctl \<Rightarrow> string \<times> request \<Rightarrow> (writer \<times> 's ctl) res" where
  "serve web conf st call =
     (case addApiHandlers web conf (fst call) of
        None \<Rightarrow> Ok (http_Error ''404 page not found'' 404 new_writer, st)
      | Some handler \<Rightarrow> handler (snd call) (new_writer, st))"

definition serve_all :: "('s, 'a) web_scheme \<Rightarrow> cfg_Config \<Rightarrow> 's ctl \<Rightarrow> (string \<times> request) list \<Rightarrow> 's ctl res" where
  "serve_all web conf st calls = foldM (\<lambda>st call. res_bind (serve web conf st call) (\<lambda>p. Ok (snd p))) st calls"

definition bounded_max :: "('s, 'a) web_scheme \<Rightarrow> request \<Rightarrow> bool" where
  "bounded_max web req \<longleftrightarrow> (\<forall>q mx. req_Query req = Some q \<longrightarrow> int_param q ''max'' 15 = Some mx \<longrightarrow>
     0 \<le> mx \<and> mx \<le> web_make_limit web)"

text \<open>\<open>tidy st st'\<close>: a request keeps the scheduler in good shape and drops no stored result.\<close>

definition tidy :: "schedulerLocal ctl \<Rightarrow> schedulerLocal ctl \<Rightarrow> bool" where
  "tidy st st' \<longleftrightarrow> sched_ok (ctl_Scheduler st') \<and>
     (\<exists>js. ctl_Stored st' = ctl_Stored st @ js) \<and> (\<exists>fs. ctl_Failures st' = ctl_Failures st @ fs)"

definition keeps :: "schedulerLocal ctl \<Rightarrow> (writer \<times> schedulerLocal ctl) res \<Rightarrow> bool" where
  "keeps st out \<longleftrightarrow> (\<exists>w st'. out = Ok (w, st') \<and> tidy st st')"

lemma tidy_refl: "sched_ok (ctl_Scheduler st) \<Longrightarrow> tidy st st"
  by (simp add: tidy_def)

lemma keepsI: "tidy st st' \<Longrightarrow> keeps st (Ok (w, st'))"
  by (simp add: keeps_def)

lemma keeps_same: "sched_ok (ctl_Scheduler st) \<Longrightarrow> keeps st (Ok (w, st))"
  by (simp add: keepsI tidy_refl)

lemma apiWorkerNext_keeps:
  assumes "sched_ok (ctl_Scheduler st)" "clock_ok clk" "web_NextExecution web = NextExecution lib clk" "bounded_max web req"
  shows "keeps st (apiWorkerNext web req (w, st))"
proof (cases "\<exists>q seconds mx. req_Method req = ''GET'' \<and> req_Query req = Some q \<and>
    int_param q ''seconds'' 15 = Some seconds \<and> int_param q ''max'' 15 = Some mx")
  case True
  then obtain q seconds mx where q: "req_Method req = ''GET''" "req_Query req = Some q"
    "int_param q ''seconds'' 15 = Some seconds" "int_param q ''max'' 15 = Some mx" by blast
  have mx: "0 \<le> mx" "mx \<le> web_make_limit web" using assms(4) q by (auto simp: bounded_max_def)
  obtain exs s' where c: "collect (NextExecution lib clk) (query_values q ''tag'')
      (time_Add (web_now web) (wrap64 (seconds * second))) (nat mx) (ctl_Scheduler st) = Ok (exs, s')" "sched_ok s'"
    using local_scheduler.collect_total [of "ctl_Scheduler st" clk lib "query_values q ''tag''"] assms(1,2) by blast
  have "apiWorkerNext web req (w, st) = Ok (give_executions web exs w, st\<lparr>ctl_Scheduler := s'\<rparr>)"
    using c(1) q mx assms(3) by (simp add: apiWorkerNext_def Let_def)
  then show ?thesis using c(2) by (simp add: keeps_def tidy_def)
next
  case False
  then show ?thesis
    using keeps_same [OF assms(1)] by (auto simp: apiWorkerNext_def Let_def split: option.split)
qed

lemma apiWorkerComplete_keeps:
  "sched_ok (ctl_Scheduler st) \<Longrightarrow> keeps st (apiWorkerComplete conf req (w, st))"
  unfolding apiWorkerComplete_def Let_def prod.case
  by (auto simp: keeps_def tidy_def split: option.split sum.split)

lemma apiWorkerPing_keeps: "sched_ok (ctl_Scheduler st) \<Longrightarrow> keeps st (apiWorkerPing req (w, st))"
  by (simp add: apiWorkerPing_def keeps_same)

lemma authedWebCall_keeps:
  "(\<And>w. keeps st (handler req (w, st))) \<Longrightarrow> sched_ok (ctl_Scheduler st) \<Longrightarrow>
   keeps st (authedWebCall web conf handler req (w, st))"
  by (simp add: authedWebCall_def keeps_same split: prod.split bool.split)

lemma serve_keeps:
  assumes "sched_ok (ctl_Scheduler st)" "clock_ok clk" "web_NextExecution web = NextExecution lib clk"
    "bounded_max web (snd call)"
  shows "keeps st (serve web conf st call)"
  using apiWorkerNext_keeps [OF assms(1-3)] assms(4)
  by (auto simp: serve_def addApiHandlers_def keeps_same [OF assms(1)]
      intro!: authedWebCall_keeps apiWorkerPing_keeps apiWorkerComplete_keeps assms(1))



end
