(* ===== verification/Main_Cmd.thy ===== *)
theory Main_Cmd
  imports Controller Worker
begin

text \<open>
  The command line (main.go): the flags of the two commands, as Go's flag package reads them,
  and the dispatch. The usage messages are left out, and
  the text of an error for an invalid value is abbreviated.
\<close>

section \<open>Flags\<close>

text \<open>\<open>strconv.ParseBool\<close> and \<open>strconv.ParseInt(s, 0, 64)\<close>, which takes the base from a prefix.\<close>

definition ParseBool :: "string \<Rightarrow> bool option" where
  "ParseBool s =
     (if s \<in> {''1'', ''t'', ''T'', ''true'', ''TRUE'', ''True''} then Some True
      else if s \<in> {''0'', ''f'', ''F'', ''false'', ''FALSE'', ''False''} then Some False
      else None)"

definition digit_value :: "char \<Rightarrow> nat option" where
  "digit_value c =
     (let n = of_char c :: nat in
      if 48 \<le> n \<and> n \<le> 57 then Some (n - 48)
      else if 97 \<le> n \<and> n \<le> 122 then Some (n - 87)
      else if 65 \<le> n \<and> n \<le> 90 then Some (n - 55)
      else None)"

fun base_value :: "nat \<Rightarrow> nat \<Rightarrow> string \<Rightarrow> nat option" where
  "base_value b acc [] = Some acc"
| "base_value b acc (c # cs) =
     (case digit_value c of None \<Rightarrow> None
      | Some d \<Rightarrow> if d < b then base_value b (acc * b + d) cs else None)"

definition base_and_digits :: "string \<Rightarrow> nat \<times> string" where
  "base_and_digits s =
     (case s of
        a # b # rest \<Rightarrow>
          if a = CHR ''0'' \<and> (b = CHR ''x'' \<or> b = CHR ''X'') then (16, rest)
          else if a = CHR ''0'' then (8, b # rest)
          else (10, s)
      | _ \<Rightarrow> (10, s))"

definition ParseInt :: "string \<Rightarrow> int option" where
  "ParseInt s =
     (let neg = (s \<noteq> [] \<and> hd s = CHR ''-'');
          rest = (if s \<noteq> [] \<and> (hd s = CHR ''-'' \<or> hd s = CHR ''+'') then tl s else s);
          bd = base_and_digits rest
      in if snd bd = [] then None
         else case base_value (fst bd) 0 (snd bd) of None \<Rightarrow> None
         | Some n \<Rightarrow> (let v = (if neg then - int n else int n)
                      in if - (2 ^ 63) \<le> v \<and> v < 2 ^ 63 then Some v else None))"

text \<open>
  A flag set: which flags are boolean (\<open>None\<close> for an unknown name), and how a value is set on the
  configuration (\<open>None\<close> if it is invalid).
\<close>

record 'c flag_set =
  fs_is_bool :: "string \<Rightarrow> bool option"
  fs_set :: "string \<Rightarrow> string \<Rightarrow> 'c \<Rightarrow> 'c option"

definition split_value :: "string \<Rightarrow> string \<times> string option" where
  "split_value name =
     (let k = hd name # takeWhile (\<lambda>c. c \<noteq> CHR ''='') (tl name)
      in if length k < length name then (k, Some (drop (length k + 1) name)) else (name, None))"

definition is_flag :: "string \<Rightarrow> bool" where
  "is_flag s \<longleftrightarrow> length s > 1 \<and> hd s = CHR ''-''"

definition flag_name :: "string \<Rightarrow> string" where
  "flag_name s = (if s ! 1 = CHR ''-'' then drop 2 s else drop 1 s)"

definition set_flag :: "('c, 'a) flag_set_scheme \<Rightarrow> string \<Rightarrow> string \<Rightarrow> 'c \<Rightarrow> 'c res" where
  "set_flag fs name v c =
     (case fs_set fs name v c of Some c' \<Rightarrow> Ok c'
      | None \<Rightarrow> Err (''invalid value '' @ v @ '' for flag -'' @ name))"

text \<open>\<open>FlagSet.Parse\<close>: the configuration and the arguments that are left.\<close>

fun parse_flags :: "('c, 'a) flag_set_scheme \<Rightarrow> string list \<Rightarrow> 'c \<Rightarrow> ('c \<times> string list) res" where
  "parse_flags fs [] c = Ok (c, [])"
| "parse_flags fs (s # rest) c =
     (if \<not> is_flag s then Ok (c, s # rest)
      else if s = ''--'' then Ok (c, rest)
      else
        let name = flag_name s in
        if name = [] \<or> hd name = CHR ''-'' \<or> hd name = CHR ''='' then Err (''bad flag syntax: '' @ s)
        else
          let nv = split_value name in
          case fs_is_bool fs (fst nv) of
            None \<Rightarrow>
              if fst nv = ''help'' \<or> fst nv = ''h'' then Err ''flag: help requested''
              else Err (''flag provided but not defined: -'' @ fst nv)
          | Some True \<Rightarrow>
              res_bind (set_flag fs (fst nv) (case snd nv of None \<Rightarrow> ''true'' | Some v \<Rightarrow> v) c) (parse_flags fs rest)
          | Some False \<Rightarrow>
              (case snd nv of
                 Some v \<Rightarrow> res_bind (set_flag fs (fst nv) v c) (parse_flags fs rest)
               | None \<Rightarrow> (case rest of
                   [] \<Rightarrow> Err (''flag needs an argument: -'' @ fst nv)
                 | v # rest' \<Rightarrow> res_bind (set_flag fs (fst nv) v c) (parse_flags fs rest'))))"

section \<open>The commands\<close>

record controller_args =
  ca_config :: string
  ca_verbose :: bool

definition controller_flags :: "controller_args flag_set" where
  "controller_flags =
     \<lparr>fs_is_bool = (\<lambda>n. if n = ''config'' then Some False else if n = ''verbose'' then Some True else None),
      fs_set = (\<lambda>n v c.
        if n = ''config'' then Some (c\<lparr>ca_config := v\<rparr>)
        else map_option (\<lambda>b. c\<lparr>ca_verbose := b\<rparr>) (ParseBool v))\<rparr>"

definition controller_defaults :: controller_args where
  "controller_defaults = \<lparr>ca_config = [], ca_verbose = False\<rparr>"

definition parse_controller :: "string list \<Rightarrow> controller_args res" where
  "parse_controller args =
     res_bind (map_err (\<lambda>err. ''Error parsing arguments: '' @ err) (parse_flags controller_flags args controller_defaults))
       (\<lambda>(c, rest). if rest \<noteq> [] then Err ''Controller only accepts config and/or verbose arguments at most'' else Ok c)"

record worker_args =
  wa_conf :: worker_Config
  wa_verbose :: bool

definition worker_flag_kind :: "string \<Rightarrow> bool option" where
  "worker_flag_kind n =
     (if n \<in> {''controller'', ''tag'', ''sleep'', ''maxjobs'', ''timeout'', ''cafile''} then Some False
      else if n \<in> {''noverify'', ''verbose''} then Some True
      else None)"

text \<open>The value of the flag \<open>-tag\<close>, which can be given many times.\<close>

type_synonym multistring = "string list"

definition multistring_Set :: "multistring \<Rightarrow> string \<Rightarrow> multistring" where
  "multistring_Set m value = m @ [value]"

definition multistring_String :: "multistring \<Rightarrow> string" where
  "multistring_String m = join '', '' m"

definition set_worker_flag :: "string \<Rightarrow> string \<Rightarrow> worker_args \<Rightarrow> worker_args option" where
  "set_worker_flag n v c =
     (let conf = wa_conf c; put = (\<lambda>conf. c\<lparr>wa_conf := conf\<rparr>) in
      if n = ''controller'' then Some (put (conf\<lparr>wc_ControllerUrl := v\<rparr>))
      else if n = ''tag'' then Some (put (conf\<lparr>wc_Tags := multistring_Set (wc_Tags conf) v\<rparr>))
      else if n = ''sleep'' then map_option (\<lambda>i. put (conf\<lparr>wc_SleepSeconds := i\<rparr>)) (ParseInt v)
      else if n = ''maxjobs'' then map_option (\<lambda>i. put (conf\<lparr>wc_MaxJobs := i\<rparr>)) (ParseInt v)
      else if n = ''timeout'' then map_option (\<lambda>i. put (conf\<lparr>wc_TimeoutSeconds := i\<rparr>)) (ParseInt v)
      else if n = ''cafile'' then Some (put (conf\<lparr>wc_CAFile := v\<rparr>))
      else if n = ''noverify'' then map_option (\<lambda>b. put (conf\<lparr>wc_SkipVerify := b\<rparr>)) (ParseBool v)
      else map_option (\<lambda>b. c\<lparr>wa_verbose := b\<rparr>) (ParseBool v))"

definition worker_flags :: "worker_args flag_set" where
  "worker_flags = \<lparr>fs_is_bool = worker_flag_kind, fs_set = set_worker_flag\<rparr>"

definition worker_defaults :: worker_args where
  "worker_defaults = \<lparr>wa_conf = \<lparr>wc_ControllerUrl = ''http://127.0.0.1:9400'', wc_Tags = [], wc_SleepSeconds = 15,
     wc_MaxJobs = 2000, wc_TimeoutSeconds = 3, wc_Syslog = False, wc_SkipVerify = False, wc_CAFile = []\<rparr>,
     wa_verbose = False\<rparr>"

definition parse_worker :: "string list \<Rightarrow> worker_args res" where
  "parse_worker args =
     res_bind (map_err (\<lambda>err. ''Error parsing arguments: '' @ err) (parse_flags worker_flags args worker_defaults))
       (\<lambda>(c, rest). if rest \<noteq> [] then Err (''Unrecognized extra parameter: '' @ hd rest) else Ok c)"

text \<open>What a command line makes the program do: run a controller or a worker, or report an error.\<close>

datatype command = RunsController controller_args | RunsWorker worker_args

definition runHelp :: "string list \<Rightarrow> command res" where
  "runHelp args = Err ''TODO''"

definition Run :: "string \<Rightarrow> string list \<Rightarrow> command res" where
  "Run command args =
     (if command = ''controller'' then res_bind (parse_controller args) (\<lambda>c. Ok (RunsController c))
      else if command = ''worker'' then res_bind (parse_worker args) (\<lambda>c. Ok (RunsWorker c))
      else if command = ''help'' then runHelp args
      else Err (''Unrecognized command: '' @ command))"

text \<open>The arguments of the process, with its own name first.\<close>

definition main :: "string list \<Rightarrow> command res" where
  "main args = (case args of _ # command # rest \<Rightarrow> Run command rest | _ \<Rightarrow> Err ''Command required'')"

section \<open>Properties\<close>

text \<open>A value after a flag of its own is taken whatever it looks like.\<close>

definition flag_args :: "(string \<times> string) list \<Rightarrow> string list" where
  "flag_args kvs = concat (map (\<lambda>(k, v). [''-'' @ k, v]) kvs)"

definition plain_name :: "string \<Rightarrow> bool" where
  "plain_name k \<longleftrightarrow> k \<noteq> [] \<and> hd k \<noteq> CHR ''-'' \<and> CHR ''='' \<notin> set k"

lemma split_value_plain:
  assumes "plain_name k"
  shows "split_value k = (k, None)"
proof -
  obtain a as where k: "k = a # as" "CHR ''='' \<notin> set as" using assms by (cases k) (auto simp: plain_name_def)
  have tw: "takeWhile (\<lambda>c. c \<noteq> CHR ''='') as = as"
    using k(2) by (simp add: takeWhile_eq_all_conv) blast
  show ?thesis by (simp add: split_value_def k(1) tw Let_def)
qed

lemma parse_flags_step:
  assumes "plain_name k" "fs_is_bool fs k = Some False"
  shows "parse_flags fs ((''-'' @ k) # v # rest) c = res_bind (set_flag fs k v c) (parse_flags fs rest)"
proof -
  obtain a as where k: "k = a # as" "a \<noteq> CHR ''-''" "a \<noteq> CHR ''=''" using assms(1) by (cases k) (auto simp: plain_name_def)
  have "flag_name (''-'' @ k) = k" "is_flag (''-'' @ k)" "''-'' @ k \<noteq> ''--''"
    using k by (auto simp: flag_name_def is_flag_def)
  then show ?thesis
    using assms(2) split_value_plain [OF assms(1)] k by (simp add: Let_def)
qed

fun set_all :: "('c, 'a) flag_set_scheme \<Rightarrow> (string \<times> string) list \<Rightarrow> 'c \<Rightarrow> 'c res" where
  "set_all fs [] c = Ok c"
| "set_all fs ((k, v) # kvs) c = res_bind (set_flag fs k v c) (set_all fs kvs)"

lemma parse_flag_args:
  "\<forall>(k, v) \<in> set kvs. plain_name k \<and> fs_is_bool fs k = Some False \<Longrightarrow>
   parse_flags fs (flag_args kvs) c = res_bind (set_all fs kvs c) (\<lambda>c. Ok (c, []))"
proof (induction kvs arbitrary: c)
  case Nil
  then show ?case by (simp add: flag_args_def)
next
  case (Cons kv kvs)
  obtain k v where kv: "kv = (k, v)" by (cases kv)
  have "parse_flags fs (flag_args (kv # kvs)) c = res_bind (set_flag fs k v c) (parse_flags fs (flag_args kvs))"
    using parse_flags_step [of k fs v "flag_args kvs" c] Cons.prems kv by (simp add: flag_args_def del: parse_flags.simps)
  then show ?case using Cons kv by (cases "set_flag fs k v c") simp_all
qed

lemma set_tags:
  "set_all worker_flags (map (Pair ''tag'') ts) c =
     Ok (c\<lparr>wa_conf := (wa_conf c)\<lparr>wc_Tags := wc_Tags (wa_conf c) @ ts\<rparr>\<rparr>)"
  by (induction ts arbitrary: c) (simp_all add: set_flag_def worker_flags_def set_worker_flag_def multistring_Set_def Let_def)

text \<open>
  The tags of a worker are exactly the values of its \<open>-tag\<close> arguments, in order, whatever
  they look like, and everything else keeps its default: the local controller, 15 seconds, 2000
  jobs, 3 seconds.
\<close>

theorem worker_tags:
  "main ([prog, ''worker''] @ flag_args (map (Pair ''tag'') ts)) =
     Ok (RunsWorker (worker_defaults\<lparr>wa_conf := (wa_conf worker_defaults)\<lparr>wc_Tags := ts\<rparr>\<rparr>))"
proof -
  have "\<forall>(k, v) \<in> set (map (Pair ''tag'') ts). plain_name k \<and> fs_is_bool worker_flags k = Some False"
    by (auto simp: plain_name_def worker_flags_def worker_flag_kind_def)
  from parse_flag_args [OF this, of worker_defaults] show ?thesis
    by (simp add: main_def Run_def parse_worker_def set_tags worker_defaults_def)
qed

end
