(* ===== verification/Data_Store_Progress.thy ===== *)
theory Data_Store_Progress
  imports Data_Store_Conc
begin

text \<open>
  When the pool of the data store makes progress: as long as one worker is back at its receive,
  every pending result can still be written. Together with the deadlock of Data_Store_Conc this
  says what the pool depends on.
\<close>

section \<open>The lock\<close>

text \<open>Only the holder of the lock sends from \<open>markJobsCompleted\<close>, so at most one worker does.\<close>

definition one_sender :: "pool \<Rightarrow> bool" where
  "one_sender s \<longleftrightarrow> (\<forall>v < length (p_workers s). \<forall>w < length (p_workers s).
     p_workers s ! v = Sending \<longrightarrow> p_workers s ! w = Sending \<longrightarrow> v = w)"

lemma unlocked_nth: "unlocked s \<Longrightarrow> v < length (p_workers s) \<Longrightarrow> p_workers s ! v \<noteq> Sending"
  unfolding unlocked_def by (metis nth_mem)

lemma one_sender_step:
  assumes "pool_step s s'" "one_sender s"
  shows "one_sender s'"
  using assms(1)
proof (cases rule: pool_step.cases)
  case (step_mark w jobs g e)
  then show ?thesis using unlocked_nth [of s] by (auto simp: one_sender_def nth_list_update)
next
  case (step_next w r jobs g)
  then show ?thesis using unlocked_nth [of s] by (auto simp: one_sender_def nth_list_update after_next_def)
qed (use assms(2) in \<open>auto simp: one_sender_def nth_list_update\<close>)

lemma reachable_one_sender: "reachable n s \<Longrightarrow> one_sender s"
  by (induction rule: reachable.induct) (simp add: newGitDataStore_pool_def one_sender_def, rule one_sender_step)

lemma pass_unlocks:
  assumes "one_sender s" "v < length (p_workers s)" "p_workers s ! v = Sending"
    and "w < length (p_workers s)" "p_workers s ! w = Receiving"
  shows "unlocked (s\<lparr>p_workers := (p_workers s)[v := Receiving, w := TakingNext]\<rparr>)" (is "unlocked ?s")
proof -
  have "p_workers s ! u = Sending \<Longrightarrow> u = v" if "u < length (p_workers s)" for u
    using assms(1-3) that unfolding one_sender_def by blast
  then have "p_workers ?s ! u \<noteq> Sending" if "u < length (p_workers s)" for u
    using that by (cases "u = w"; cases "u = v") auto
  then show ?thesis by (auto simp: unlocked_def in_set_conv_nth)
qed

section \<open>Writing a pending result\<close>

text \<open>A step of the pool itself, not a new call of \<open>Store\<close>.\<close>

definition own_step :: "pool \<Rightarrow> pool \<Rightarrow> bool" where
  "own_step s s' \<longleftrightarrow> pool_step s s' \<and> length (p_callers s') = length (p_callers s)"

definition writes_next :: "pool \<Rightarrow> DataStoreJob \<Rightarrow> bool" where
  "writes_next s j \<longleftrightarrow> (\<exists>s' w jobs. own_step s s' \<and> w < length (p_workers s') \<and>
     p_workers s' ! w = Pushing jobs \<and> j \<in> set jobs)"

lemma taking_writes:
  assumes "pool_ok s" "unlocked s" "w < length (p_workers s)" "p_workers s ! w = TakingNext"
    and "j \<in> set (list_at (gds_pendingWrites (p_store s)) (key j))"
  shows "writes_next s j"
proof -
  obtain jobs g where n: "nextJobs (\<lambda>p ks. ks) (p_store s) = (jobs, g)" by fastforce
  have "queue_ok (gds_pendingWrites (p_store s))" using assms(1) by (simp add: pool_ok_def store_inv_queues)
  from nextJobs_jobs [OF this valid_rng_id, of "key j"] n assms(5) have j: "j \<in> set jobs"
    by (metis filter_is_subset fst_conv subsetD)
  let ?s = "s\<lparr>p_store := g, p_workers := (p_workers s)[w := after_next jobs]\<rparr>"
  have "own_step s ?s" using step_next [OF assms(3,4,2) valid_rng_id n] by (simp add: own_step_def)
  moreover have "p_workers ?s ! w = Pushing jobs" using assms(3) j by (auto simp: after_next_def)
  ultimately show ?thesis
    using assms(3) j unfolding writes_next_def by (intro exI [of _ ?s] exI [of _ w] exI [of _ jobs]) auto
qed

lemma listening_writes:
  assumes "reachable n s" "Receiving \<in> set (p_workers s)"
    and "j \<in> set (list_at (gds_pendingWrites (p_store s)) (key j))"
  shows "\<exists>s1. own_step\<^sup>=\<^sup>= s s1 \<and> writes_next s1 j"
proof -
  have ok: "pool_ok s" using reachable_ok [OF assms(1)] by simp
  obtain w where w: "w < length (p_workers s)" "p_workers s ! w = Receiving"
    using assms(2) by (auto simp: in_set_conv_nth)
  have "gds_pendingWrites (p_store s) \<noteq> []" using assms(3) by (auto simp: list_at_def)
  then have "awake s" by (rule reachable_awake [OF assms(1)])
  then consider "Sending \<in> set (p_workers s)" | "unlocked s" "TakingNext \<in> set (p_workers s)" 
    | "unlocked s" "StoreSending \<in> set (p_callers s)"
    unfolding awake_def unlocked_def by blast
  then show ?thesis
  proof cases
    case 1
    then obtain v where v: "v < length (p_workers s)" "p_workers s ! v = Sending"
      by (auto simp: in_set_conv_nth)
    let ?s = "s\<lparr>p_workers := (p_workers s)[v := Receiving, w := TakingNext]\<rparr>"
    have step: "pool_step s ?s" by (rule step_pass [OF v w])
    have "unlocked ?s" by (rule pass_unlocks [OF reachable_one_sender [OF assms(1)] v w])
    from taking_writes [OF pool_step_ok [OF step ok] this, of w j] w assms(3) have "writes_next ?s j" by simp
    moreover have "own_step s ?s" using step by (simp add: own_step_def)
    ultimately show ?thesis by blast
  next
    case 2
    then obtain v where "v < length (p_workers s)" "p_workers s ! v = TakingNext"
      by (auto simp: in_set_conv_nth)
    from taking_writes [OF ok 2(1) this assms(3)] show ?thesis by blast
  next
    case 3
    then obtain i where i: "i < length (p_callers s)" "p_callers s ! i = StoreSending"
      by (auto simp: in_set_conv_nth)
    let ?s = "s\<lparr>p_callers := (p_callers s)[i := StoreDone], p_workers := (p_workers s)[w := TakingNext]\<rparr>"
    have step: "pool_step s ?s" by (rule step_wake [OF i w])
    have "unlocked ?s" using 3(1) set_update_subset_insert [of "p_workers s" w TakingNext]
      by (auto simp: unlocked_def)
    from taking_writes [OF pool_step_ok [OF step ok] this, of w j] w assms(3) have "writes_next ?s j" by simp
    moreover have "own_step s ?s" using step by (simp add: own_step_def)
    ultimately show ?thesis by blast
  qed
qed

text \<open>
  C29. As long as one worker is back at its receive the pool does not starve: from every
  reachable state in which some worker listens, each pending result can be in the batch of a
  writing worker two steps later, without any new call of \<open>Store\<close>.
\<close>

theorem listening_worker_writes:
  assumes "reachable n s" and "Receiving \<in> set (p_workers s)"
    and "j \<in> set (list_at (gds_pendingWrites (p_store s)) (key j))"
  shows "\<exists>s1 s' w jobs. own_step\<^sup>=\<^sup>= s s1 \<and> own_step s1 s' \<and> w < n \<and> p_workers s' ! w = Pushing jobs \<and> j \<in> set jobs"
proof -
  obtain s1 s' w jobs where s': "own_step\<^sup>=\<^sup>= s s1" "own_step s1 s'" "w < length (p_workers s')"
    "p_workers s' ! w = Pushing jobs" "j \<in> set jobs"
    using listening_writes [OF assms] unfolding writes_next_def by blast
  have "length (p_workers s') = n"
    using s'(1,2) pool_step_size [of s1 s'] pool_step_size [of s s1] reachable_ok [OF assms(1)] by (auto simp: own_step_def)
  then show ?thesis using s' by blast
qed

theorem listening_worker_writes_witness:
  "\<exists>s s1 s' w jobs. reachable 1 s \<and> own_step\<^sup>=\<^sup>= s s1 \<and> own_step s1 s' \<and>
     p_workers s' ! w = Pushing jobs \<and> sample_result ''a'' 60 \<in> set jobs"
proof -
  have "\<exists>s. fire_all [Call (sample_result ''a'' 60), DoStore 0] (newGitDataStore_pool 1) = Some s \<and>
     sample_result ''a'' 60 \<in> set (list_at (gds_pendingWrites (p_store s)) (key (sample_result ''a'' 60))) \<and>
     p_workers s = [Receiving]"
    by (simp add: run_simps list_at_def)
  then obtain s where s: "fire_all [Call (sample_result ''a'' 60), DoStore 0] (newGitDataStore_pool 1) = Some s"
    "sample_result ''a'' 60 \<in> set (list_at (gds_pendingWrites (p_store s)) (key (sample_result ''a'' 60)))"
    "p_workers s = [Receiving]" by blast
  have "Receiving \<in> set (p_workers s)" using s(3) by simp
  from listening_worker_writes [OF run_reachable [OF s(1)] this s(2)] run_reachable [OF s(1)] show ?thesis by blast
qed

end
