(* ===== verification/Git_Failures.thy ===== *)
theory Git_Failures
  imports Git_Script
begin

text \<open>
  What becomes of a batch when git fails: a worker that cannot clean its clone returns without
  an error, and its results are completed like written ones.
\<close>

definition cleaning :: "gitWorker \<Rightarrow> os_event \<Rightarrow> bool" where
  "cleaning g ev \<longleftrightarrow>
     (case ev of
        EvStart d e args \<Rightarrow> d = gw_dir g \<and> (args = [''reset'', ''--hard''] \<or> args = [''pull''])
      | EvWrite p c \<Rightarrow> False
      | EvOpen p \<Rightarrow> False
      | EvMkdirAll p \<Rightarrow> False
      | _ \<Rightarrow> True)"

lemma act_only_clean: "act_only (cleaning g) (clean os r g)"
  unfolding clean_def worker_git_def
  by (intro act_intros act_only_doGitCmd) (simp_all add: cleaning_def)

lemma pushJobs_not_cleaned:
  assumes "fst (clean os r g h) = Err e"
  shows "\<exists>evs. pushJobs os tx r g jobs h = (Ok (), h @ evs) \<and> (\<forall>ev \<in> set evs. cleaning g ev)"
proof -
  obtain evs where evs: "snd (clean os r g h) = h @ evs" "\<forall>ev \<in> set evs. cleaning g ev"
    using act_only_clean [of g os r] unfolding act_only_def by blast
  then have "clean os r g h = (Err e, h @ evs)" using assms by (metis prod.collapse)
  then show ?thesis using evs(2) by (simp add: pushJobs_def act_bind_def act_try_def act_ok_def)
qed

text \<open>An idle store whose pending results are taken and completed is empty.\<close>

lemma completed_store_empty:
  assumes "store_inv st (replicate n [])" "0 < n" "gds_waitingOnRunningWrites st = []" "valid_rng q"
    and "nextJobs q st = (jobs, st1)" "markJobsCompleted st1 jobs = (st2, enqueued)"
  shows "\<not> enqueued \<and> list_at (gds_pendingWrites st2) k = [] \<and> list_at (gds_waitingOnRunningWrites st2) k = [] \<and>
    map_of (gds_runningWriteIds st2) k = None"
proof -
  have w: "0 < length (replicate n ([] :: DataStoreJob list))" "replicate n [] ! 0 = []" using assms(2) by simp_all
  have 1: "store_inv st1 ((replicate n [])[0 := jobs])"
    using nextJobs_inv [OF assms(1) w assms(4)] assms(5) by simp
  have "store_inv st2 (((replicate n [])[0 := jobs])[0 := []])"
    using markJobsCompleted_inv [OF 1, of 0] assms(2,6) by simp
  moreover have "((replicate n [])[0 := jobs])[0 := []] = replicate n ([] :: DataStoreJob list)"
    using assms(2) by (cases n) simp_all
  ultimately have inv: "store_inv st2 (replicate n [])" by simp
  have frame: "gds_pendingWrites st1 = []" "gds_waitingOnRunningWrites st1 = []"
    using nextJobs_frame [of q st] assms(3,5) by simp_all
  then have wait: "waiting_at st1 i = []" for i by (simp add: waiting_at_def)
  have "list_at (gds_pendingWrites st2) k = []"
    using markJobsCompleted_pending [of st1 jobs k] assms(6) frame(1) wait by (simp add: list_at_def)
  moreover have "\<not> enqueued" using markJobsCompleted_flag [of st1 jobs] assms(6) wait by simp
  moreover have "gds_waitingOnRunningWrites st2 = []"
    using markJobsCompleted_frame(1) [of st1 jobs] assms(6) frame(2) by simp
  ultimately show ?thesis
    using store_inv_running [OF inv, of k] by (simp add: list_at_def batch_keys_def)
qed


definition offline :: os where
  "offline h ev = (sample_os h ev)\<lparr>an_err := if ev = EvWait then Some ''exit status 1'' else None\<rparr>"

lemma offline_clean: "\<exists>e. fst (clean offline (\<lambda>p ks. ks) sample_worker []) = Err e"
  by (simp add: clean_def worker_git_def doGitCmd_def cmd_env_def prompt_def os_do_def act_bind_def ask_def act_ok_def
      act_err_def act_wrap_def offline_def sample_os_def sample_worker_def sample_git_conf_def username_def password_def)


end
