(* ===== verification/System.thy ===== *)
theory System
  imports Worker_Api Controller_Properties Data_Store_Progress
begin

text \<open>
  The whole system as one transition system: the controller's web handlers over its scheduler,
  the workers that ask for executions, run them and post the results, and the pool of the data
  store that writes what the handlers store. Every step is made of the operations of the other
  theories; which worker does what, and in which order, is left open. Responses and posts may
  be lost, and workers may die.
\<close>

section \<open>States and steps\<close>

text \<open>
  The executions that workers have received and not finished, and the results they have not
  posted, are kept over all workers.
\<close>

record system =
  sy_ctl :: "schedulerLocal ctl"
  sy_pool :: pool
  sy_running :: "Execution list"
  sy_results :: "exec_result list"

text \<open>The libraries of both ends: the scheduler's, the JSON codec and the worker's.\<close>

record env =
  en_cron :: cron_lib
  en_clock :: clock
  en_Marshal :: "Execution list \<Rightarrow> string + string"
  en_wk :: wk_lib
  en_bytes :: bytes_lib
  en_conf :: cfg_Config

definition web_of :: "env \<Rightarrow> schedulerLocal web \<Rightarrow> bool" where
  "web_of env web \<longleftrightarrow> web_NextExecution web = NextExecution (en_cron env) (en_clock env) \<and>
     web_Marshal web = en_Marshal env"

text \<open>What is marshalled arrives up to the fields that are not sent.\<close>

definition codec :: "env \<Rightarrow> bool" where
  "codec env \<longleftrightarrow> (\<forall>exs body. en_Marshal env exs = Inr body \<longrightarrow> json_Executions (en_wk env) body = Inr (map wire exs))"

text \<open>What a response to \<open>/worker/next\<close> makes a worker schedule.\<close>

definition received :: "env \<Rightarrow> writer \<Rightarrow> worker_Config \<Rightarrow> int \<Rightarrow> Execution list res" where
  "received env w wconf n = fst (nextExecutions (\<lambda>h ev. response_of w) (en_wk env) wconf n [])"

text \<open>A completed post: the results that the handler passes to \<open>DataStore.Store\<close>.\<close>

definition newly_stored :: "'s ctl \<Rightarrow> 's ctl \<Rightarrow> DataStoreJob list" where
  "newly_stored st st' = drop (length (ctl_Stored st)) (ctl_Stored st')"

inductive system_step :: "env \<Rightarrow> system \<Rightarrow> system \<Rightarrow> bool" for env where
  sys_next: "web_of env web \<Longrightarrow> Controller_Properties.serve web (en_conf env) (sy_ctl s) (''/worker/next'', req) = Ok (w, ctl') \<Longrightarrow>
    received env w wconf n = Ok exs \<Longrightarrow>
    system_step env s (s\<lparr>sy_ctl := ctl', sy_running := sy_running s @ exs\<rparr>)"
| sys_next_lost: "web_of env web \<Longrightarrow> Controller_Properties.serve web (en_conf env) (sy_ctl s) (''/worker/next'', req) = Ok (w, ctl') \<Longrightarrow>
    system_step env s (s\<lparr>sy_ctl := ctl'\<rparr>)"
| sys_run: "ex \<in> set (sy_running s) \<Longrightarrow> runExecution net (en_bytes env) ex h = (Ok res, h') \<Longrightarrow>
    system_step env s (s\<lparr>sy_running := remove1 ex (sy_running s), sy_results := sy_results s @ [res]\<rparr>)"
| sys_complete: "res \<in> set (sy_results s) \<Longrightarrow> web_of env web \<Longrightarrow>
    req_Form req (form_limit (en_conf env)) = Some (form_of (result_form res)) \<Longrightarrow>
    Controller_Properties.serve web (en_conf env) (sy_ctl s) (''/worker/complete'', req) = Ok (w, ctl') \<Longrightarrow>
    system_step env s (s\<lparr>sy_ctl := ctl', sy_results := remove1 res (sy_results s),
      sy_pool := (sy_pool s)\<lparr>p_callers := p_callers (sy_pool s) @ map Storing (newly_stored (sy_ctl s) ctl')\<rparr>\<rparr>)"
| sys_pool: "pool_step (sy_pool s) p \<Longrightarrow> length (p_callers p) = length (p_callers (sy_pool s)) \<Longrightarrow>
    system_step env s (s\<lparr>sy_pool := p\<rparr>)"
| sys_worker_dies: "mset exs \<subseteq># mset (sy_running s) \<Longrightarrow> mset rs \<subseteq># mset (sy_results s) \<Longrightarrow>
    system_step env s (s\<lparr>sy_running := exs, sy_results := rs\<rparr>)"

definition system_start :: "schedulerLocal \<Rightarrow> nat \<Rightarrow> system" where
  "system_start sched n = \<lparr>sy_ctl = \<lparr>ctl_Scheduler = sched, ctl_Stored = [], ctl_Failures = []\<rparr>,
     sy_pool = newGitDataStore_pool n, sy_running = [], sy_results = []\<rparr>"

abbreviation system_run :: "env \<Rightarrow> schedulerLocal \<Rightarrow> nat \<Rightarrow> system \<Rightarrow> bool" where
  "system_run env sched n s \<equiv> (system_step env)\<^sup>*\<^sup>* (system_start sched n) s"

section \<open>What the scheduler has handed out\<close>

text \<open>\<open>handed lib s0 s gs\<close>: from \<open>s0\<close> to \<open>s\<close> the scheduler granted \<open>gs\<close>.\<close>

definition handed :: "cron_lib \<Rightarrow> schedulerLocal \<Rightarrow> schedulerLocal \<Rightarrow> (nat \<times> gotime) list \<Rightarrow> bool" where
  "handed lib s0 s gs \<longleftrightarrow> advances s0 s \<and> grants_ok lib s0 gs \<and>
     (\<forall>(i, t) \<in> set gs. t \<le> dj_lastRun (sl_heap s ! i))"

lemma handed_start: "handed lib s0 s0 []"
  by (simp add: handed_def grants_ok_def)

lemma handed_execution_of:
  "handed lib s0 s gs \<Longrightarrow> fst g < length (sl_heap s) \<Longrightarrow> execution_of s g = execution_of s0 g"
  by (simp add: handed_def advances_def execution_of_def)

lemma handed_tick:
  assumes "handed lib s0 s gs" "advances s s'"
  shows "handed lib s0 s' gs"
proof -
  have "t \<le> dj_lastRun (sl_heap s' ! i)" if "(i, t) \<in> set gs" for i t
  proof -
    have "t \<le> dj_lastRun (sl_heap s ! i)" "i < length (sl_heap s)"
      using assms(1) that by (auto simp: handed_def grants_ok_def advances_def)
    then show ?thesis using assms(2) by (auto simp: advances_def)
  qed
  moreover have "advances s0 s'" using assms advances_trans unfolding handed_def by blast
  ultimately show ?thesis using assms(1) by (auto simp: handed_def)
qed

lemma handed_grant:
  assumes "handed lib s0 s gs" "advances s s'" "granted lib clk s s' before g"
  shows "handed lib s0 s' (gs @ [g])"
proof -
  obtain i t where g: "g = (i, t)" by (cases g)
  have a: "i < length (sl_heap s)" "dj_lastRun (sl_heap s ! i) < t" "dj_lastRun (sl_heap s' ! i) = t"
    "\<exists>e u. t = cron_Next lib e u"
    using assms(3) g by (auto simp: granted_def)
  have i0: "i < length (sl_heap s0)" "dj_lastRun (sl_heap s0 ! i) \<le> dj_lastRun (sl_heap s ! i)"
    using assms(1) a(1) by (auto simp: handed_def advances_def)
  have "g \<notin> set gs" using assms(1) a(2) g by (auto simp: handed_def)
  then have "grants_ok lib s0 (gs @ [g])"
    using assms(1) a(2,4) i0 g by (auto simp: handed_def grants_ok_def)
  then show ?thesis
    using handed_tick [OF assms(1,2)] a(3) g by (auto simp: handed_def)
qed

lemma NextExecution_handed:
  assumes "handed lib s0 s gs" "sched_ok s" "clock_ok clk"
    and "NextExecution lib clk s tags before = Ok (found, s')"
  shows "sched_ok s' \<and> (\<exists>gs'. (case found of None \<Rightarrow> [] | Some ex \<Rightarrow> [ex]) = map (execution_of s0) gs' \<and>
    handed lib s0 s' (gs @ gs'))"
proof -
  obtain g where g: "found = map_option (execution_of s) g"
    "attempts lib clk before (tag_ids s (effective_tags tags)) s (g, s')"
    using NextExecution_run [OF assms(2,3), of lib tags before] assms(4) by auto
  note adv = attempts_advances [OF g(2)]
  have "\<exists>gs'. (case found of None \<Rightarrow> [] | Some ex \<Rightarrow> [ex]) = map (execution_of s0) gs' \<and>
    handed lib s0 s' (gs @ gs')"
  proof (cases g)
    case None
    then show ?thesis using g(1) handed_tick [OF assms(1) adv] by (intro exI [of _ "[]"]) simp
  next
    case (Some x)
    then have gr: "granted lib clk s s' before x" using g(2) by (simp add: attempts_def)
    then have "execution_of s x = execution_of s0 x"
      using handed_execution_of [OF assms(1)] by (simp add: granted_def)
    then show ?thesis
      using g(1) Some handed_grant [OF assms(1) adv gr] by (intro exI [of _ "[x]"]) simp
  qed
  then show ?thesis using advances_sched_ok [OF adv assms(2)] by simp
qed

lemma collect_handed:
  assumes "collect (NextExecution lib clk) tags t n s = Ok (exs, s')" "handed lib s0 s gs" "sched_ok s" "clock_ok clk"
  shows "sched_ok s' \<and> (\<exists>gs'. exs = map (execution_of s0) gs' \<and> handed lib s0 s' (gs @ gs'))"
  using assms(1-3)
proof (induction n arbitrary: s exs gs)
  case 0
  then show ?case by auto
next
  case (Suc n)
  obtain found s1 where 1: "NextExecution lib clk s tags t = Ok (found, s1)"
    using Suc.prems(1) by (auto simp: go_simps)
  from NextExecution_handed [OF Suc.prems(2,3) assms(4) 1] obtain gs1 where
    gs1: "sched_ok s1" "(case found of None \<Rightarrow> [] | Some ex \<Rightarrow> [ex]) = map (execution_of s0) gs1"
      "handed lib s0 s1 (gs @ gs1)" by blast
  show ?case
  proof (cases found)
    case None
    then have "exs = [] \<and> s' = s1 \<and> gs1 = []" using Suc.prems(1) 1 gs1(2) by simp
    then show ?thesis using gs1 by (intro conjI exI [of _ "[]"]) simp_all
  next
    case (Some ex)
    then obtain exs1 where c: "collect (NextExecution lib clk) tags t n s1 = Ok (exs1, s')" "exs = ex # exs1"
      using Suc.prems(1) 1 by (auto simp: go_simps)
    from Suc.IH [OF c(1) gs1(3,1)] obtain gs2 where
      "sched_ok s'" "exs1 = map (execution_of s0) gs2" "handed lib s0 s' ((gs @ gs1) @ gs2)" by blast
    moreover have "[ex] = map (execution_of s0) gs1" using gs1(2) Some by simp
    ultimately show ?thesis using c(2) by (intro conjI exI [of _ "gs1 @ gs2"]) auto
  qed
qed


section \<open>Handing out over the web\<close>

lemma apiWorkerNext_cases:
  assumes "apiWorkerNext web req (new_writer, st) = Ok (w, st')"
  shows "st' = st \<and> status w \<in> {400, 405, 500} \<or>
    (\<exists>tags t n exs s'. collect (web_NextExecution web) tags t n (ctl_Scheduler st) = Ok (exs, s') \<and>
       w = give_executions web exs new_writer \<and> st' = st\<lparr>ctl_Scheduler := s'\<rparr>)"
  using assms
  by (auto simp: apiWorkerNext_def Let_def WriteHeader_status http_Error_status go_simps split: if_splits option.splits) blast+

lemma received_Ok:
  assumes "received env w wconf n = Ok exs"
  shows "status w = 204 \<and> exs = [] \<or> status w = 200 \<and> json_Executions (en_wk env) (w_Body w) = Inr exs"
  using assms
  by (auto simp: received_def nextExecutions_def act_bind_def ask_def response_of_def act_ok_def act_err_def
      act_panic_def Let_def split: sum.splits option.splits if_splits)

lemma give_executions_received:
  assumes "codec env" "web_of env web" "received env (give_executions web exs new_writer) wconf n = Ok got"
  shows "got = [] \<or> got = map wire exs"
proof (cases "exs = []")
  case True
  then have "status (give_executions web exs new_writer) = 204" by (simp add: give_executions_def WriteHeader_status)
  then show ?thesis using received_Ok [OF assms(3)] by simp
next
  case False
  show ?thesis
  proof (cases "web_Marshal web exs")
    case (Inl e)
    then show ?thesis using received_Ok [OF assms(3)] give_executions_error [OF Inl False] by simp
  next
    case (Inr body)
    then have "w_Body (give_executions web exs new_writer) = body"
      using False by (simp add: give_executions_def Write_body_def WriteHeader_def Header_Set_def new_writer_def Let_def)
    moreover have "json_Executions (en_wk env) body = Inr (map wire exs)"
      using assms(1,2) Inr by (simp add: codec_def web_of_def)
    ultimately show ?thesis using received_Ok [OF assms(3)] by auto
  qed
qed

text \<open>A request behind the authentication: the handler answers, or the state is kept with 401 or 403.\<close>

lemma serve_authed:
  assumes "addApiHandlers web conf path = Some (authedWebCall web conf handler)"
    and "Controller_Properties.serve web conf st (path, req) = Ok (w, st')"
  shows "handler req (new_writer, st) = Ok (w, st') \<or> st' = st \<and> status w \<in> {401, 403}"
  using assms
  by (auto simp: Controller_Properties.serve_def authedWebCall_def validateWebCall_def WriteHeader_def status_def
      Header_Set_def new_writer_def split: if_splits option.splits)

lemma serve_next:
  assumes "codec env" "web_of env web" "clock_ok (en_clock env)"
    and "Controller_Properties.serve web conf st (''/worker/next'', req) = Ok (w, st')"
    and "handed (en_cron env) s0 (ctl_Scheduler st) gs" "sched_ok (ctl_Scheduler st)"
  shows "sched_ok (ctl_Scheduler st') \<and> ctl_Stored st' = ctl_Stored st \<and>
    (\<exists>gs'. handed (en_cron env) s0 (ctl_Scheduler st') (gs @ gs') \<and>
       (\<forall>wconf n exs. received env w wconf n = Ok exs \<longrightarrow> exs = [] \<or> exs = map (\<lambda>g. wire (execution_of s0 g)) gs'))"
proof -
  have "addApiHandlers web conf ''/worker/next'' = Some (authedWebCall web conf (apiWorkerNext web))"
    by (simp add: addApiHandlers_def)
  from serve_authed [OF this assms(4)] apiWorkerNext_cases [of web req st w st']
  consider (same) "st' = st" "status w \<in> {400, 401, 403, 405, 500}"
    | (given) tags t n exs s' where "collect (web_NextExecution web) tags t n (ctl_Scheduler st) = Ok (exs, s')"
       "w = give_executions web exs new_writer" "st' = st\<lparr>ctl_Scheduler := s'\<rparr>" by blast
  then show ?thesis
  proof cases
    case same
    then have "exs = []" if "received env w wconf n = Ok exs" for wconf n exs
      using received_Ok [OF that] by auto
    then show ?thesis using same(1) assms(5,6) by (intro conjI exI [of _ "[]"]) auto
  next
    case given
    have "collect (NextExecution (en_cron env) (en_clock env)) tags t n (ctl_Scheduler st) = Ok (exs, s')"
      using given(1) assms(2) by (simp add: web_of_def)
    from collect_handed [OF this assms(5,6,3)] obtain gs' where
      gs': "sched_ok s'" "exs = map (execution_of s0) gs'" "handed (en_cron env) s0 s' (gs @ gs')" by blast
    have "got = [] \<or> got = map (\<lambda>g. wire (execution_of s0 g)) gs'" if "received env w wconf n' = Ok got" for wconf n' got
      using give_executions_received [OF assms(1,2), of exs wconf n' got] that given(2) gs'(2) by (simp add: comp_def)
    then show ?thesis using given(3) gs' by (intro conjI exI [of _ gs']) auto
  qed
qed


section \<open>Results\<close>

text \<open>The run a result is of, on the way: in the worker, and in the data store.\<close>

definition res_key :: "exec_result \<Rightarrow> string \<times> string \<times> int" where
  "res_key res = (res_deviceName res, res_jobName res, res_jobTimestamp res)"

definition job_run :: "DataStoreJob \<Rightarrow> string \<times> string \<times> int" where
  "job_run j = (dsj_DeviceName j, dsj_JobName j, Unix (dsj_JobTime j))"

lemma run_key_wire: "run_key (wire ex) = run_key ex"
  by (simp add: run_key_def wire_def wire_job_def)

lemma int64_Unix: "int64 (Unix t)"
  using wrap64_range [of "nanos t div second - unixToInternal"] by (simp add: Unix_def int64_def)

text \<open>A result keeps the names and the time of its execution, and its times are 64 bits.\<close>

definition result_of :: "Execution \<Rightarrow> exec_result \<Rightarrow> bool" where
  "result_of ex res \<longleftrightarrow> res_key res = run_key ex \<and> int64 (res_startTimestamp res) \<and> int64 (res_endTimestamp res)"

lemma finish_result_of:
  "fst (finish net (new_result ex now) out h) = Ok res \<Longrightarrow> result_of ex res"
  unfolding finish_eq by (auto simp: result_of_def res_key_def run_key_def new_result_def int64_Unix)

lemma run_session_result_of:
  assumes "run_session net lib ex (new_result ex now) h = (Ok res, h')"
  shows "result_of ex res"
proof (cases "authenticate net (ex_Device ex) h")
  case (Pair a h1)
  show ?thesis
  proof (cases a)
    case (Ok sess)
    show ?thesis
      by (rule run_session_connected [OF Pair [unfolded Ok] assms]) (rule finish_result_of)
  next
    case (Err e)
    then have "fst (finish net (new_result ex now) ([], Some (''Authentication failed - '' @ e)) h1) = Ok res"
      using assms Pair by (simp add: run_session_def)
    then show ?thesis by (rule finish_result_of)
  next
    case (Panic p)
    then show ?thesis using assms Pair by (simp add: run_session_def)
  qed
qed

lemma runExecution_result_of:
  assumes "runExecution net lib ex h = (Ok res, h')"
  shows "result_of ex res"
proof (cases "newSession (ex_Device ex)")
  case (Ok u)
  then show ?thesis
    using assms run_session_result_of by (simp add: runExecution_def act_bind_def ask_def Let_def)
next
  case (Err e)
  then have "fst (finish net (new_result ex (dv_now (net h EvNow))) ([], Some (''Unable to initiate session - '' @ e)) (h @ [EvNow])) = Ok res"
    using assms by (simp add: runExecution_def act_bind_def ask_def Let_def)
  then show ?thesis by (rule finish_result_of)
next
  case (Panic p)
  then show ?thesis using assms by (simp add: runExecution_def act_bind_def ask_def act_panic_def Let_def)
qed

lemma values_of_form:
  assumes "k \<noteq> ''file''"
  shows "values_of (fm_Value (form_of (result_form res))) k =
    (if k = ''job'' then [res_jobName res] else if k = ''device'' then [res_deviceName res]
     else if k = ''job_timestamp'' then [Itoa (res_jobTimestamp res)]
     else if k = ''start_timestamp'' then [Itoa (res_startTimestamp res)]
     else if k = ''end_timestamp'' then [Itoa (res_endTimestamp res)]
     else if k = ''failure'' then (case res_failure res of None \<Rightarrow> [] | Some f \<Rightarrow> [f]) else [])"
  using assms by (simp add: form_of_def result_form_def values_of_Add Let_def split: option.split)

text \<open>Whatever the handler stores of a result is the result that was sent.\<close>

lemma form_job:
  assumes "int64 (res_jobTimestamp res)" "int64 (res_startTimestamp res)" "int64 (res_endTimestamp res)"
  shows "completed_job (form_of (result_form res)) (res_file res) = reported_job res"
proof -
  have t: "timestampOrZero k (form_of (result_form res)) = time_Unix i"
    if "values_of (fm_Value (form_of (result_form res))) k = [Itoa i]" "int64 i" for k i
    using that Atoi_Itoa [of i] by (simp add: timestampOrZero_def single_values Itoa_not_Nil int64_def Let_def)
  show ?thesis
    using assms by (simp add: completed_job_def reported_job_def single_values values_of_form t split: option.split)
qed

lemma complete_stores:
  assumes "apiWorkerComplete conf req (new_writer, st) = Ok (w, st')"
    and "req_Form req (form_limit conf) = Some (form_of (result_form res))"
    and "int64 (res_jobTimestamp res)" "int64 (res_startTimestamp res)" "int64 (res_endTimestamp res)"
  shows "ctl_Scheduler st' = ctl_Scheduler st \<and>
    (newly_stored st st' = [] \<or> newly_stored st st' = [reported_job res] \<and> dsj_Failure (reported_job res) = [] \<and>
      dsj_Contents (reported_job res) \<noteq> [])"
proof (cases "res_jobName res = []")
  case True
  then have "dsj_JobName (completed_job (form_of (result_form res)) c) = []" for c
    by (simp add: completed_job_def single_values values_of_form)
  then show ?thesis
    using assms(1,2) by (auto simp: apiWorkerComplete_def form_limit_def newly_stored_def Let_def split: if_splits sum.splits)
next
  case False
  have req: "req_Form req (if c_MaxJobBytes conf \<noteq> 0 then c_MaxJobBytes conf else MaxJobBytes) = Some (form_of (result_form res))"
    using assms(2) by (simp add: form_limit_def)
  show ?thesis
    using assms(1)
    unfolding apiWorkerComplete_def prod.case Let_def req option.case read_contents_form [OF False] sum.case
      form_job [OF assms(3-5)]
    by (auto simp: newly_stored_def split: if_splits)
qed


section \<open>The flow of results through the pool\<close>

fun storing_of :: "store_pc \<Rightarrow> DataStoreJob list" where
  "storing_of (Storing j) = [j]"
| "storing_of _ = []"

text \<open>The results passed to \<open>Store\<close>: those whose call has not queued them yet, and those queued.\<close>

definition storing :: "pool \<Rightarrow> DataStoreJob list" where
  "storing p = concat (map storing_of (p_callers p))"

definition given :: "pool \<Rightarrow> DataStoreJob multiset" where
  "given p = mset (storing p) + mset (p_accepted p)"

lemma storing_update:
  assumes "i < length cs"
  shows "mset (concat (map storing_of (cs[i := c]))) + mset (storing_of (cs ! i)) =
    mset (concat (map storing_of cs)) + mset (storing_of c)"
proof -
  have "concat (map storing_of cs) =
      concat (map storing_of (take i cs)) @ storing_of (cs ! i) @ concat (map storing_of (drop (Suc i) cs))"
    by (subst id_take_nth_drop [OF assms]) (simp del: append_take_drop_id)
  then show ?thesis by (simp add: upd_conv_take_nth_drop [OF assms])
qed

lemma pool_step_given:
  assumes "pool_step p p'" "length (p_callers p') = length (p_callers p)"
  shows "given p' = given p"
  using assms(1)
proof (cases rule: pool_step.cases)
  case (step_call job)
  then show ?thesis using assms(2) by simp
next
  case (step_store i job)
  then show ?thesis using storing_update [of i "p_callers p" StoreSending] by (simp add: given_def storing_def)
next
  case (step_wake i w)
  then show ?thesis using storing_update [of i "p_callers p" StoreDone] by (simp add: given_def storing_def)
qed (simp_all add: given_def storing_def)

text \<open>Whatever the pool holds or has written was queued before.\<close>

definition from_accepted :: "pool \<Rightarrow> bool" where
  "from_accepted p \<longleftrightarrow>
     (\<forall>k. set (list_at (gds_pendingWrites (p_store p)) k) \<subseteq> set (p_accepted p)) \<and>
     (\<forall>k. set (list_at (gds_waitingOnRunningWrites (p_store p)) k) \<subseteq> set (p_accepted p)) \<and>
     (\<forall>pc \<in> set (p_workers p). set (batch pc) \<subseteq> set (p_accepted p)) \<and>
     set (p_written p) \<subseteq> set (p_accepted p)"

lemma from_accepted_lists:
  "from_accepted p \<Longrightarrow> set (list_at (gds_pendingWrites (p_store p)) k) \<subseteq> set (p_accepted p)"
  "from_accepted p \<Longrightarrow> set (list_at (gds_waitingOnRunningWrites (p_store p)) k) \<subseteq> set (p_accepted p)"
  unfolding from_accepted_def by blast+

lemma from_accepted_update:
  "from_accepted p \<Longrightarrow> set (batch pc) \<subseteq> set (p_accepted p) \<Longrightarrow>
   \<forall>x \<in> set ((p_workers p)[w := pc]). set (batch x) \<subseteq> set (p_accepted p)"
  using set_update_subset_insert [of "p_workers p" w pc] unfolding from_accepted_def by blast

lemma from_accepted_batch:
  "from_accepted p \<Longrightarrow> w < length (p_workers p) \<Longrightarrow> set (batch (p_workers p ! w)) \<subseteq> set (p_accepted p)"
  by (simp add: from_accepted_def)

lemma pool_step_from_accepted:
  assumes "pool_step p p'" "from_accepted p" "pool_ok p"
  shows "from_accepted p'"
  using assms(1)
proof (cases rule: pool_step.cases)
  case (step_call job)
  then show ?thesis using assms(2) by (simp add: from_accepted_def)
next
  case (step_store i job)
  have "set (list_at (gds_pendingWrites (Store_job (p_store p) job)) k) \<subseteq> insert job (set (p_accepted p))"
    "set (list_at (gds_waitingOnRunningWrites (Store_job (p_store p) job)) k) \<subseteq> insert job (set (p_accepted p))" for k
  proof -
    have "set (list_at (gds_pendingWrites (p_store p)) k) \<subseteq> set (p_accepted p)"
      "set (list_at (gds_waitingOnRunningWrites (p_store p)) k) \<subseteq> set (p_accepted p)"
      by (rule from_accepted_lists [OF assms(2)])+
    then show "set (list_at (gds_pendingWrites (Store_job (p_store p) job)) k) \<subseteq> insert job (set (p_accepted p))"
      "set (list_at (gds_waitingOnRunningWrites (Store_job (p_store p) job)) k) \<subseteq> insert job (set (p_accepted p))"
      using list_at_Store_job [of "p_store p" job k] by (elim disjE; force split: if_splits)+
  qed
  then show ?thesis using step_store assms(2) by (auto simp: from_accepted_def)
next
  case (step_wake i w)
  then show ?thesis
    using assms(2) from_accepted_update [OF assms(2), of TakingNext w] by (simp add: from_accepted_def)
next
  case (step_next w r jobs g)
  have q: "queue_ok (gds_pendingWrites (p_store p))" using assms(3) by (simp add: pool_ok_def store_inv_queues)
  have "j \<in> set (p_accepted p)" if "j \<in> set jobs" for j
  proof -
    have "j \<in> set (filter (\<lambda>i. key i = key j) (fst (nextJobs r (p_store p))))" using that step_next(6) by simp
    then show ?thesis using nextJobs_jobs [OF q step_next(5), of "key j"] assms(2) by (auto simp: from_accepted_def)
  qed
  then have "set (batch (after_next jobs)) \<subseteq> set (p_accepted p)" by auto
  from from_accepted_update [OF assms(2) this, of w] nextJobs_frame [of r "p_store p"] show ?thesis
    using step_next assms(2) by (simp add: from_accepted_def list_at_def)
next
  case (step_push w jobs)
  have "set jobs \<subseteq> set (p_accepted p)" using from_accepted_batch [OF assms(2) step_push(2)] step_push(3) by simp
  then show ?thesis
    using step_push assms(2) from_accepted_update [OF assms(2), of "Marking jobs" w] by (simp add: from_accepted_def)
next
  case (step_mark w jobs g e)
  have "list_at (gds_pendingWrites g) k = list_at (gds_pendingWrites (p_store p)) k @
      concat (replicate (length (filter (\<lambda>j. key j = k) jobs)) (waiting_at (p_store p) k))" for k
    using markJobsCompleted_pending [of "p_store p" jobs k] step_mark(5) by simp
  then have "set (list_at (gds_pendingWrites g) k) \<subseteq>
      set (list_at (gds_pendingWrites (p_store p)) k) \<union> set (list_at (gds_waitingOnRunningWrites (p_store p)) k)" for k
    by (auto simp: waiting_at_list_at)
  then have "set (list_at (gds_pendingWrites g) k) \<subseteq> set (p_accepted p)" for k
    using from_accepted_lists [OF assms(2), of k] by blast
  then show ?thesis
    using step_mark assms(2) markJobsCompleted_frame(1) [of "p_store p" jobs]
      from_accepted_update [OF assms(2), of "after_mark e" w] by (simp add: from_accepted_def)
next
  case (step_pass v w)
  have sub: "set ((p_workers p)[v := Receiving, w := TakingNext]) \<subseteq> {Receiving, TakingNext} \<union> set (p_workers p)"
    using set_update_subset_insert [of "(p_workers p)[v := Receiving]" w TakingNext]
      set_update_subset_insert [of "p_workers p" v Receiving] by blast
  have "set (batch pc) \<subseteq> set (p_accepted p)" if "pc \<in> set ((p_workers p)[v := Receiving, w := TakingNext])" for pc
  proof -
    from sub that have "batch pc = [] \<or> pc \<in> set (p_workers p)" by auto
    then show ?thesis using assms(2) unfolding from_accepted_def by (metis empty_set empty_subsetI)
  qed
  then show ?thesis using step_pass assms(2) by (simp add: from_accepted_def)
qed

section \<open>The invariant\<close>

definition ran :: "env \<Rightarrow> schedulerLocal \<Rightarrow> nat \<times> gotime \<Rightarrow> exec_result \<Rightarrow> bool" where
  "ran env s0 g res \<longleftrightarrow> (\<exists>net h h'. runExecution net (en_bytes env) (execution_of s0 g) h = (Ok res, h'))"

definition stored_of :: "env \<Rightarrow> schedulerLocal \<Rightarrow> nat \<times> gotime \<Rightarrow> DataStoreJob \<Rightarrow> bool" where
  "stored_of env s0 g j \<longleftrightarrow> (\<exists>res. ran env s0 g res \<and> j = reported_job res \<and> dsj_Failure j = [] \<and> dsj_Contents j \<noteq> [])"

text \<open>The runs that are under way or done, each as often as it is there.\<close>

definition runs_of :: "system \<Rightarrow> (string \<times> string \<times> int) multiset" where
  "runs_of s = image_mset run_key (mset (sy_running s)) + image_mset res_key (mset (sy_results s)) +
     image_mset job_run (given (sy_pool s))"

definition traced_to :: "env \<Rightarrow> schedulerLocal \<Rightarrow> (nat \<times> gotime) list \<Rightarrow> system \<Rightarrow> bool" where
  "traced_to env s0 gs s \<longleftrightarrow>
     (\<forall>ex \<in> set (sy_running s). \<exists>g \<in> set gs. ex = wire (execution_of s0 g)) \<and>
     (\<forall>res \<in> set (sy_results s). \<exists>g \<in> set gs. ran env s0 g res) \<and>
     (\<forall>j \<in># given (sy_pool s). \<exists>g \<in> set gs. stored_of env s0 g j) \<and>
     runs_of s \<subseteq># image_mset (\<lambda>g. run_key (execution_of s0 g)) (mset gs)"

definition sys_inv :: "env \<Rightarrow> schedulerLocal \<Rightarrow> system \<Rightarrow> bool" where
  "sys_inv env s0 s \<longleftrightarrow> sched_ok (ctl_Scheduler (sy_ctl s)) \<and> pool_ok (sy_pool s) \<and> from_accepted (sy_pool s) \<and>
     (\<exists>gs. handed (en_cron env) s0 (ctl_Scheduler (sy_ctl s)) gs \<and> traced_to env s0 gs s)"


lemma traced_more: "traced_to env s0 gs s \<Longrightarrow> traced_to env s0 (gs @ gs') s"
  unfolding traced_to_def by (auto intro: subset_mset.order_trans [OF _ mset_subset_eq_add_left])

lemma sys_invD:
  assumes "sys_inv env s0 s"
  obtains gs where "sched_ok (ctl_Scheduler (sy_ctl s))" "pool_ok (sy_pool s)" "from_accepted (sy_pool s)"
    "handed (en_cron env) s0 (ctl_Scheduler (sy_ctl s)) gs" "traced_to env s0 gs s"
  using assms unfolding sys_inv_def by blast

lemma ran_result: "ran env s0 g res \<Longrightarrow> result_of (execution_of s0 g) res"
  unfolding ran_def using runExecution_result_of by blast

lemma ran_int64: "ran env s0 g res \<Longrightarrow> int64 (res_jobTimestamp res)"
  using ran_result [of env s0 g res]
  by (simp add: result_of_def res_key_def run_key_def execution_of_def int64_Unix)

lemma job_run_reported:
  assumes "int64 (res_jobTimestamp res)"
  shows "job_run (reported_job res) = res_key res"
  using assms Unix_time_Unix [of "res_jobTimestamp res"]
  by (simp add: job_run_def reported_job_def res_key_def int64_def)

lemma sys_next_inv:
  assumes "sys_inv env s0 s" "codec env" "clock_ok (en_clock env)" "web_of env web"
    and "Controller_Properties.serve web (en_conf env) (sy_ctl s) (''/worker/next'', req) = Ok (w, ctl')"
    and "exs = [] \<or> received env w wconf n = Ok exs"
  shows "sys_inv env s0 (s\<lparr>sy_ctl := ctl', sy_running := sy_running s @ exs\<rparr>)"
proof (rule sys_invD [OF assms(1)])
  fix gs
  assume s: "sched_ok (ctl_Scheduler (sy_ctl s))" "pool_ok (sy_pool s)" "from_accepted (sy_pool s)"
    "handed (en_cron env) s0 (ctl_Scheduler (sy_ctl s)) gs" "traced_to env s0 gs s"
  from serve_next [OF assms(2,4,3,5) s(4,1)] obtain gs' where
    n: "sched_ok (ctl_Scheduler ctl')" "handed (en_cron env) s0 (ctl_Scheduler ctl') (gs @ gs')"
      "exs = [] \<or> exs = map (\<lambda>g. wire (execution_of s0 g)) gs'"
    using assms(6) by blast
  let ?s = "s\<lparr>sy_ctl := ctl', sy_running := sy_running s @ exs\<rparr>"
  have "runs_of ?s = runs_of s + image_mset run_key (mset exs)" by (simp add: runs_of_def)
  moreover have "image_mset run_key (mset exs) \<subseteq># image_mset (\<lambda>g. run_key (execution_of s0 g)) (mset gs')"
    using n(3) by (auto simp: run_key_wire multiset.map_comp comp_def)
  ultimately have "runs_of ?s \<subseteq># image_mset (\<lambda>g. run_key (execution_of s0 g)) (mset (gs @ gs'))"
    using s(5) by (simp add: traced_to_def subset_mset.add_mono)
  then have "traced_to env s0 (gs @ gs') ?s"
    using traced_more [OF s(5), of gs'] n(3) by (auto simp: traced_to_def)
  then show ?thesis using s(2,3) n(1,2) unfolding sys_inv_def by auto
qed

lemma sys_run_inv:
  assumes "sys_inv env s0 s" "ex \<in> set (sy_running s)" "runExecution net (en_bytes env) ex h = (Ok res, h')"
  shows "sys_inv env s0 (s\<lparr>sy_running := remove1 ex (sy_running s), sy_results := sy_results s @ [res]\<rparr>)"
proof (rule sys_invD [OF assms(1)])
  fix gs
  assume s: "sched_ok (ctl_Scheduler (sy_ctl s))" "pool_ok (sy_pool s)" "from_accepted (sy_pool s)"
    "handed (en_cron env) s0 (ctl_Scheduler (sy_ctl s)) gs" "traced_to env s0 gs s"
  let ?s = "s\<lparr>sy_running := remove1 ex (sy_running s), sy_results := sy_results s @ [res]\<rparr>"
  obtain g where g: "g \<in> set gs" "ex = wire (execution_of s0 g)" using s(5) assms(2) by (auto simp: traced_to_def)
  then have r: "ran env s0 g res" using assms(3) by (auto simp: ran_def runExecution_wire)
  have "res_key res = run_key ex" using ran_result [OF r] g(2) by (simp add: result_of_def run_key_wire)
  then have "runs_of ?s = runs_of s"
    using assms(2) by (simp add: runs_of_def image_mset_Diff)
  moreover have "set (sy_running ?s) \<subseteq> set (sy_running s)" using set_remove1_subset by simp
  ultimately have "traced_to env s0 gs ?s" using s(5) g(1) r by (auto simp: traced_to_def)
  then show ?thesis using s(1-4) unfolding sys_inv_def by auto
qed


lemma serve_complete:
  assumes "Controller_Properties.serve web conf st (''/worker/complete'', req) = Ok (w, st')"
    and "req_Form req (form_limit conf) = Some (form_of (result_form res))"
    and "int64 (res_jobTimestamp res)" "int64 (res_startTimestamp res)" "int64 (res_endTimestamp res)"
  shows "ctl_Scheduler st' = ctl_Scheduler st \<and>
    (newly_stored st st' = [] \<or> newly_stored st st' = [reported_job res] \<and> dsj_Failure (reported_job res) = [] \<and>
      dsj_Contents (reported_job res) \<noteq> [])"
proof -
  have "addApiHandlers web conf ''/worker/complete'' = Some (authedWebCall web conf (apiWorkerComplete conf))"
    by (simp add: addApiHandlers_def)
  from serve_authed [OF this assms(1)] show ?thesis
    using complete_stores [OF _ assms(2-5)] by (auto simp: newly_stored_def)
qed

lemma given_calls:
  "given (p\<lparr>p_callers := p_callers p @ map Storing js\<rparr>) = given p + mset js"
  by (simp add: given_def storing_def comp_def)

lemma sys_complete_inv:
  assumes "sys_inv env s0 s" "res \<in> set (sy_results s)"
    and "req_Form req (form_limit (en_conf env)) = Some (form_of (result_form res))"
    and "Controller_Properties.serve web (en_conf env) (sy_ctl s) (''/worker/complete'', req) = Ok (w, ctl')"
  shows "sys_inv env s0 (s\<lparr>sy_ctl := ctl', sy_results := remove1 res (sy_results s),
      sy_pool := (sy_pool s)\<lparr>p_callers := p_callers (sy_pool s) @ map Storing (newly_stored (sy_ctl s) ctl')\<rparr>\<rparr>)"
    (is "sys_inv env s0 ?s")
proof (rule sys_invD [OF assms(1)])
  fix gs
  assume s: "sched_ok (ctl_Scheduler (sy_ctl s))" "pool_ok (sy_pool s)" "from_accepted (sy_pool s)"
    "handed (en_cron env) s0 (ctl_Scheduler (sy_ctl s)) gs" "traced_to env s0 gs s"
  let ?js = "newly_stored (sy_ctl s) ctl'"
  obtain g where g: "g \<in> set gs" "ran env s0 g res" using s(5) assms(2) by (auto simp: traced_to_def)
  have t: "int64 (res_jobTimestamp res)" "int64 (res_startTimestamp res)" "int64 (res_endTimestamp res)"
    using ran_int64 [OF g(2)] ran_result [OF g(2)] by (simp_all add: result_of_def)
  note c = serve_complete [OF assms(4,3) t]
  have new: "stored_of env s0 g j" if "j \<in> set ?js" for j
    using c that g(2) by (auto simp: stored_of_def)
  have pool: "given (sy_pool ?s) = given (sy_pool s) + mset ?js" by (simp add: given_calls)
  have "image_mset job_run (mset ?js) \<subseteq># {#res_key res#}"
    using c job_run_reported [OF t(1)] by auto
  moreover have "res_key res \<in># image_mset res_key (mset (sy_results s))" using assms(2) by simp
  ultimately have "runs_of ?s \<subseteq># runs_of s"
    using assms(2) pool
    by (auto simp: runs_of_def image_mset_Diff subset_eq_diff_conv dest!: multi_member_split)
  then have "runs_of ?s \<subseteq># image_mset (\<lambda>g. run_key (execution_of s0 g)) (mset gs)"
    using s(5) subset_mset.order_trans unfolding traced_to_def by blast
  moreover have "set (remove1 res (sy_results s)) \<subseteq> set (sy_results s)" by (rule set_remove1_subset)
  ultimately have "traced_to env s0 gs ?s"
    using s(5) pool new g(1) by (auto simp: traced_to_def)
  moreover have "pool_ok (sy_pool ?s)" "from_accepted (sy_pool ?s)"
    using s(2,3) by (simp_all add: pool_ok_def from_accepted_def)
  ultimately show ?thesis using s(1,4) c unfolding sys_inv_def by auto
qed

lemma sys_pool_inv:
  assumes "sys_inv env s0 s" "pool_step (sy_pool s) p" "length (p_callers p) = length (p_callers (sy_pool s))"
  shows "sys_inv env s0 (s\<lparr>sy_pool := p\<rparr>)"
  using assms(1) pool_step_given [OF assms(2,3)] pool_step_from_accepted [OF assms(2)] pool_step_ok [OF assms(2)]
  by (auto simp: sys_inv_def traced_to_def runs_of_def)

lemma sys_dies_inv:
  assumes "sys_inv env s0 s" "mset exs \<subseteq># mset (sy_running s)" "mset rs \<subseteq># mset (sy_results s)"
  shows "sys_inv env s0 (s\<lparr>sy_running := exs, sy_results := rs\<rparr>)"
proof -
  have "runs_of (s\<lparr>sy_running := exs, sy_results := rs\<rparr>) \<subseteq># runs_of s"
    using assms(2,3) by (simp add: runs_of_def subset_mset.add_mono image_mset_subseteq_mono)
  moreover have "set exs \<subseteq> set (sy_running s)" "set rs \<subseteq> set (sy_results s)"
    using assms(2,3) by (metis set_mset_mono set_mset_mset)+
  ultimately show ?thesis
    using assms(1) subset_mset.order_trans unfolding sys_inv_def traced_to_def by fastforce
qed

lemma system_step_inv:
  assumes "system_step env s s'" "sys_inv env s0 s" "codec env" "clock_ok (en_clock env)"
  shows "sys_inv env s0 s'"
  using assms(1)
proof (cases rule: system_step.cases)
  case (sys_next web req w ctl' wconf n exs)
  then show ?thesis using sys_next_inv [OF assms(2-4)] by blast
next
  case (sys_next_lost web req w ctl')
  then show ?thesis using sys_next_inv [OF assms(2-4), of web req w ctl' "[]"] by simp
next
  case (sys_run ex net h res h')
  then show ?thesis using sys_run_inv [OF assms(2)] by blast
next
  case (sys_complete res web req w ctl')
  then show ?thesis using sys_complete_inv [OF assms(2)] by blast
next
  case (sys_pool p)
  then show ?thesis using sys_pool_inv [OF assms(2)] by blast
next
  case (sys_worker_dies exs rs)
  then show ?thesis using sys_dies_inv [OF assms(2)] by blast
qed

lemma system_start_inv: "sched_ok s0 \<Longrightarrow> sys_inv env s0 (system_start s0 n)"
  unfolding sys_inv_def
  by (intro conjI exI [of _ "[]"])
    (simp_all add: system_start_def newGitDataStore_pool_def pool_ok_def from_accepted_def store_inv_empty [unfolded empty_store_def]
      empty_store_def list_at_def handed_start traced_to_def runs_of_def given_def storing_def)

lemma system_run_inv:
  assumes "system_run env s0 n s" "sched_ok s0" "codec env" "clock_ok (en_clock env)"
  shows "sys_inv env s0 s"
  using assms(1)
proof (induction rule: rtranclp_induct)
  case base
  show ?case by (rule system_start_inv [OF assms(2)])
next
  case (step s s')
  then show ?case using system_step_inv assms(3,4) by blast
qed


section \<open>What reaches the repository\<close>

lemma distinct_submset: "distinct ys \<Longrightarrow> mset xs \<subseteq># mset ys \<Longrightarrow> distinct xs"
proof -
  assume ys: "distinct ys" and "mset xs \<subseteq># mset ys"
  then obtain zs where "mset ys = mset (xs @ zs)" by (metis ex_mset mset_append subset_mset.le_iff_add)
  with ys have "distinct (xs @ zs)" by (metis mset_eq_imp_distinct_iff)
  then show ?thesis by simp
qed

text \<open>The objects of a new scheduler are the jobs of its devices.\<close>

definition heap_from :: "Device gomap \<Rightarrow> schedulerLocal \<Rightarrow> bool" where
  "heap_from devices s \<longleftrightarrow> (\<forall>dj \<in> set (sl_heap s). (\<exists>n. (n, dj_Device dj) \<in> set devices) \<and>
     (\<exists>k. (k, dj_Job dj) \<in> set (dev_Jobs (dj_Device dj))))"

lemma foldl_add_one_job_from:
  "heap_from devices s \<Longrightarrow> (n, d) \<in> set devices \<Longrightarrow> set kvs \<subseteq> set (dev_Jobs d) \<Longrightarrow>
   heap_from devices (foldl (add_one_job clk d) s kvs)"
proof (induction kvs arbitrary: s)
  case Nil
  then show ?case by simp
next
  case (Cons kv kvs)
  obtain k j where kv: "kv = (k, j)" "(k, j) \<in> set (dev_Jobs d)" using Cons.prems(3) by (cases kv) auto
  have "heap_from devices (add_one_job clk d s kv)"
    unfolding heap_from_def add_one_job_heap
  proof
    fix dj assume "dj \<in> set (sl_heap s @ [\<lparr>dj_Device = d, dj_Job = snd kv, dj_lastRun = clk (sl_ticks s)\<rparr>])"
    then consider "dj \<in> set (sl_heap s)" | "dj_Device dj = d" "dj_Job dj = j" using kv(1) by auto
    then show "(\<exists>n. (n, dj_Device dj) \<in> set devices) \<and> (\<exists>k. (k, dj_Job dj) \<in> set (dev_Jobs (dj_Device dj)))"
      using Cons.prems(1,2) kv(2) by cases (simp add: heap_from_def, blast)
  qed
  then show ?case using Cons.IH Cons.prems(2,3) by simp
qed

lemma foldl_addDeviceJob_from:
  "heap_from devices s \<Longrightarrow> set kvs \<subseteq> set devices \<Longrightarrow> heap_from devices (foldl (addDeviceJob r clk) s kvs)"
proof (induction kvs arbitrary: s)
  case Nil
  then show ?case by simp
next
  case (Cons kv kvs)
  have "(fst kv, snd kv) \<in> set devices" using Cons.prems(2) by simp
  from foldl_add_one_job_from [OF Cons.prems(1) this go_range_subset]
  have "heap_from devices (addDeviceJob r clk s kv)" by (simp add: addDeviceJob_def)
  then show ?case using Cons.IH Cons.prems(2) by simp
qed

lemma NewLocalScheduler_from: "heap_from devices (NewLocalScheduler r clk devices)"
  unfolding NewLocalScheduler_def
  by (rule foldl_addDeviceJob_from) (simp_all add: heap_from_def go_range_subset)

text \<open>
  \<open>backup_of env devices j\<close>: a result is the report of one run of one of the configured jobs on
  its device, at a time of a schedule, with output that went through the job's scrubbers.
\<close>

definition backup_of :: "env \<Rightarrow> Device gomap \<Rightarrow> DataStoreJob \<Rightarrow> bool" where
  "backup_of env devices j \<longleftrightarrow>
     (\<exists>n d k job e t net h res h'. (n, d) \<in> set devices \<and> (k, job) \<in> set (dev_Jobs d) \<and>
        runExecution net (en_bytes env)
          \<lparr>ex_Device = d, ex_Job = job, ex_Timestamp = Unix (cron_Next (en_cron env) e t)\<rparr> h = (Ok res, h') \<and>
        j = reported_job res \<and> dsj_Failure j = [] \<and> dsj_Contents j \<noteq> [] \<and>
        (job_Scrubbers job \<noteq> [] \<longrightarrow> scrubbed (en_bytes env) job (dsj_Contents j)))"

lemma stored_of_backup:
  assumes "heap_from devices s0" "grants_ok (en_cron env) s0 gs" "g \<in> set gs" "stored_of env s0 g j"
  shows "backup_of env devices j"
proof -
  obtain i t where g: "g = (i, t)" by (cases g)
  have i: "i < length (sl_heap s0)" and "\<exists>e u. t = cron_Next (en_cron env) e u"
    using assms(2,3) g by (auto simp: grants_ok_def)
  then obtain e u where t: "t = cron_Next (en_cron env) e u" by blast
  let ?dj = "sl_heap s0 ! i"
  obtain n k where nk: "(n, dj_Device ?dj) \<in> set devices" "(k, dj_Job ?dj) \<in> set (dev_Jobs (dj_Device ?dj))"
    using assms(1) i unfolding heap_from_def by (metis nth_mem)
  obtain net h res h' where r: "runExecution net (en_bytes env) (execution_of s0 g) h = (Ok res, h')"
    "j = reported_job res" "dsj_Failure j = []" "dsj_Contents j \<noteq> []"
    using assms(4) by (auto simp: stored_of_def ran_def)
  have "execution_of s0 g = \<lparr>ex_Device = dj_Device ?dj, ex_Job = dj_Job ?dj, ex_Timestamp = Unix (cron_Next (en_cron env) e u)\<rparr>"
    by (simp add: execution_of_def g t)
  moreover have "job_Scrubbers (dj_Job ?dj) \<noteq> [] \<longrightarrow> scrubbed (en_bytes env) (dj_Job ?dj) (dsj_Contents j)"
    using runExecution_scrubbed [OF _ r(1)] r(2) by (simp add: execution_of_def g reported_job_def)
  ultimately show ?thesis using nk r unfolding backup_of_def by metis
qed

text \<open>
  C1. Every file the system writes is a backup: in every run of the system, with any number of
  workers, any devices behind them, lost responses and dying workers, the controller accepts
  the result of each scheduled run at most once, and whatever a pool worker has written is the
  accepted report of a run of a configured job on its device, at a time of a schedule, with
  contents that are not empty and have been through the job's scrubbers.
\<close>

theorem system_writes_backups:
  assumes "schedulable devices" and "valid_rng r" and "clock_ok (en_clock env)" and "cron_seconds (en_cron env)"
    and "codec env" and "system_run env (NewLocalScheduler r (en_clock env) devices) n s"
  shows "distinct (map job_run (p_accepted (sy_pool s))) \<and>
    (\<forall>j \<in> set (p_written (sy_pool s)). j \<in> set (p_accepted (sy_pool s)) \<and> backup_of env devices j)"
proof -
  let ?s0 = "NewLocalScheduler r (en_clock env) devices"
  have s0: "sched_ok ?s0" by (rule NewLocalScheduler_ok [OF assms(1,2)])
  have "sys_inv env ?s0 s" by (rule system_run_inv [OF assms(6) s0 assms(5,3)])
  then show ?thesis
  proof (rule sys_invD)
    fix gs
    assume i: "from_accepted (sy_pool s)" "handed (en_cron env) ?s0 (ctl_Scheduler (sy_ctl s)) gs"
      "traced_to env ?s0 gs s"
    have grants: "grants_ok (en_cron env) ?s0 gs" using i(2) by (simp add: handed_def)
    have "distinct (map run_key (map (execution_of ?s0) gs))"
      by (rule grants_distinct_keys [OF grants assms(4)]) (use s0 in \<open>simp add: sched_ok_def\<close>)
    moreover have "mset (map job_run (p_accepted (sy_pool s))) \<subseteq># mset (map run_key (map (execution_of ?s0) gs))"
    proof -
      have "image_mset job_run (mset (p_accepted (sy_pool s))) \<subseteq># runs_of s"
        by (simp add: runs_of_def given_def add.assoc [symmetric])
      then show ?thesis
        using i(3) subset_mset.order_trans by (fastforce simp: traced_to_def comp_def)
    qed
    ultimately have "distinct (map job_run (p_accepted (sy_pool s)))"
      by (rule distinct_submset)
    moreover have "backup_of env devices j" if "j \<in> set (p_accepted (sy_pool s))" for j
    proof -
      have "j \<in># given (sy_pool s)" using that by (simp add: given_def)
      then obtain g where "g \<in> set gs" "stored_of env ?s0 g j" using i(3) by (auto simp: traced_to_def)
      then show ?thesis by (rule stored_of_backup [OF NewLocalScheduler_from grants])
    qed
    ultimately show ?thesis using i(1) by (auto simp: from_accepted_def)
  qed
qed


definition sys_job :: Job where
  "sys_job = (NewDefaultJob ''backup'')\<lparr>job_FileSet := Some sample_two_files,
     job_Schedule := Some \<lparr>originalString = ''0 0 * * * * *'', expr = 13\<rparr>\<rparr>"

definition sys_device :: Device where
  "sys_device = (NewDefaultDevice ''sw1'')\<lparr>dev_DeviceCredentials := Some sample_creds, dev_Jobs := [(''backup'', sys_job)]\<rparr>"

definition sys_exec :: Execution where
  "sys_exec = \<lparr>ex_Device = sys_device, ex_Job = sys_job, ex_Timestamp = 1451606401\<rparr>"

definition sys_env :: env where
  "sys_env = \<lparr>en_cron = sample_cron, en_clock = sample_clock,
     en_Marshal = (\<lambda>exs. if exs = [sys_exec] then Inr ''one'' else Inl ''unsupported''),
     en_wk = sample_wk_lib\<lparr>json_Executions := \<lambda>b. if b = ''one'' then Inr [wire sys_exec] else Inl ''invalid character''\<rparr>,
     en_bytes = sample_bytes_lib False, en_conf = NewDefault\<rparr>"

definition sys_web :: "schedulerLocal web" where
  "sys_web = sample_web\<lparr>web_Marshal := en_Marshal sys_env\<rparr>"

abbreviation sys_fleet :: "Device gomap" where
  "sys_fleet \<equiv> [(''sw1'', sys_device)]"

definition sys_sched :: schedulerLocal where
  "sys_sched = NewLocalScheduler (\<lambda>p ks. ks) sample_clock sys_fleet"

lemma sys_sched_eq:
  "sys_sched = \<lparr>sl_heap = [\<lparr>dj_Device = sys_device, dj_Job = sys_job, dj_lastRun = sample_clock 0\<rparr>],
     sl_byTag = [('''', [0])], sl_ticks = 1\<rparr>"
  by (simp add: sys_sched_def NewLocalScheduler_def go_range_def addDeviceJob_def add_one_job_def
      addDeviceJobToTag_def jobs_of_tag_def sys_device_def NewDefaultDevice_def)

lemma sys_fleet_ok: "schedulable sys_fleet"
  by (simp add: schedulable_def sys_device_def NewDefaultDevice_def sys_job_def NewDefaultJob_def)

lemma sys_codec: "codec sys_env"
  by (auto simp: codec_def sys_env_def)

lemma sys_web_of: "web_of sys_env sys_web"
  by (simp add: web_of_def sys_web_def sample_web_def sys_env_def)

definition sys_sched' :: schedulerLocal where
  "sys_sched' = \<lparr>sl_heap = [\<lparr>dj_Device = sys_device, dj_Job = sys_job, dj_lastRun = GoTime (63587203201 * second)\<rparr>],
     sl_byTag = [('''', [0])], sl_ticks = 2\<rparr>"

lemma sys_job_Schedule: "job_Schedule sys_job = Some \<lparr>originalString = ''0 0 * * * * *'', expr = 13\<rparr>"
  by (simp add: sys_job_def)

lemma sys_next_execution:
  "NextExecution sample_cron sample_clock sys_sched [] (time_Add (sample_clock 2) (wrap64 (15 * second))) = Ok (Some sys_exec, sys_sched')"
  by (simp add: NextExecution_def sys_sched_eq effective_tags_def jobs_of_tag_def nextRun_def sys_job_Schedule Schedule_Next_def
      sample_cron_def sample_lib_def sample_clock_def second_def Let_def IsZero_def zero_time_def execution_of_def sys_exec_def
      Unix_def unixToInternal_def wrap64_def sys_sched'_def time_Add_def)

lemma sys_gives_work:
  "Controller_Properties.serve sys_web NewDefault \<lparr>ctl_Scheduler = sys_sched, ctl_Stored = [], ctl_Failures = []\<rparr>
     (''/worker/next'', sample_get [(''max'', [''1''])]) =
   Ok (give_executions sys_web [sys_exec] new_writer, \<lparr>ctl_Scheduler = sys_sched', ctl_Stored = [], ctl_Failures = []\<rparr>)"
proof -
  have p: "int_param [(''max'', [''1''])] ''max'' 15 = Some 1" "int_param [(''max'', [''1''])] ''seconds'' 15 = Some 15"
    "query_values [(''max'', [''1''])] ''tag'' = []"
    by (simp_all add: int_param_def query_values_def Atoi_def)
  show ?thesis
    using sys_next_execution
    by (simp add: Controller_Properties.serve_def addApiHandlers_def authedWebCall_def validateWebCall_def apiWorkerNext_def
        sample_get_def NewDefault_def p sys_web_def sample_web_def Let_def)
qed

lemma sys_receives: "received sys_env (give_executions sys_web [sys_exec] new_writer) sample_wk_conf 1 = Ok [wire sys_exec]"
proof -
  have "web_Marshal sys_web [sys_exec] = Inr ''one''" by (simp add: sys_web_def sys_env_def)
  from give_executions_status [OF this] show ?thesis
    by (simp add: received_def nextExecutions_def act_bind_def ask_def response_of_def act_ok_def Let_def
        sys_env_def sample_wk_lib_def sample_wk_conf_def)
qed


definition sys_net :: network where
  "sys_net h ev = sample_answer\<lparr>dv_now := sample_clock 5000\<rparr>"

lemma sys_net_simps:
  "dv_err (sys_net h ev) = None" "dv_bytes (sys_net h ev) = ''ok''" "dv_now (sys_net h ev) = sample_clock 5000"
  by (simp_all add: sys_net_def sample_answer_def)

definition sys_output :: string where
  "sys_output = file_bundle 2 0 [(''/a'', ''ok''), (''/b'', ''ok'')]"

definition sys_res :: exec_result where
  "sys_res = \<lparr>res_jobName = ''backup'', res_deviceName = ''sw1'', res_jobTimestamp = 1451606401,
     res_startTimestamp = 1451606405, res_endTimestamp = 1451606405, res_file = sys_output, res_failure = None\<rparr>"

lemma sys_clock_Unix: "Unix (sample_clock 5000) = 1451606405"
  by (simp add: Unix_def sample_clock_def second_def unixToInternal_def wrap64_def)

lemma sys_runs: "\<exists>h'. runExecution sys_net (sample_bytes_lib False) sys_exec [] = (Ok sys_res, h')"
proof -
  have d: "dialable (ex_Device sys_exec)"
    by (simp add: dialable_def has_ssh_def sys_exec_def sys_device_def NewDefaultDevice_def)
  have "\<forall>f \<in> set (fset_Files sample_two_files). fetched (sample_bytes_lib False) (\<lambda>path. ''ok'') f = Ok ((\<lambda>_. ''ok'') (file_Name f))"
    by (simp add: sample_two_files_def fetched_def decompress_def)
  moreover have "serves sys_net (\<lambda>path. ''ok'')" by (simp add: serves_def sys_net_simps)
  ultimately have f: "fst (fetchFile sys_net (sample_bytes_lib False) sess sample_two_files h) = Ok sys_output" for sess h
    using fetchFile_sorted [OF sample_two_sorted(3)] by (simp add: sys_output_def)
  have "fst (runJob sys_net (sample_bytes_lib False) sess (ex_Job sys_exec) h) = Ok (sys_output, None)" for sess h
    using f [of sess h] by (cases "fetchFile sys_net (sample_bytes_lib False) sess sample_two_files h")
      (simp add: runJob_def sys_exec_def sys_job_def)
  then obtain h' where j: "runJob sys_net (sample_bytes_lib False) \<lparr>ss_Host = dev_Host (ex_Device sys_exec)\<rparr> (ex_Job sys_exec)
      ([] @ [EvNow, dial (ex_Device sys_exec)]) = (Ok (sys_output, None), h')"
    by (metis prod.collapse)
  have "scrub_result (sample_bytes_lib False) (ex_Job sys_exec) (sys_output, None) = (sys_output, None)"
    by (simp add: scrub_result_def scrubBytes_def sys_exec_def sys_job_def NewDefaultJob_def)
  then show ?thesis
    using runExecution_connected [OF d sys_net_simps(1) j]
    by (simp add: finish_eq new_result_def sys_net_simps sys_clock_Unix)
      (simp add: sys_res_def sys_exec_def sys_job_def NewDefaultJob_def sys_device_def NewDefaultDevice_def)
qed

lemma sys_completes:
  "\<exists>w. Controller_Properties.serve sys_web NewDefault (\<lparr>ctl_Scheduler = sys_sched', ctl_Stored = [], ctl_Failures = []\<rparr>)
     (''/worker/complete'', sample_post sys_res) =
   Ok (w, \<lparr>ctl_Scheduler = sys_sched', ctl_Stored = [reported_job sys_res], ctl_Failures = []\<rparr>)"
proof -
  have s: "sendable sys_res"
    by (simp add: sendable_def sys_res_def sendable_time_def int64_def unixToInternal_def wrap64_def)
  have "res_file sys_res \<noteq> []" by (simp add: sys_res_def sys_output_def file_section_def)
  then show ?thesis
    using complete_arrives [OF s, of "sample_post sys_res" NewDefault "\<lparr>ctl_Scheduler = sys_sched', ctl_Stored = [], ctl_Failures = []\<rparr>"]
    by (auto simp: Controller_Properties.serve_def addApiHandlers_def authedWebCall_def validateWebCall_def sample_post_def
        NewDefault_def sys_res_def)
qed

fun own_event :: "event \<Rightarrow> bool" where
  "own_event (Call j) = False"
| "own_event _ = True"

lemma fire_own: "fire e p = Some p' \<Longrightarrow> own_event e \<Longrightarrow> length (p_callers p') = length (p_callers p)"
  by (cases e) (auto split: if_splits store_pc.splits worker_pc.splits prod.splits)

lemma system_fires:
  "fire_all es (sy_pool s) = Some p \<Longrightarrow> \<forall>e \<in> set es. own_event e \<Longrightarrow> (system_step env)\<^sup>*\<^sup>* s (s\<lparr>sy_pool := p\<rparr>)"
proof (induction es arbitrary: s)
  case Nil
  then show ?case by (cases s) auto
next
  case (Cons e es)
  then obtain p1 where 1: "fire e (sy_pool s) = Some p1" "fire_all es p1 = Some p"
    by (auto split: option.splits)
  have "system_step env s (s\<lparr>sy_pool := p1\<rparr>)"
    by (rule sys_pool [OF fire_step [OF 1(1)] fire_own [OF 1(1)]]) (use Cons.prems(2) in simp)
  moreover have "(system_step env)\<^sup>*\<^sup>* (s\<lparr>sy_pool := p1\<rparr>) ((s\<lparr>sy_pool := p1\<rparr>)\<lparr>sy_pool := p\<rparr>)"
    by (rule Cons.IH) (use 1(2) Cons.prems(2) in simp_all)
  ultimately show ?case by (simp add: converse_rtranclp_into_rtranclp)
qed

definition sys_reported :: system where
  "sys_reported = \<lparr>sy_ctl = \<lparr>ctl_Scheduler = sys_sched', ctl_Stored = [], ctl_Failures = []\<rparr>,
     sy_pool = newGitDataStore_pool 1, sy_running = [], sy_results = [sys_res]\<rparr>"

lemma sys_env_simps: "en_conf sys_env = NewDefault" "en_bytes sys_env = sample_bytes_lib False"
  "en_cron sys_env = sample_cron" "en_clock sys_env = sample_clock"
  by (simp_all add: sys_env_def)

lemma sys_reported_run: "system_run sys_env sys_sched 1 sys_reported"
proof -
  let ?s1 = "sys_reported\<lparr>sy_running := [wire sys_exec], sy_results := []\<rparr>"
  have 1: "system_step sys_env (system_start sys_sched 1) ?s1"
    using sys_next [OF sys_web_of _ sys_receives, of "system_start sys_sched 1"] sys_gives_work
    by (simp add: system_start_def sys_env_simps sys_reported_def)
  obtain h' where "runExecution sys_net (en_bytes sys_env) (wire sys_exec) [] = (Ok sys_res, h')"
    using sys_runs by (auto simp: sys_env_simps runExecution_wire)
  from sys_run [OF _ this, of ?s1] have "system_step sys_env ?s1 sys_reported" by (simp add: sys_reported_def)
  with 1 show ?thesis by (meson r_into_rtranclp rtranclp.rtrancl_into_rtrancl)
qed

theorem system_writes_backups_witness:
  "\<exists>s. system_run sys_env (NewLocalScheduler (\<lambda>p ks. ks) (en_clock sys_env) sys_fleet) 1 s \<and>
     p_written (sy_pool s) = [reported_job sys_res] \<and> backup_of sys_env sys_fleet (reported_job sys_res)"
proof -
  let ?j = "reported_job sys_res"
  have start: "NewLocalScheduler (\<lambda>p ks. ks) (en_clock sys_env) sys_fleet = sys_sched"
    by (simp add: sys_sched_def sys_env_def)
  let ?s = "sys_reported\<lparr>sy_ctl := \<lparr>ctl_Scheduler = sys_sched', ctl_Stored = [?j], ctl_Failures = []\<rparr>, sy_results := [],
     sy_pool := (newGitDataStore_pool 1)\<lparr>p_callers := [Storing ?j]\<rparr>\<rparr>"
  obtain w where "Controller_Properties.serve sys_web (en_conf sys_env) (sy_ctl sys_reported) (''/worker/complete'', sample_post sys_res) =
      Ok (w, \<lparr>ctl_Scheduler = sys_sched', ctl_Stored = [?j], ctl_Failures = []\<rparr>)"
    using sys_completes by (auto simp: sys_env_simps sys_reported_def)
  from sys_complete [OF _ sys_web_of _ this, of sys_res] have 1: "system_step sys_env sys_reported ?s"
    by (simp add: sample_post_def newly_stored_def newGitDataStore_pool_def sys_reported_def)
  have "\<exists>p. fire_all [DoStore 0, Wake 0 0, Next 0, Push 0] (sy_pool ?s) = Some p \<and> p_written p = [?j]"
    by (simp add: run_simps)
  then obtain p where p: "fire_all [DoStore 0, Wake 0 0, Next 0, Push 0] (sy_pool ?s) = Some p" "p_written p = [?j]" by blast
  have "(system_step sys_env)\<^sup>*\<^sup>* ?s (?s\<lparr>sy_pool := p\<rparr>)"
    by (rule system_fires [OF p(1)]) simp
  then have run: "system_run sys_env sys_sched 1 (?s\<lparr>sy_pool := p\<rparr>)"
    using 1 sys_reported_run by (meson converse_rtranclp_into_rtranclp rtranclp_trans)
  have c: "clock_ok (en_clock sys_env)" "cron_seconds (en_cron sys_env)"
    using sample_clock_ok sample_cron_seconds by (simp_all add: sys_env_def)
  from system_writes_backups [OF sys_fleet_ok valid_rng_id c sys_codec, of 1] run p(2) show ?thesis
    unfolding start by (intro exI [of _ "?s\<lparr>sy_pool := p\<rparr>"]) auto
qed

end
