(* ===== verification/System_Delivery.thy ===== *)
theory System_Delivery
  imports System
begin

text \<open>
  The other half of System: a result that a worker reports can get into the repository, as long
  as a pool worker listens and git does its part.
\<close>

section \<open>Steps of the pool in the system\<close>

lemma sys_own: "own_step (sy_pool s) p \<Longrightarrow> system_step env s (s\<lparr>sy_pool := p\<rparr>)"
  unfolding own_step_def by (rule sys_pool) simp_all

lemma sys_owns: "own_step\<^sup>*\<^sup>* (sy_pool s) p \<Longrightarrow> (system_step env)\<^sup>*\<^sup>* s (s\<lparr>sy_pool := p\<rparr>)"
proof (induction rule: rtranclp_induct)
  case base
  then show ?case by simp
next
  case (step p q)
  have "system_step env (s\<lparr>sy_pool := p\<rparr>) ((s\<lparr>sy_pool := p\<rparr>)\<lparr>sy_pool := q\<rparr>)"
    by (rule sys_own) (simp add: step.hyps(2))
  then show ?case using step.IH by (simp add: rtranclp.rtrancl_into_rtrancl)
qed

lemma reachable_calls: "reachable n p \<Longrightarrow> reachable n (p\<lparr>p_callers := p_callers p @ map Storing js\<rparr>)"
proof (induction js arbitrary: p)
  case Nil
  then show ?case by simp
next
  case (Cons j js)
  from Cons.IH [OF reach_step [OF Cons.prems step_call [of p j]]] show ?case by simp
qed

lemma reachable_own: "own_step\<^sup>*\<^sup>* p q \<Longrightarrow> reachable n p \<Longrightarrow> reachable n q"
  by (induction rule: rtranclp_induct) (auto simp: own_step_def intro: reach_step)

lemma system_pool_reachable: "system_run env s0 n s \<Longrightarrow> reachable n (sy_pool s)"
proof (induction rule: rtranclp_induct)
  case base
  then show ?case by (simp add: system_start_def reach_init)
next
  case (step s s')
  from step.hyps(2) show ?case
    by cases (use step.IH reachable_calls in \<open>auto intro: reach_step\<close>)
qed

section \<open>A call of Store\<close>

lemma call_stores:
  assumes "i < length (p_callers p)" "p_callers p ! i = Storing j" "unlocked p"
    and "map_of (gds_runningWriteIds (p_store p)) (key j) = None"
  shows "\<exists>p'. own_step p p' \<and> p_workers p' = p_workers p \<and>
    j \<in> set (list_at (gds_pendingWrites (p_store p')) (key j))"
proof -
  let ?p = "p\<lparr>p_store := Store_job (p_store p) j, p_callers := (p_callers p)[i := StoreSending],
      p_accepted := p_accepted p @ [j]\<rparr>"
  have "own_step p ?p" using step_store [OF assms(1-3)] by (simp add: own_step_def)
  moreover have "j \<in> set (list_at (gds_pendingWrites (p_store ?p)) (key j))"
    using assms(4) by (simp add: Store_job_def list_at_append)
  ultimately show ?thesis by (intro exI [of _ ?p]) simp
qed

lemma call_gets_pending:
  assumes "reachable n p" "Receiving \<in> set (p_workers p)" "i < length (p_callers p)" "p_callers p ! i = Storing j"
    and "map_of (gds_runningWriteIds (p_store p)) (key j) = None"
  shows "\<exists>p'. own_step\<^sup>*\<^sup>* p p' \<and> Receiving \<in> set (p_workers p') \<and>
    j \<in> set (list_at (gds_pendingWrites (p_store p')) (key j))"
proof (cases "unlocked p")
  case True
  from call_stores [OF assms(3,4) True assms(5)] assms(2) show ?thesis by (metis r_into_rtranclp)
next
  case False
  obtain v where v: "v < length (p_workers p)" "p_workers p ! v = Sending"
    using False by (auto simp: unlocked_def in_set_conv_nth)
  obtain w where w: "w < length (p_workers p)" "p_workers p ! w = Receiving"
    using assms(2) by (auto simp: in_set_conv_nth)
  let ?p = "p\<lparr>p_workers := (p_workers p)[v := Receiving, w := TakingNext]\<rparr>"
  have step: "own_step p ?p" using step_pass [OF v w] by (simp add: own_step_def)
  have "v \<noteq> w" using v(2) w(2) by auto
  then have "p_workers ?p ! v = Receiving" using v(1) by simp
  then have rec: "Receiving \<in> set (p_workers ?p)" using v(1) by (auto simp: in_set_conv_nth intro!: exI [of _ v])
  have "unlocked ?p" by (rule pass_unlocks [OF reachable_one_sender [OF assms(1)] v w])
  from call_stores [OF _ _ this, of i j] assms(3-5) obtain p' where
    "own_step ?p p'" "p_workers p' = p_workers ?p" and "j \<in> set (list_at (gds_pendingWrites (p_store p')) (key j))" by auto
  moreover from this have "own_step\<^sup>*\<^sup>* p p'" using step by (blast intro: converse_rtranclp_into_rtranclp r_into_rtranclp)
  ultimately show ?thesis using rec by auto
qed

lemma call_gets_written:
  assumes "reachable n p" "Receiving \<in> set (p_workers p)" "i < length (p_callers p)" "p_callers p ! i = Storing j"
    and "map_of (gds_runningWriteIds (p_store p)) (key j) = None"
  shows "\<exists>p' w jobs. own_step\<^sup>*\<^sup>* p p' \<and> w < length (p_workers p') \<and> p_workers p' ! w = Pushing jobs \<and> j \<in> set jobs"
proof -
  obtain q where q: "own_step\<^sup>*\<^sup>* p q" "Receiving \<in> set (p_workers q)"
    "j \<in> set (list_at (gds_pendingWrites (p_store q)) (key j))"
    using call_gets_pending [OF assms] by blast
  obtain q1 q2 w jobs where "own_step\<^sup>=\<^sup>= q q1" "own_step q1 q2" "w < length (p_workers q2)" "p_workers q2 ! w = Pushing jobs" "j \<in> set jobs"
    using listening_writes [OF reachable_own [OF q(1) assms(1)] q(2,3)] unfolding writes_next_def by blast
  moreover from this have "own_step\<^sup>*\<^sup>* q q2" by (auto intro: rtranclp.rtrancl_into_rtrancl)
  ultimately show ?thesis using rtranclp_trans [OF q(1)] by blast
qed


section \<open>From a worker to the repository\<close>

lemma serve_complete_authorized:
  "authorized (web_BasicAuth web) conf req \<Longrightarrow>
   Controller_Properties.serve web conf st (''/worker/complete'', req) = apiWorkerComplete conf req (new_writer, st)"
  by (auto simp: Controller_Properties.serve_def addApiHandlers_def authedWebCall_def validateWebCall_def authorized_def)

text \<open>What a pool worker does with a batch when git does its part, seen from one result of it.\<close>

definition backed_up :: "text_lib \<Rightarrow> gitWorker \<Rightarrow> DataStoreJob \<Rightarrow> effect list \<Rightarrow> bool" where
  "backed_up tx g j xs \<longleftrightarrow>
     (\<forall>st \<in> set (cg_Structure (gw_conf g)).
        File (path_Join [gw_dir g, the (structure_path st j)]) (dsj_Contents j) \<in> set xs) \<and>
     Git (gw_dir g) ([''commit'', ''--allow-empty'', ''-m'', commit_message tx j] @ author_args (gw_conf g)) \<in> set xs \<and>
     last xs = Git (gw_dir g) [''push'']"

lemma batch_backed_up:
  assumes "os_fine os" "git_conf_ok (gw_conf g)" "j \<in> set jobs" "dsj_Contents j \<noteq> []"
  shows "\<exists>h' xs. pushJobs os tx r g jobs h = (Ok (), h') \<and> effects h' = effects h @ xs \<and> backed_up tx g j xs"
proof -
  let ?xs = "[Git (gw_dir g) [''reset'', ''--hard''], Git (gw_dir g) [''pull'']] @
      concat (map (commit_script tx g) jobs) @ [Git (gw_dir g) [''push'']]"
  have "set (commit_script tx g j) \<subseteq> set ?xs" using assms(3) by auto
  moreover have "File (path_Join [gw_dir g, the (structure_path st j)]) (dsj_Contents j) \<in> set (commit_script tx g j)"
    if "st \<in> set (cg_Structure (gw_conf g))" for st
    using that assms(4) by (simp add: commit_script_def write_script_def)
  moreover have "Git (gw_dir g) ([''commit'', ''--allow-empty'', ''-m'', commit_message tx j] @ author_args (gw_conf g)) \<in>
      set (commit_script tx g j)" by (simp add: commit_script_def)
  ultimately have "backed_up tx g j ?xs" unfolding backed_up_def by auto
  then show ?thesis using pushJobs_effects [OF assms(1,2), of tx r jobs h] by blast
qed



end
