(* ===== verification/Test_Harness.thy ===== *)
theory Test_Harness
  imports Main_Cmd
begin

text \<open>
  The harness of the integration tests (integration/util.go): the configuration the tests start
  from, the command lines they run, and what they check. Everything a test does outside is an
  event of type \<open>test_event\<close> with an answer from a parameter. A failed assertion of the goconvey
  package ends a test; here it is a panic. Log lines and the mutex of a command, whose critical
  sections are single calls, are left out.
\<close>

section \<open>Events\<close>

text \<open>The lines of a background process are logged behind the prefix of its writer.\<close>

record stdoutWriter =
  sw_prefix :: string

datatype test_event =
    TempDir string string
  | TempFile string string
  | WriteTo string string
  | CloseFile string
  | RenameFile string string
  | MakeDirs string
  | RemoveTree string
  | RemoveFile string
  | ReadBytes string
  | CombinedOutput string "string list"
  | InBackground stdoutWriter "string list"
  | OnReset
  | Streamed
  | State
  | KillProcess
  | SleepSecond
  | GetUrl string
  | RunTests
  | Exit int

text \<open>\<open>State\<close> reads the process and its state: whether they are set, and what they say.\<close>

record test_answer =
  ta_err :: "string option"
  ta_text :: string
  ta_status :: int
  ta_hasProcess :: bool
  ta_hasState :: bool
  ta_exited :: bool
  ta_success :: bool

type_synonym test_env = "test_event list \<Rightarrow> test_event \<Rightarrow> test_answer"

type_synonym 'a test = "(test_event, 'a) action"

text \<open>\<open>So(b, ShouldBeTrue)\<close> and its relatives.\<close>

definition So :: "bool \<Rightarrow> unit test" where
  "So b = (if b then act_ok () else act_panic ''assertion failed'')"

text \<open>A call after which the error must be nil.\<close>

definition must :: "test_env \<Rightarrow> test_event \<Rightarrow> test_answer test" where
  "must te ev = act_bind (ask te ev) (\<lambda>a. act_bind (So (ta_err a = None)) (\<lambda>_. act_ok a))"

section \<open>Setting up\<close>

record test_globals =
  baseDirectory :: string
  globalTempDirectory :: string
  coverageEnabled :: bool

text \<open>\<open>init\<close>: \<open>filename\<close> is the path of the caller, \<open>args\<close> are the arguments of the process.\<close>

definition init :: "test_env \<Rightarrow> string \<Rightarrow> string list \<Rightarrow> test_globals test" where
  "init te filename args =
     act_bind (ask te (TempDir [] ''fusty-test'')) (\<lambda>a. case ta_err a of
       Some err \<Rightarrow> act_panic err
     | None \<Rightarrow> act_ok \<lparr>baseDirectory = path_Join [Clean (path_dir filename), ''..''],
         globalTempDirectory = ta_text a,
         coverageEnabled = (\<exists>arg \<in> set args. HasPrefix arg ''-test.coverprofile='')\<rparr>)"

definition tearDown :: "test_env \<Rightarrow> test_globals \<Rightarrow> unit test" where
  "tearDown te gl = act_bind (ask te (RemoveTree (globalTempDirectory gl))) (\<lambda>_. act_ok ())"

definition TestMain :: "test_env \<Rightarrow> test_globals \<Rightarrow> unit test" where
  "TestMain te gl =
     act_bind (ask te RunTests) (\<lambda>res.
     act_bind (tearDown te gl) (\<lambda>_.
     act_bind (ask te (Exit (ta_status res))) (\<lambda>_. act_ok ())))"

record test_context =
  tempDirectory :: string
  gitRepoDirectory :: string
  gitPullDataDirectory :: string
  ctx_verbose :: bool

definition newContext :: "test_env \<Rightarrow> test_globals \<Rightarrow> test_context test" where
  "newContext te gl =
     act_bind (must te (TempDir (globalTempDirectory gl) ''fusty-test'')) (\<lambda>tmp.
     act_bind (must te (TempDir (ta_text tmp) ''git-repo-temp'')) (\<lambda>repo.
     act_bind (must te (TempDir (ta_text tmp) ''git-pull-temp'')) (\<lambda>pull.
     act_ok \<lparr>tempDirectory = ta_text tmp, gitRepoDirectory = ta_text repo,
       gitPullDataDirectory = ta_text pull, ctx_verbose = False\<rparr>)))"

definition newWorkingConfig :: "test_context \<Rightarrow> cfg_Config" where
  "newWorkingConfig ctx =
     \<lparr>c_Ip = ''127.0.0.1'', c_Port = 9400, c_Username = [], c_Password = [], c_LogLevel = [], c_Syslog = False,
      c_MaxJobBytes = 0, c_Tls = None,
      c_DataStore = Some \<lparr>cds_Type = ''git'', cds_DataStoreGit = Some
        \<lparr>cg_Url = gitRepoDirectory ctx,
         cg_DataStoreGitUser = Some
           \<lparr>cu_FriendlyName = ''John Doe'', cu_Email = ''jdoe@example.com'', cu_Name = [], cu_Pass = []\<rparr>,
         cg_PoolSize = 1, cg_Structure = [], cg_IncludeReadmeOverviews = False,
         cg_DataDir = gitPullDataDirectory ctx\<rparr>\<rparr>,
      c_JobStore = Some \<lparr>cjs_Type = ''local'', cjs_JobStoreLocal = Some
        \<lparr>cjl_JobGenerics = [(''foo'', Some (zero_Job
           \<lparr>cj_JobSchedule := Some (zero_JobSchedule\<lparr>cs_Cron := ''0 0 * * * * *''\<rparr>),
            cj_Commands := [Some (zero_JobCommand\<lparr>cc_Command := ''command1''\<rparr>),
              Some (zero_JobCommand\<lparr>cc_Command := ''command2''\<rparr>)]\<rparr>))],
         cjl_Jobs = [(''bar'', Some (zero_Job\<lparr>cj_Generic := ''foo''\<rparr>))]\<rparr>\<rparr>,
      c_DeviceStore = Some \<lparr>cdvs_Type = ''local'', cdvs_DeviceStoreLocal = Some
        \<lparr>cdl_DeviceGenerics = [(''baz'', Some zero_Device)],
         cdl_Devices = [(''qux'', Some (zero_Device
           \<lparr>cd_Generic := ''baz'', cd_Host := ''127.0.0.1'',
            cd_DeviceProtocol := Some \<lparr>cp_Type = ''ssh'', cp_DeviceProtocolSsh = None\<rparr>\<rparr>))]\<rparr>\<rparr>\<rparr>"

definition initializeGitRepo :: "test_env \<Rightarrow> test_context \<Rightarrow> unit test" where
  "initializeGitRepo te ctx =
     (let repo = gitRepoDirectory ctx; tempDir = path_Join [tempDirectory ctx, ''gittemp'']
      in act_bind (must te (MakeDirs repo)) (\<lambda>_.
         act_bind (must te (CombinedOutput [] [''git'', ''init'', ''--bare'', repo])) (\<lambda>_.
         act_bind (must te (RemoveTree tempDir)) (\<lambda>_.
         act_finally
           (act_bind (must te (MakeDirs tempDir)) (\<lambda>_.
            act_bind (must te (CombinedOutput tempDir [''git'', ''clone'', repo, tempDir])) (\<lambda>_.
            act_bind (must te (CombinedOutput tempDir
              [''git'', ''commit'', ''--allow-empty'', ''-m'', ''Creating master branch''])) (\<lambda>_.
            act_bind (must te (CombinedOutput tempDir [''git'', ''push'', ''origin'', ''master''])) (\<lambda>_.
            act_ok ())))))
           (ask te (RemoveTree tempDir))))))"

section \<open>Configuration files\<close>

text \<open>\<open>Config.ToJSON\<close> (config/marshal.go) over the two encoders of encoding/json.\<close>

record encoders =
  json_Marshal :: "cfg_Config \<Rightarrow> string + string"
  json_MarshalIndent :: "cfg_Config \<Rightarrow> string + string"

definition ToJSON :: "encoders \<Rightarrow> bool \<Rightarrow> cfg_Config \<Rightarrow> string + string" where
  "ToJSON enc pretty c = (if pretty then json_MarshalIndent enc c else json_Marshal enc c)"

text \<open>The answer is the name, empty unless the file was written, and the error.\<close>

definition writeConfigFile :: "test_env \<Rightarrow> encoders \<Rightarrow> test_context \<Rightarrow> cfg_Config \<Rightarrow> (string \<times> string option) test" where
  "writeConfigFile te enc ctx conf =
     act_bind (ask te (TempFile (tempDirectory ctx) ''fusty-config'')) (\<lambda>f. case ta_err f of
       Some err \<Rightarrow> act_ok ([], Some err)
     | None \<Rightarrow>
         act_bind
           (act_finally
             (case ToJSON enc False conf of
                Inl e \<Rightarrow> act_ok (Some e)
              | Inr bytes \<Rightarrow> act_bind (ask te (WriteTo (ta_text f) bytes)) (\<lambda>a. act_ok (ta_err a)))
             (ask te (CloseFile (ta_text f)))) (\<lambda>err. case err of
           Some e \<Rightarrow> act_ok ([], Some e)
         | None \<Rightarrow>
             let filename = ta_text f @ ''.json''
             in act_bind (ask te (RenameFile (ta_text f) filename)) (\<lambda>a. act_ok (filename, ta_err a))))"

definition withTempConfig :: "test_env \<Rightarrow> encoders \<Rightarrow> test_context \<Rightarrow> cfg_Config \<Rightarrow> (string \<Rightarrow> unit test) \<Rightarrow> unit test" where
  "withTempConfig te enc ctx conf f =
     act_bind (writeConfigFile te enc ctx conf) (\<lambda>(confFile, err).
     let body = act_bind (So (err = None)) (\<lambda>_. f confFile)
     in if err \<noteq> None then act_finally body (ask te (RemoveFile confFile)) else body)"

section \<open>Running fusty\<close>

text \<open>A command of os/exec: its directory, and the command line with the program first.\<close>

record exec_Cmd =
  ec_Dir :: string
  ec_Args :: "string list"

definition exec_Command :: "string list \<Rightarrow> exec_Cmd" where
  "exec_Command args = \<lparr>ec_Dir = [], ec_Args = args\<rparr>"

text \<open>The buffer of what is streamed is behind the event \<open>Streamed\<close>.\<close>

record fustyCmdExternal =
  fx_Cmd :: exec_Cmd

definition createExternalCmd :: "exec_Cmd \<Rightarrow> fustyCmdExternal" where
  "createExternalCmd cmd = \<lparr>fx_Cmd = cmd\<rparr>"

definition runFusty :: "test_globals \<Rightarrow> string list \<Rightarrow> fustyCmdExternal" where
  "runFusty gl args = createExternalCmd (exec_Command (path_Join [baseDirectory gl, ''fusty''] # args))"

lemmas run_simps = runFusty_def createExternalCmd_def exec_Command_def

abbreviation command_line :: "fustyCmdExternal \<Rightarrow> string list" where
  "command_line f \<equiv> ec_Args (fx_Cmd f)"

definition exec_output :: "test_env \<Rightarrow> exec_Cmd \<Rightarrow> test_answer test" where
  "exec_output te cmd = ask te (CombinedOutput (ec_Dir cmd) (ec_Args cmd))"

definition External_CombinedOutput :: "test_env \<Rightarrow> fustyCmdExternal \<Rightarrow> test_answer test" where
  "External_CombinedOutput te f = exec_output te (fx_Cmd f)"

definition Exited :: "test_env \<Rightarrow> bool test" where
  "Exited te = act_bind (ask te State) (\<lambda>a. act_ok (ta_hasState a \<and> ta_exited a))"

definition Success :: "test_env \<Rightarrow> bool test" where
  "Success te = act_bind (ask te State) (\<lambda>a. act_bind (So (ta_hasState a)) (\<lambda>_. act_ok (ta_success a)))"

definition Stop :: "test_env \<Rightarrow> string option test" where
  "Stop te = act_bind (ask te State) (\<lambda>a. act_bind (So (ta_hasProcess a)) (\<lambda>_.
     act_bind (ask te KillProcess) (\<lambda>k. act_ok (ta_err k))))"

definition StreamedOutput :: "test_env \<Rightarrow> string test" where
  "StreamedOutput te = act_bind (ask te Streamed) (\<lambda>a. act_ok (ta_text a))"

text \<open>The loop of \<open>Wait\<close>, with the rounds that are left.\<close>

fun wait_rounds :: "test_env \<Rightarrow> nat \<Rightarrow> bool test" where
  "wait_rounds te 0 = act_ok False"
| "wait_rounds te (Suc n) =
     act_bind (ask te SleepSecond) (\<lambda>_.
     act_bind (Exited te) (\<lambda>exited. if exited then act_ok True else wait_rounds te n))"

definition Wait :: "test_env \<Rightarrow> int \<Rightarrow> unit test" where
  "Wait te maxSeconds =
     act_bind (wait_rounds te (nat maxSeconds)) (\<lambda>done.
     if done then act_ok () else act_err (''Did not complete in '' @ Itoa maxSeconds @ '' seconds''))"

definition conveyCommandFailure :: "test_env \<Rightarrow> fustyCmdExternal \<Rightarrow> string \<Rightarrow> unit test" where
  "conveyCommandFailure te cmd expectedString =
     act_bind (External_CombinedOutput te cmd) (\<lambda>out.
     act_bind (Success te) (\<lambda>ok.
     act_bind (So (\<not> ok)) (\<lambda>_.
     act_bind (So (ta_text out \<noteq> [])) (\<lambda>_.
     So (Contains (ta_text out) expectedString)))))"

text \<open>A line of the background process as it is logged, and the number of bytes taken.\<close>

definition stdoutWriter_Write :: "stdoutWriter \<Rightarrow> string \<Rightarrow> string \<times> nat" where
  "stdoutWriter_Write s p = (sw_prefix s @ TrimSpace p, length p)"

text \<open>
  Both callers run it as a goroutine: the event starts the process, whose lines the writer above
  logs while it runs and whose error nobody reads.
\<close>

definition RunAndStreamOutput :: "test_env \<Rightarrow> fustyCmdExternal \<Rightarrow> string \<Rightarrow> unit test" where
  "RunAndStreamOutput te cmd pre =
     act_bind (ask te (InBackground \<lparr>sw_prefix = pre\<rparr> (command_line cmd))) (\<lambda>_. act_ok ())"

text \<open>\<open>fustyCmdLocal\<close>, which was to run the program inside the process of the tests.\<close>

definition Local_CombinedOutput :: "test_answer test" where
  "Local_CombinedOutput = act_panic ''Not implemented''"

definition Local_Success :: "bool test" where
  "Local_Success = act_panic ''Not implemented''"

definition Local_Stop :: "string option test" where
  "Local_Stop = act_panic ''Not implemented''"

definition controller_command :: "test_context \<Rightarrow> string \<Rightarrow> string list" where
  "controller_command ctx confFile =
     [''controller'', ''-config'', confFile] @ (if ctx_verbose ctx then [''-verbose''] else [])"

definition ping_url :: "cfg_Config \<Rightarrow> string" where
  "ping_url conf = ''http://'' @ c_Ip conf @ '':'' @ Itoa (c_Port conf) @ ''/worker/ping''"

fun ping_rounds :: "test_env \<Rightarrow> string \<Rightarrow> nat \<Rightarrow> bool test" where
  "ping_rounds te url 0 = act_ok False"
| "ping_rounds te url (Suc n) =
     act_bind (ask te SleepSecond) (\<lambda>_.
     act_bind (ask te (GetUrl url)) (\<lambda>resp.
     if ta_err resp = None \<and> ta_status resp = 200 then act_ok True else ping_rounds te url n))"

definition startControllerInBackground :: "test_env \<Rightarrow> encoders \<Rightarrow> test_globals \<Rightarrow> test_context \<Rightarrow> cfg_Config \<Rightarrow> bool
    \<Rightarrow> fustyCmdExternal test" where
  "startControllerInBackground te enc gl ctx conf verifyUp =
     act_bind (ask te OnReset) (\<lambda>_.
     act_bind (writeConfigFile te enc ctx conf) (\<lambda>(confFile, err).
     act_bind (So (err = None)) (\<lambda>_.
     act_bind (So (\<exists>bytes. ToJSON enc True conf = Inr bytes)) (\<lambda>_.
     let cmd = runFusty gl (controller_command ctx confFile)
     in act_bind (RunAndStreamOutput te cmd ''Controller out: '') (\<lambda>_.
        if \<not> verifyUp then act_ok cmd
        else
          act_bind (ping_rounds te (ping_url conf) 5) (\<lambda>success.
          act_bind (if \<not> success then act_bind (Stop te) (\<lambda>_. So success) else act_ok ()) (\<lambda>_.
          act_bind (Exited te) (\<lambda>exited.
          act_bind (So (\<not> exited)) (\<lambda>_. act_ok cmd)))))))))"

definition startWorkerInBackgroundWithArgs :: "test_env \<Rightarrow> test_globals \<Rightarrow> test_context \<Rightarrow> string list \<Rightarrow> fustyCmdExternal test" where
  "startWorkerInBackgroundWithArgs te gl ctx args =
     (let cmd = runFusty gl ([''worker''] @ args @ (if ctx_verbose ctx then [''-verbose''] else []))
      in act_bind (ask te OnReset) (\<lambda>_.
         act_bind (RunAndStreamOutput te cmd ''Worker out: '') (\<lambda>_. act_ok cmd)))"

definition startWorkerInBackground :: "test_env \<Rightarrow> test_globals \<Rightarrow> test_context \<Rightarrow> fustyCmdExternal test" where
  "startWorkerInBackground te gl ctx =
     startWorkerInBackgroundWithArgs te gl ctx
       [''-controller'', ''http://127.0.0.1:9400'', ''-sleep'', ''1200'', ''-maxjobs'', ''1'']"

section \<open>Checking a commit\<close>

definition runInDir :: "test_env \<Rightarrow> string \<Rightarrow> string list \<Rightarrow> string test" where
  "runInDir te dir cmd =
     act_bind (exec_output te ((exec_Command cmd)\<lparr>ec_Dir := dir\<rparr>)) (\<lambda>a.
     act_bind (So (ta_err a = None)) (\<lambda>_. act_ok (TrimSpace (ta_text a))))"

record gitAssertion =
  ga_job :: string
  ga_device :: string
  ga_filesUpdated :: "string list"
  ga_fileContents :: string

text \<open>\<open>strings.Split\<close> for a one-byte separator.\<close>

fun Split :: "string \<Rightarrow> char \<Rightarrow> string list" where
  "Split [] sep = [[]]"
| "Split (c # s) sep =
     (if c = sep then [] # Split s sep
      else case Split s sep of [] \<Rightarrow> [[c]] | e # es \<Rightarrow> (c # e) # es)"

definition crlf_to_lf :: "string \<Rightarrow> string" where
  "crlf_to_lf s = replace_ne [CHR 0x0D, CHR 0x0A] [CHR 0x0A] (TrimSpace s)"

definition assert_comment :: "gitAssertion \<Rightarrow> string \<Rightarrow> unit test" where
  "assert_comment g comment =
     act_each (\<lambda>part. So (Contains comment part))
       [''Job: '' @ ga_job g @ newline, ''Device: '' @ ga_device g @ newline,
        ''Expected Run Date:'', ''Start Date:'', ''End On:'', ''Elapsed Time:'']"

text \<open>With no expected file the index 0 is out of range.\<close>

definition assertValid :: "test_env \<Rightarrow> test_context \<Rightarrow> gitAssertion \<Rightarrow> unit test" where
  "assertValid te ctx g =
     act_bind (must te (TempDir (tempDirectory ctx) ''git-assert-temp'')) (\<lambda>d. let dir = ta_text d in
     act_bind (must te (MakeDirs dir)) (\<lambda>_.
     act_bind (runInDir te dir [''git'', ''clone'', gitRepoDirectory ctx, dir]) (\<lambda>_.
     act_bind (runInDir te dir [''git'', ''log'', ''-1'', ''--pretty=%an'']) (\<lambda>authorName.
     act_bind (So (authorName = ''John Doe'')) (\<lambda>_.
     act_bind (runInDir te dir [''git'', ''log'', ''-1'', ''--pretty=%ae'']) (\<lambda>authorEmail.
     act_bind (So (authorEmail = ''jdoe@example.com'')) (\<lambda>_.
     act_bind (runInDir te dir [''git'', ''log'', ''-1'', ''--pretty=%B'']) (\<lambda>commitComment.
     act_bind (assert_comment g commitComment) (\<lambda>_.
     act_bind (runInDir te dir [''git'', ''diff-tree'', ''--no-commit-id'', ''--name-only'', ''-r'', ''HEAD'']) (\<lambda>filesText.
     let filesUpdated = Split filesText (CHR 0x0A) in
     act_bind (So (length filesUpdated = length (ga_filesUpdated g))) (\<lambda>_.
     act_bind (act_each (\<lambda>f. So (f \<in> set filesUpdated)) (ga_filesUpdated g)) (\<lambda>_.
     case ga_filesUpdated g of
       [] \<Rightarrow> act_panic ''index out of range''
     | f # _ \<Rightarrow>
         act_bind (must te (ReadBytes (path_Join [dir, f]))) (\<lambda>file.
         So (Contains (crlf_to_lf (ta_text file)) (crlf_to_lf (ga_fileContents g))))))))))))))))"

end
