(* ===== verification/Test_Results.thy ===== *)
theory Test_Results
  imports Test_Harness Controller_Properties
begin

text \<open>
  The tests of the controller's configuration (integration/controller_cli_failure_test.go and
  \<open>newWorkingConfig\<close>) as theorems about the model: the configuration the tests start from is
  accepted, and each change that a test makes to it is refused with the error the test expects.
\<close>

section \<open>The tests\<close>

text \<open>\<open>m[k].f = v\<close> through the pointer in a map.\<close>

definition on_ptr :: "string \<Rightarrow> ('a \<Rightarrow> 'a) \<Rightarrow> 'a option gomap \<Rightarrow> 'a option gomap" where
  "on_ptr k f m = (case lookup_ptr m k of None \<Rightarrow> m | Some v \<Rightarrow> map_put k (Some (f v)) m)"

definition on_jobs :: "(cfg_JobStore \<Rightarrow> cfg_JobStore) \<Rightarrow> cfg_Config \<Rightarrow> cfg_Config" where
  "on_jobs f c = c\<lparr>c_JobStore := map_option f (c_JobStore c)\<rparr>"

definition on_local_jobs :: "(cfg_JobStoreLocal \<Rightarrow> cfg_JobStoreLocal) \<Rightarrow> cfg_Config \<Rightarrow> cfg_Config" where
  "on_local_jobs f = on_jobs (\<lambda>js. js\<lparr>cjs_JobStoreLocal := map_option f (cjs_JobStoreLocal js)\<rparr>)"

definition on_devices :: "(cfg_DeviceStore \<Rightarrow> cfg_DeviceStore) \<Rightarrow> cfg_Config \<Rightarrow> cfg_Config" where
  "on_devices f c = c\<lparr>c_DeviceStore := map_option f (c_DeviceStore c)\<rparr>"

definition on_qux :: "(cfg_Device \<Rightarrow> cfg_Device) \<Rightarrow> cfg_Config \<Rightarrow> cfg_Config" where
  "on_qux f = on_devices (\<lambda>ds. ds\<lparr>cdvs_DeviceStoreLocal := map_option
     (\<lambda>l. l\<lparr>cdl_Devices := on_ptr ''qux'' f (cdl_Devices l)\<rparr>) (cdvs_DeviceStoreLocal ds)\<rparr>)"

definition on_data :: "(cfg_DataStore \<Rightarrow> cfg_DataStore) \<Rightarrow> cfg_Config \<Rightarrow> cfg_Config" where
  "on_data f c = c\<lparr>c_DataStore := map_option f (c_DataStore c)\<rparr>"

definition on_git :: "(cfg_DataStoreGit \<Rightarrow> cfg_DataStoreGit) \<Rightarrow> cfg_Config \<Rightarrow> cfg_Config" where
  "on_git f = on_data (\<lambda>d. d\<lparr>cds_DataStoreGit := map_option f (cds_DataStoreGit d)\<rparr>)"

definition on_git_user :: "(cfg_DataStoreGitUser \<Rightarrow> cfg_DataStoreGitUser) \<Rightarrow> cfg_Config \<Rightarrow> cfg_Config" where
  "on_git_user f = on_git (\<lambda>g. g\<lparr>cg_DataStoreGitUser := map_option f (cg_DataStoreGitUser g)\<rparr>)"

definition hour_error :: string where
  "hour_error = ''syntax error in hour field: '' @ [CHR 0x27] @ ''30'' @ [CHR 0x27]"

text \<open>The changes to the working configuration and the texts the tests look for.\<close>

definition job_failures :: "((cfg_Config \<Rightarrow> cfg_Config) \<times> string) list" where
  "job_failures =
     [(\<lambda>c. c\<lparr>c_JobStore := None\<rparr>, ''Job store configuration not found''),
      (on_jobs (\<lambda>js. js\<lparr>cjs_Type := ''unknown''\<rparr>), ''Unrecognized job store type: unknown''),
      (on_local_jobs (\<lambda>l. l\<lparr>cjl_Jobs := on_ptr ''bar'' (\<lambda>j. j\<lparr>cj_Generic := ''not-here''\<rparr>) (cjl_Jobs l)\<rparr>),
        ''Unable to find job generic named: not-here''),
      (on_local_jobs (\<lambda>l. l\<lparr>cjl_JobGenerics := on_ptr ''foo''
          (\<lambda>j. j\<lparr>cj_JobSchedule := map_option (\<lambda>s. s\<lparr>cs_Cron := ''blah''\<rparr>) (cj_JobSchedule j)\<rparr>) (cjl_JobGenerics l)\<rparr>),
        ''Invalid schedule: missing field(s)''),
      (on_local_jobs (\<lambda>l. l\<lparr>cjl_Jobs := on_ptr ''bar''
          (\<lambda>j. j\<lparr>cj_JobSchedule := Some (zero_JobSchedule\<lparr>cs_Cron := ''0 30 * * * *''\<rparr>)\<rparr>) (cjl_Jobs l)\<rparr>),
        ''Invalid schedule: '' @ hour_error)]"

definition device_failures :: "((cfg_Config \<Rightarrow> cfg_Config) \<times> string) list" where
  "device_failures =
     [(\<lambda>c. c\<lparr>c_DeviceStore := None\<rparr>, ''Device store configuration not found''),
      (on_devices (\<lambda>ds. ds\<lparr>cdvs_Type := ''unknown''\<rparr>), ''Unrecognized device store type: unknown''),
      (on_qux (\<lambda>d. d\<lparr>cd_Generic := ''not-here''\<rparr>), ''Unable to find device generic named: not-here''),
      (on_qux (\<lambda>d. d\<lparr>cd_DeviceProtocol := map_option (\<lambda>p. p\<lparr>cp_Type := ''unknown''\<rparr>) (cd_DeviceProtocol d)\<rparr>),
        ''Unrecognized protocol type: unknown'')]"

definition data_failures :: "test_context \<Rightarrow> string \<Rightarrow> ((cfg_Config \<Rightarrow> cfg_Config) \<times> string) list" where
  "data_failures ctx badgit =
     [(\<lambda>c. c\<lparr>c_DataStore := None\<rparr>, ''Data store configuration not found''),
      (on_data (\<lambda>d. d\<lparr>cds_Type := ''unknown''\<rparr>), ''Unrecognized data store type: unknown''),
      (on_git (\<lambda>g. g\<lparr>cg_Url := []\<rparr>), ''Data store for git requires url''),
      (on_git (\<lambda>g. g\<lparr>cg_Structure := [''unknown'']\<rparr>), ''Unrecognized git structure: unknown''),
      (on_git (\<lambda>g. g\<lparr>cg_DataDir := path_Join [tempDirectory ctx, ''notpresent'']\<rparr>), ''Failure obtaining git data directory''),
      (on_git_user (\<lambda>u. u\<lparr>cu_Email := ''invalidemail''\<rparr>), ''Invalid email for git user''),
      (on_git_user (\<lambda>u. u\<lparr>cu_Pass := ''somepass''\<rparr>), ''If git password supplied, username must also be supplied''),
      (on_git (\<lambda>g. g\<lparr>cg_Url := badgit\<rparr>), ''Git repository validation using ls-remote failed'')]"

section \<open>What the tests take for granted\<close>

definition test_cron :: "cron_lib \<Rightarrow> bool" where
  "test_cron lib \<longleftrightarrow> (\<exists>e. cron_Parse lib ''0 0 * * * * *'' = Inr e) \<and>
     cron_Parse lib ''blah'' = Inl ''missing field(s)'' \<and> cron_Parse lib ''0 30 * * * *'' = Inl hour_error"

definition test_mail :: "text_lib \<Rightarrow> bool" where
  "test_mail tx \<longleftrightarrow> tl_ParseAddress tx ''jdoe@example.com'' = None \<and> tl_ParseAddress tx ''invalidemail'' \<noteq> None"

text \<open>The directories of the context exist, the ones that should not do not, and \<open>badgit\<close> is no repository.\<close>

definition test_os :: "test_context \<Rightarrow> string \<Rightarrow> os \<Rightarrow> bool" where
  "test_os ctx badgit os \<longleftrightarrow>
     gitRepoDirectory ctx \<noteq> [] \<and> gitPullDataDirectory ctx \<noteq> [] \<and> badgit \<noteq> [] \<and>
     (\<forall>h. an_err (os h (EvStat (gitPullDataDirectory ctx))) = None \<and> an_isDir (os h (EvStat (gitPullDataDirectory ctx)))) \<and>
     (\<forall>h. an_err (os h (EvStat (path_Join [tempDirectory ctx, ''notpresent'']))) \<noteq> None) \<and>
     (\<forall>h. an_err (os (h @ [EvStart [] None [''ls-remote'', badgit]]) EvWait) \<noteq> None)"

section \<open>The stores of the working configuration\<close>

lemma Contains_intro: "Contains (a @ p @ b) p"
  by (auto simp: Contains_iff)

lemma ContainsI: "s = a @ p @ b \<Longrightarrow> Contains s p"
  by (simp add: Contains_intro)

lemma Contains_prepend: "Contains s p \<Longrightarrow> Contains (a @ s) p"
  unfolding Contains_iff by (metis append.assoc)

lemma Contains_self [simp]: "Contains p p"
  using Contains_intro [of "[]" p "[]"] by simp

lemma Contains_append_left [simp]: "Contains (p @ b) p"
  using Contains_intro [of "[]" p b] by simp

definition test_bar :: "cronexpr \<Rightarrow> Job" where
  "test_bar e = \<lparr>job_Name = ''bar'',
     job_CommandSet = Some \<lparr>cset_Generic = Some NewDefaultCommandSetCommand,
       cset_Commands = [NewDefaultCommandSetCommand\<lparr>cmd_Command := ''command1''\<rparr>,
         NewDefaultCommandSetCommand\<lparr>cmd_Command := ''command2''\<rparr>]\<rparr>,
     job_FileSet = None,
     job_Schedule = Some \<lparr>originalString = ''0 0 * * * * *'', expr = e\<rparr>,
     job_Scrubbers = [], job_TemplateValues = []\<rparr>"

lemma visit_Nil [simp]: "visit [] ks = []"
  by (induction ks) simp_all

lemma one_job_Ok:
  assumes "valid_rng r" "cjl_Jobs l = [(n, Some c)]" "configure_job lib (at n r) l n c = Ok j" "Job_Validate re j = []"
  shows "newLocalJobStore lib re r (Some l) = Ok \<lparr>ljs_jobs = [(n, j)]\<rparr>"
  using assms configure_job_wf [OF assms(3)] by (simp add: newLocalJobStore_def go_range_single)

lemma one_job_Err:
  assumes "valid_rng r" "cjl_Jobs l = [(n, Some c)]" "configure_job lib (at n r) l n c = Err e"
  shows "newLocalJobStore lib re r (Some l) = Err (''Job validation failed:'' @ ''\<newline>'' @ e)"
  using assms by (simp add: newLocalJobStore_def go_range_single)

lemma one_device_Ok:
  assumes "valid_rng r" "cdl_Devices l = [(n, Some c)]" "configure_device lib (at n r) l js n c = Ok d"
    "dev_Name d = n" "Device_Validate re (at ''validate'' (at n r)) d = []"
  shows "newLocalDeviceStore lib re r (Some l) js = Ok \<lparr>lds_devices = [(n, d)]\<rparr>"
  using assms by (simp add: newLocalDeviceStore_def go_range_single)

lemma one_device_Err:
  assumes "valid_rng r" "cdl_Devices l = [(n, Some c)]" "configure_device lib (at n r) l js n c = Err e"
  shows "newLocalDeviceStore lib re r (Some l) js = Err (''Device validation failed:'' @ ''\<newline>'' @ e)"
  using assms by (simp add: newLocalDeviceStore_def go_range_single)

lemma test_bar_valid: "Job_Validate re (test_bar e) = []"
  by (simp add: Job_Validate_def test_bar_def CommandSet_Validate_def
      CommandSetCommand_Validate_def NewDefaultCommandSetCommand_def pattern_errors_def)

lemmas test_defs = newWorkingConfig_def on_ptr_def on_jobs_def on_local_jobs_def on_devices_def on_qux_def
  on_data_def on_git_def on_git_user_def lookup_ptr_def zero_defs

lemma working_jobs:
  assumes "cron_Parse lib ''0 0 * * * * *'' = Inr e" and "valid_rng r" and "c_JobStore (newWorkingConfig ctx) = Some js"
  shows "NewJobStoreFromConfig lib re r js = Ok \<lparr>ljs_jobs = [(''bar'', test_bar e)]\<rparr>"
proof -
  let ?l = "the (cjs_JobStoreLocal js)"
  have "configure_job lib (at ''bar'' r) ?l ''bar'' (zero_Job\<lparr>cj_Generic := ''foo''\<rparr>) = Ok (test_bar e)"
    using assms by (auto simp: configure_job_def apply_job_generic_def job_defs test_defs test_bar_def)
  from one_job_Ok [OF assms(2) _ this test_bar_valid] show ?thesis
    using assms(3) by (auto simp: NewJobStoreFromConfig_def newWorkingConfig_def)
qed

definition test_qux :: Device where
  "test_qux = (NewDefaultDevice ''qux'')\<lparr>dev_Host := ''127.0.0.1''\<rparr>"

lemma working_devices:
  assumes "valid_rng r" and "c_DeviceStore (newWorkingConfig ctx) = Some ds"
  shows "NewDeviceStoreFromConfig lib re r ds js = Ok \<lparr>lds_devices = [(''qux'', test_qux)]\<rparr>"
proof -
  let ?l = "the (cdvs_DeviceStoreLocal ds)"
  let ?c = "zero_Device\<lparr>cd_Generic := ''baz'', cd_Host := ''127.0.0.1'',
            cd_DeviceProtocol := Some \<lparr>cp_Type = ''ssh'', cp_DeviceProtocolSsh = None\<rparr>\<rparr>"
  have "configure_device lib (at ''qux'' r) ?l js ''qux'' ?c = Ok test_qux"
    using assms
    by (auto simp: configure_device_def initial_device_def apply_device_generic_def Device_ApplyConfig_def
        apply_protocol_def apply_credentials_def NewDefaultDevice_def test_defs test_qux_def go_range_def)
  moreover have "Device_Validate re (at ''validate'' (at ''qux'' r)) test_qux = []"
    by (simp add: Device_Validate_def test_qux_def NewDefaultDevice_def go_range_def)
  ultimately show ?thesis
    using one_device_Ok [OF assms(1), of ?l "''qux''" ?c] assms(2)
    by (auto simp: NewDeviceStoreFromConfig_def newWorkingConfig_def test_qux_def NewDefaultDevice_def)
qed

section \<open>Refusals\<close>

definition refused :: "os \<Rightarrow> libs \<Rightarrow> rng \<Rightarrow> cfg_Config \<Rightarrow> string \<Rightarrow> bool" where
  "refused os lb r conf expected \<longleftrightarrow> (\<forall>h. \<exists>e h'. NewController os lb r conf h = (Err e, h') \<and> Contains e expected)"

lemma refused_jobs:
  assumes "\<not> c_Syslog c" "c_JobStore c = Some js"
    and "NewJobStoreFromConfig (lb_cron lb) (lb_re lb) (at ''jobs'' r) js = Err e" "Contains e expected"
  shows "refused os lb r c expected"
  using assms Contains_prepend [OF assms(4), of "''Unable to create job store: ''"]
  by (simp add: refused_def NewController_def new_loggers_def act_bind_def act_res_def)

lemma refused_devices:
  assumes "\<not> c_Syslog c" "c_JobStore c = Some js" "c_DeviceStore c = Some ds"
    and "NewJobStoreFromConfig (lb_cron lb) (lb_re lb) (at ''jobs'' r) js = Ok st"
    and "NewDeviceStoreFromConfig (lb_cron lb) (lb_re lb) (at ''devices'' r) ds (AllJobs st) = Err e" "Contains e expected"
  shows "refused os lb r c expected"
  using assms Contains_prepend [OF assms(6), of "''Unable to create device store: ''"]
  by (simp add: refused_def NewController_def new_loggers_def act_bind_def act_res_def)

lemma refused_data:
  assumes "\<not> c_Syslog c" "c_JobStore c = Some js" "c_DeviceStore c = Some ds" "c_DataStore c = Some dst"
    and "NewJobStoreFromConfig (lb_cron lb) (lb_re lb) (at ''jobs'' r) js = Ok st"
    and "NewDeviceStoreFromConfig (lb_cron lb) (lb_re lb) (at ''devices'' r) ds (AllJobs st) = Ok dv"
    and "\<And>h. \<exists>e h'. NewDataStoreFromConfig os (lb_txt lb) (at ''data'' r) dst h = (Err e, h') \<and> Contains e expected"
  shows "refused os lb r c expected"
  unfolding refused_def
proof
  fix h
  obtain e h' where "NewDataStoreFromConfig os (lb_txt lb) (at ''data'' r) dst h = (Err e, h')" "Contains e expected"
    using assms(7) by blast
  then show "\<exists>e h'. NewController os lb r c h = (Err e, h') \<and> Contains e expected"
    using assms(1-6) Contains_prepend [of e expected "''Unable to create data store: ''"]
    by (simp add: NewController_def new_loggers_def act_bind_def act_res_def act_wrap_def)
qed

lemma working_no_syslog: "\<not> c_Syslog (newWorkingConfig ctx)"
  by (simp add: newWorkingConfig_def)

lemma local_jobs_refused:
  assumes "valid_rng r" "\<not> c_Syslog c" "c_JobStore c = Some \<lparr>cjs_Type = ''local'', cjs_JobStoreLocal = Some l\<rparr>"
    and "cjl_Jobs l = [(n, Some cj)]" "configure_job (lb_cron lb) (at n (at ''jobs'' r)) l n cj = Err e" "Contains e expected"
  shows "refused os lb r c expected"
proof -
  have "NewJobStoreFromConfig (lb_cron lb) (lb_re lb) (at ''jobs'' r) \<lparr>cjs_Type = ''local'', cjs_JobStoreLocal = Some l\<rparr> =
    Err (''Job validation failed:'' @ ''\<newline>'' @ e)"
    using one_job_Err [OF valid_rng_at [OF assms(1)] assms(4,5)] by (simp add: NewJobStoreFromConfig_def)
  from refused_jobs [OF assms(2,3) this] show ?thesis
    using Contains_prepend [OF Contains_prepend [OF assms(6)]] by blast
qed

lemma jobs_refused:
  assumes "test_cron (lb_cron lb)" "valid_rng r" "(f, expected) \<in> set job_failures"
  shows "refused os lb r (f (newWorkingConfig ctx)) expected"
proof -
  note cron = assms(1) [unfolded test_cron_def]
  have "refused os lb r ((newWorkingConfig ctx)\<lparr>c_JobStore := None\<rparr>) ''Job store configuration not found''"
    by (simp add: refused_def NewController_def new_loggers_def newWorkingConfig_def act_bind_def act_res_def act_ok_def act_err_def)
  moreover have "refused os lb r (on_jobs (\<lambda>js. js\<lparr>cjs_Type := ''unknown''\<rparr>) (newWorkingConfig ctx))
      ''Unrecognized job store type: unknown''"
    by (rule refused_jobs [where e = "''Unrecognized job store type: unknown''"])
      (simp add: test_defs NewJobStoreFromConfig_def)+
  moreover have "refused os lb r (on_local_jobs (\<lambda>l. l\<lparr>cjl_Jobs := on_ptr ''bar'' (\<lambda>j. j\<lparr>cj_Generic := ''not-here''\<rparr>)
      (cjl_Jobs l)\<rparr>) (newWorkingConfig ctx)) ''Unable to find job generic named: not-here''"
    by (rule local_jobs_refused [OF assms(2), where e = "''Unable to find job generic named: not-here''"])
      (simp add: test_defs configure_job_def apply_job_generic_def)+
  moreover have "refused os lb r (on_local_jobs (\<lambda>l. l\<lparr>cjl_JobGenerics := on_ptr ''foo''
          (\<lambda>j. j\<lparr>cj_JobSchedule := map_option (\<lambda>s. s\<lparr>cs_Cron := ''blah''\<rparr>) (cj_JobSchedule j)\<rparr>) (cjl_JobGenerics l)\<rparr>)
      (newWorkingConfig ctx)) ''Invalid schedule: missing field(s)''"
    by (rule local_jobs_refused [OF assms(2), where
          e = "''Error applying job generic foo: '' @ ''Invalid schedule: missing field(s)''"])
      (simp add: test_defs configure_job_def apply_job_generic_def job_defs cron Contains_prepend)+
  moreover have "refused os lb r (on_local_jobs (\<lambda>l. l\<lparr>cjl_Jobs := on_ptr ''bar''
          (\<lambda>j. j\<lparr>cj_JobSchedule := Some (zero_JobSchedule\<lparr>cs_Cron := ''0 30 * * * *''\<rparr>)\<rparr>) (cjl_Jobs l)\<rparr>)
      (newWorkingConfig ctx)) (''Invalid schedule: '' @ hour_error)"
    by (rule local_jobs_refused [OF assms(2), where
          e = "''Error configuring job bar: '' @ ''Invalid schedule: '' @ hour_error"])
      (insert cron, (auto simp: test_defs configure_job_def apply_job_generic_def job_defs intro: Contains_prepend)+)
  ultimately show ?thesis using assms(3) unfolding job_failures_def by auto
qed

lemma working_parts:
  "c_JobStore (newWorkingConfig ctx) \<noteq> None" "c_DeviceStore (newWorkingConfig ctx) \<noteq> None"
  by (simp_all add: newWorkingConfig_def)

lemma device_store_refused:
  assumes "cron_Parse (lb_cron lb) ''0 0 * * * * *'' = Inr k" "valid_rng r"
    and "\<not> c_Syslog c" "c_JobStore c = c_JobStore (newWorkingConfig ctx)" "c_DeviceStore c = Some ds"
    and "\<And>js. NewDeviceStoreFromConfig (lb_cron lb) (lb_re lb) (at ''devices'' r) ds js = Err e" "Contains e expected"
  shows "refused os lb r c expected"
proof -
  obtain js where js: "c_JobStore (newWorkingConfig ctx) = Some js" using working_parts by auto
  show ?thesis
    by (rule refused_devices [OF assms(3) _ assms(5) working_jobs [OF assms(1) valid_rng_at [OF assms(2)] js] assms(6,7)])
      (simp add: assms(4) js)
qed

lemma local_devices_refused:
  assumes "cron_Parse (lb_cron lb) ''0 0 * * * * *'' = Inr k" "valid_rng r" "\<not> c_Syslog c"
    and "c_JobStore c = c_JobStore (newWorkingConfig ctx)"
    and "c_DeviceStore c = Some \<lparr>cdvs_Type = ''local'', cdvs_DeviceStoreLocal = Some l\<rparr>" "cdl_Devices l = [(n, Some cd)]"
    and "\<And>js. configure_device (lb_cron lb) (at n (at ''devices'' r)) l js n cd = Err e" "Contains e expected"
  shows "refused os lb r c expected"
proof -
  have "NewDeviceStoreFromConfig (lb_cron lb) (lb_re lb) (at ''devices'' r)
      \<lparr>cdvs_Type = ''local'', cdvs_DeviceStoreLocal = Some l\<rparr> js = Err (''Device validation failed:'' @ ''\<newline>'' @ e)" for js
    using one_device_Err [OF valid_rng_at [OF assms(2)] assms(6,7)] by (simp add: NewDeviceStoreFromConfig_def)
  from device_store_refused [OF assms(1-5) this Contains_prepend [OF Contains_prepend [OF assms(8)]]] show ?thesis .
qed

lemma devices_refused:
  assumes "test_cron (lb_cron lb)" "valid_rng r" "(f, expected) \<in> set device_failures"
  shows "refused os lb r (f (newWorkingConfig ctx)) expected"
proof -
  let ?wc = "newWorkingConfig ctx"
  obtain k where k: "cron_Parse (lb_cron lb) ''0 0 * * * * *'' = Inr k" using assms(1) by (auto simp: test_cron_def)
  note refused = local_devices_refused [OF k assms(2), where ctx = ctx]
  note dev = test_defs configure_device_def initial_device_def apply_device_generic_def Device_ApplyConfig_def
    apply_protocol_def apply_credentials_def NewDefaultDevice_def go_range_def
  obtain js where js: "c_JobStore ?wc = Some js" using working_parts by auto
  have "refused os lb r (?wc\<lparr>c_DeviceStore := None\<rparr>) ''Device store configuration not found''"
    using working_jobs [OF k valid_rng_at [OF assms(2)] js] working_no_syslog [of ctx]
    by (simp add: refused_def NewController_def new_loggers_def js act_bind_def act_res_def act_ok_def act_err_def)
  moreover have "refused os lb r (on_devices (\<lambda>ds. ds\<lparr>cdvs_Type := ''unknown''\<rparr>) ?wc)
      ''Unrecognized device store type: unknown''"
    by (rule device_store_refused [OF k assms(2), where ctx = ctx and e = "''Unrecognized device store type: unknown''"])
      (simp add: test_defs NewDeviceStoreFromConfig_def)+
  moreover have "refused os lb r (on_qux (\<lambda>d. d\<lparr>cd_Generic := ''not-here''\<rparr>) ?wc)
      ''Unable to find device generic named: not-here''"
    by (rule refused [where e = "''Unable to find device generic named: not-here''"]) (simp add: dev)+
  moreover have "refused os lb r (on_qux (\<lambda>d. d\<lparr>cd_DeviceProtocol :=
      map_option (\<lambda>p. p\<lparr>cp_Type := ''unknown''\<rparr>) (cd_DeviceProtocol d)\<rparr>) ?wc) ''Unrecognized protocol type: unknown''"
    by (rule refused [where e = "''Error configuring device qux: '' @ ''Unrecognized protocol type: unknown''"])
      (simp add: dev Contains_prepend)+
  ultimately show ?thesis using assms(3) unfolding device_failures_def by auto
qed

text \<open>The data store is asked only after the other two are built.\<close>

definition fails :: "('e, 'a) action \<Rightarrow> string \<Rightarrow> bool" where
  "fails m expected \<longleftrightarrow> (\<forall>h. \<exists>e h'. m h = (Err e, h') \<and> Contains e expected)"

definition gives :: "('e, 'a) action \<Rightarrow> 'a \<Rightarrow> bool" where
  "gives m a \<longleftrightarrow> (\<forall>h. \<exists>h'. m h = (Ok a, h'))"

lemma fails_bind:
  assumes "fails m t"
  shows "fails (act_bind m f) t"
  unfolding fails_def
proof
  fix h
  obtain e h' where "m h = (Err e, h')" "Contains e t" using assms unfolding fails_def by blast
  then show "\<exists>e h'. act_bind m f h = (Err e, h') \<and> Contains e t" by (simp add: act_bind_def)
qed

lemma gives_bind:
  assumes "gives m a" "fails (f a) t"
  shows "fails (act_bind m f) t"
  unfolding fails_def
proof
  fix h
  obtain h1 where "m h = (Ok a, h1)" using assms(1) unfolding gives_def by blast
  then show "\<exists>e h'. act_bind m f h = (Err e, h') \<and> Contains e t"
    using assms(2) by (simp add: act_bind_def fails_def)
qed

lemma fails_err [simp]: "fails (act_err e) t = Contains e t"
  by (simp add: fails_def act_err_def)

lemma gives_ok [simp]: "gives (act_ok a) a"
  by (simp add: gives_def act_ok_def)

lemma fails_wrap:
  assumes "\<And>h. \<exists>e h'. m h = (Err e, h')" "\<And>e. Contains (f e) t"
  shows "fails (act_wrap f m) t"
  unfolding fails_def
proof
  fix h
  obtain e h' where "m h = (Err e, h')" using assms(1) by blast
  then show "\<exists>e h'. act_wrap f m h = (Err e, h') \<and> Contains e t" using assms(2) by (simp add: act_wrap_def)
qed

lemma data_store_refused:
  assumes "cron_Parse (lb_cron lb) ''0 0 * * * * *'' = Inr k" "valid_rng r" "\<not> c_Syslog c"
    and "c_JobStore c = c_JobStore (newWorkingConfig ctx)" "c_DeviceStore c = c_DeviceStore (newWorkingConfig ctx)"
    and "c_DataStore c = Some dst" "fails (NewDataStoreFromConfig os (lb_txt lb) (at ''data'' r) dst) expected"
  shows "refused os lb r c expected"
proof -
  obtain js ds where "c_JobStore (newWorkingConfig ctx) = Some js" "c_DeviceStore (newWorkingConfig ctx) = Some ds"
    using working_parts by blast
  then show ?thesis
    using refused_data [OF assms(3) _ _ assms(6)]
      working_jobs [OF assms(1) valid_rng_at [OF assms(2)]] working_devices [OF valid_rng_at [OF assms(2)]]
      assms(4,5,7) unfolding fails_def by metis
qed

text \<open>How far the validation of the git configuration gets.\<close>

lemma git_fails:
  assumes "fails (ValidateAndApplyDefaults os tx r g) t"
  shows "fails (NewDataStoreFromConfig os tx r \<lparr>cds_Type = ''git'', cds_DataStoreGit = Some g\<rparr>) t"
  using assms by (simp add: NewDataStoreFromConfig_def newGitDataStore_def fails_bind)

definition test_git :: "test_context \<Rightarrow> cfg_DataStoreGit" where
  "test_git ctx = the (cds_DataStoreGit (the (c_DataStore (newWorkingConfig ctx))))"

lemma git_structure_fails:
  assumes "cg_Url g \<noteq> []" "cg_Structure g = [''unknown'']"
  shows "fails (ValidateAndApplyDefaults os tx r g) ''Unrecognized git structure: unknown''"
  using assms
  by (auto simp: ValidateAndApplyDefaults_def apply_structure_def GitStructureByDevice_def GitStructureByJob_def intro!: fails_bind)

lemma git_directory_fails:
  assumes "cg_Url g \<noteq> []" "cg_Structure g = []" "cg_PoolSize g = 1" "cg_DataDir g \<noteq> []"
    and "\<And>h. an_err (os h (EvStat (cg_DataDir g))) \<noteq> None"
  shows "fails (ValidateAndApplyDefaults os tx r g) ''Failure obtaining git data directory''"
proof -
  have "fails (apply_dataDir os (g\<lparr>cg_Structure := [GitStructureByDevice]\<rparr>)) ''Failure obtaining git data directory''"
    unfolding fails_def
  proof
    fix h
    obtain e where "an_err (os h (EvStat (cg_DataDir g))) = Some e" using assms(5) [of h] by blast
    then show "\<exists>e h'. apply_dataDir os (g\<lparr>cg_Structure := [GitStructureByDevice]\<rparr>) h = (Err e, h') \<and>
        Contains e ''Failure obtaining git data directory''"
      using assms(4) Contains_append_left [of "''Failure obtaining git data directory''" "'' '' @ cg_DataDir g"]
      by (simp add: apply_dataDir_def act_bind_def ask_def act_err_def)
  qed
  then show ?thesis
    using assms(1-3) by (simp add: ValidateAndApplyDefaults_def apply_structure_def fails_bind)
qed

lemma git_user_fails:
  assumes "cg_Url g \<noteq> []" "cg_Structure g = []" "cg_PoolSize g = 1" "cg_DataDir g \<noteq> []"
    and "\<And>h. an_err (os h (EvStat (cg_DataDir g))) = None \<and> an_isDir (os h (EvStat (cg_DataDir g)))"
    and "fails (check_user tx g) t"
  shows "fails (ValidateAndApplyDefaults os tx r g) t"
proof -
  have "gives (apply_dataDir os (g\<lparr>cg_Structure := [GitStructureByDevice]\<rparr>)) (g\<lparr>cg_Structure := [GitStructureByDevice]\<rparr>)"
    using assms(4,5) by (simp add: apply_dataDir_def gives_def act_bind_def ask_def act_ok_def)
  moreover have "fails (check_user tx (g\<lparr>cg_Structure := [GitStructureByDevice]\<rparr>)) t"
    using assms(6) by (simp add: check_user_def)
  ultimately show ?thesis
    using assms(1-3) by (simp add: ValidateAndApplyDefaults_def apply_structure_def gives_bind fails_bind)
qed

lemma ls_remote_fails:
  assumes "\<And>h. an_err (os (h @ [EvStart [] None [''ls-remote'', url]]) EvWait) \<noteq> None"
  shows "\<exists>e h'. doGitCmd os r [] [] [] [] [''ls-remote'', url] h = (Err e, h')"
  using assms [of "h @ [EvPipe]"] by (auto simp: doGitCmd_def cmd_env_def prompt_def os_do_def act_bind_def ask_def act_ok_def act_err_def
      split: option.split)

lemma git_remote_fails:
  assumes "cg_Url g \<noteq> []" "cg_Structure g = []" "cg_PoolSize g = 1" "cg_DataDir g \<noteq> []"
    and "\<And>h. an_err (os h (EvStat (cg_DataDir g))) = None \<and> an_isDir (os h (EvStat (cg_DataDir g)))"
    and "gives (check_user tx g) ()" "username g = []" "password g = []"
    and "\<And>h. an_err (os (h @ [EvStart [] None [''ls-remote'', cg_Url g]]) EvWait) \<noteq> None"
  shows "fails (ValidateAndApplyDefaults os tx r g) ''Git repository validation using ls-remote failed''"
proof -
  let ?g = "g\<lparr>cg_Structure := [GitStructureByDevice]\<rparr>"
  have "gives (apply_dataDir os ?g) ?g"
    using assms(4,5) by (simp add: apply_dataDir_def gives_def act_bind_def ask_def act_ok_def)
  moreover have "gives (check_user tx ?g) ()" using assms(6) by (simp add: check_user_def)
  moreover have "username ?g = []" "password ?g = []" using assms(7,8) by (simp_all add: username_def password_def)
  moreover have "fails (act_wrap (\<lambda>err. ''Git repository validation using ls-remote failed to validate URL '' @ cg_Url g @
      '': '' @ err) (doGitCmd os r [] [] [] [] [''ls-remote'', cg_Url g])) ''Git repository validation using ls-remote failed''"
  proof (rule fails_wrap)
    show "\<exists>e h'. doGitCmd os r [] [] [] [] [''ls-remote'', cg_Url g] h = (Err e, h')" for h
      by (rule ls_remote_fails) (rule assms(9))
    show "Contains (''Git repository validation using ls-remote failed to validate URL '' @ cg_Url g @ '': '' @ e)
        ''Git repository validation using ls-remote failed''" for e
      using Contains_append_left [of "''Git repository validation using ls-remote failed''"
          "'' to validate URL '' @ cg_Url g @ '': '' @ e"] by simp
  qed
  ultimately show ?thesis
    using assms(1-3) by (simp add: ValidateAndApplyDefaults_def apply_structure_def gives_bind fails_bind)
qed

lemma git_config_refused:
  assumes "cron_Parse (lb_cron lb) ''0 0 * * * * *'' = Inr k" "valid_rng r"
    and "c = (newWorkingConfig ctx)\<lparr>c_DataStore := Some \<lparr>cds_Type = ''git'', cds_DataStoreGit = Some g\<rparr>\<rparr>"
    and "fails (ValidateAndApplyDefaults os (lb_txt lb) (at ''data'' r) g) t"
  shows "refused os lb r c t"
  by (rule data_store_refused [OF assms(1,2), where ctx = ctx, OF _ _ _ _ git_fails [OF assms(4)]])
    (simp_all add: assms(3) working_no_syslog)

lemma test_git_simps:
  "cg_Url (test_git ctx) = gitRepoDirectory ctx" "cg_Structure (test_git ctx) = []" "cg_PoolSize (test_git ctx) = 1"
  "cg_DataDir (test_git ctx) = gitPullDataDirectory ctx"
  "cg_DataStoreGitUser (test_git ctx) = Some \<lparr>cu_FriendlyName = ''John Doe'', cu_Email = ''jdoe@example.com'', cu_Name = [], cu_Pass = []\<rparr>"
  by (simp_all add: test_git_def newWorkingConfig_def)

lemma on_git_working:
  "on_git f (newWorkingConfig ctx) =
     (newWorkingConfig ctx)\<lparr>c_DataStore := Some \<lparr>cds_Type = ''git'', cds_DataStoreGit = Some (f (test_git ctx))\<rparr>\<rparr>"
  by (simp add: on_git_def on_data_def test_git_def newWorkingConfig_def)

lemma clean_elems_nonempty: "[] \<notin> set kept \<Longrightarrow> [] \<notin> set (clean_elems rooted kept es)"
  by (induction rooted kept es rule: clean_elems.induct) (auto split: list.split)

lemma join_nonempty: "es \<noteq> [] \<Longrightarrow> [] \<notin> set es \<Longrightarrow> join sep es \<noteq> []"
  by (induction sep es rule: join.induct) auto

lemma Clean_nonempty: "Clean p \<noteq> []"
  using clean_elems_nonempty [of "[]" False "split_slash p"] by (auto simp: Clean_def Let_def join_nonempty)

lemma path_Join_nonempty: "b \<noteq> [] \<Longrightarrow> path_Join [a, b] \<noteq> []"
  by (simp add: path_Join_def Clean_nonempty)

lemma data_refused:
  assumes "test_cron (lb_cron lb)" "test_mail (lb_txt lb)" "valid_rng r" "test_os ctx badgit os"
    and "(f, expected) \<in> set (data_failures ctx badgit)"
  shows "refused os lb r (f (newWorkingConfig ctx)) expected"
proof -
  let ?wc = "newWorkingConfig ctx" and ?g = "test_git ctx"
  obtain k where k: "cron_Parse (lb_cron lb) ''0 0 * * * * *'' = Inr k" using assms(1) by (auto simp: test_cron_def)
  note cfg = git_config_refused [OF k assms(3) on_git_working]
  have dirs: "gitRepoDirectory ctx \<noteq> []" "gitPullDataDirectory ctx \<noteq> []" "badgit \<noteq> []"
    "\<And>h. an_err (os h (EvStat (gitPullDataDirectory ctx))) = None \<and> an_isDir (os h (EvStat (gitPullDataDirectory ctx)))"
    "\<And>h. an_err (os h (EvStat (path_Join [tempDirectory ctx, ''notpresent'']))) \<noteq> None"
    "\<And>h. an_err (os (h @ [EvStart [] None [''ls-remote'', badgit]]) EvWait) \<noteq> None"
    using assms(4) unfolding test_os_def by blast+
  note mail = assms(2) [unfolded test_mail_def]
  obtain js ds where parts: "c_JobStore ?wc = Some js" "c_DeviceStore ?wc = Some ds" using working_parts by blast
  have 1: "refused os lb r (?wc\<lparr>c_DataStore := None\<rparr>) ''Data store configuration not found''"
    using working_jobs [OF k valid_rng_at [OF assms(3)] parts(1)] working_devices [OF valid_rng_at [OF assms(3)] parts(2)]
      working_no_syslog [of ctx]
    by (simp add: refused_def NewController_def new_loggers_def parts act_bind_def act_res_def act_ok_def act_err_def)
  have 2: "refused os lb r (on_data (\<lambda>d. d\<lparr>cds_Type := ''unknown''\<rparr>) ?wc) ''Unrecognized data store type: unknown''"
    by (rule data_store_refused [OF k assms(3), where ctx = ctx])
      (simp add: on_data_def newWorkingConfig_def NewDataStoreFromConfig_def)+
  have 3: "refused os lb r (on_git (\<lambda>g. g\<lparr>cg_Url := []\<rparr>) ?wc) ''Data store for git requires url''"
    by (rule cfg) (simp add: ValidateAndApplyDefaults_def)
  have 4: "refused os lb r (on_git (\<lambda>g. g\<lparr>cg_Structure := [''unknown'']\<rparr>) ?wc) ''Unrecognized git structure: unknown''"
    by (rule cfg, rule git_structure_fails) (simp_all add: test_git_simps dirs)
  have 5: "refused os lb r (on_git (\<lambda>g. g\<lparr>cg_DataDir := path_Join [tempDirectory ctx, ''notpresent'']\<rparr>) ?wc)
      ''Failure obtaining git data directory''"
    by (rule cfg, rule git_directory_fails) (use dirs(5) in \<open>simp_all add: test_git_simps dirs(1) path_Join_nonempty\<close>)
  have user: "refused os lb r (on_git_user u ?wc) t"
    if "fails (check_user (lb_txt lb) (?g\<lparr>cg_DataStoreGitUser := map_option u (cg_DataStoreGitUser ?g)\<rparr>)) t" for u t
    unfolding on_git_user_def
    by (rule cfg, rule git_user_fails) (use that dirs(4) in \<open>simp_all add: test_git_simps dirs(1,2)\<close>)
  obtain e where e: "tl_ParseAddress (lb_txt lb) ''invalidemail'' = Some e" using mail by blast
  have 6: "refused os lb r (on_git_user (\<lambda>u. u\<lparr>cu_Email := ''invalidemail''\<rparr>) ?wc) ''Invalid email for git user''"
    using Contains_append_left [of "''Invalid email for git user''" "'': '' @ e"]
    by (intro user) (simp add: test_git_simps check_user_def e fails_bind)
  have 7: "refused os lb r (on_git_user (\<lambda>u. u\<lparr>cu_Pass := ''somepass''\<rparr>) ?wc)
      ''If git password supplied, username must also be supplied''"
    using mail by (intro user) (simp add: test_git_simps check_user_def)
  have 8: "refused os lb r (on_git (\<lambda>g. g\<lparr>cg_Url := badgit\<rparr>) ?wc) ''Git repository validation using ls-remote failed''"
    by (rule cfg, rule git_remote_fails)
      (use dirs(4,6) mail in \<open>simp_all add: test_git_simps dirs(2,3) check_user_def username_def password_def\<close>)
  show ?thesis using 1 2 3 4 5 6 7 8 assms(5) unfolding data_failures_def by auto
qed

section \<open>The failing tests\<close>

lemma loads_config:
  assumes "json_Unmarshal dec bytes NewDefault = Ok conf" "HasSuffix f ''.json''"
    and "\<And>h. an_err (os h (EvStat f)) = None" "\<And>h. an_err (os h (EvReadFile f)) = None"
    and "\<And>h. an_text (os h (EvReadFile f)) = bytes"
  shows "gives (load_config os dec f) conf"
proof -
  have f: "f \<noteq> []" using assms(2) by (auto simp: HasSuffix_def)
  show ?thesis
    using f assms
    by (simp add: gives_def load_config_def NewFromFile_def format_of_def NewFromBytes_def newFromJSONBytes_def
        act_bind_def ask_def act_wrap_def act_res_def act_ok_def)
qed

lemma RunController_refused:
  assumes "refused os lb r conf expected" "json_Unmarshal dec bytes NewDefault = Ok conf" "HasSuffix f ''.json''"
    and "\<And>h. an_err (os h (EvStat f)) = None" "\<And>h. an_err (os h (EvReadFile f)) = None"
    and "\<And>h. an_text (os h (EvReadFile f)) = bytes"
  shows "fails (RunController os lb r dec f) expected"
proof -
  have "fails (act_wrap (\<lambda>err. ''Unable to start controller: '' @ err) (NewController os lb r conf)) expected"
    unfolding fails_def
  proof
    fix h
    obtain e h' where "NewController os lb r conf h = (Err e, h')" "Contains e expected"
      using assms(1) unfolding refused_def by blast
    then show "\<exists>e h'. act_wrap (\<lambda>err. ''Unable to start controller: '' @ err) (NewController os lb r conf) h = (Err e, h') \<and>
        Contains e expected"
      using Contains_prepend [of e expected "''Unable to start controller: ''"] by (simp add: act_wrap_def)
  qed
  then show ?thesis
    unfolding RunController_def by (intro gives_bind [OF loads_config [OF assms(2-6)]] fails_bind)
qed

text \<open>A command line that ends the program with an error: \<open>main\<close> prints it and exits with status 1.\<close>

definition fails_with :: "os \<Rightarrow> libs \<Rightarrow> rng \<Rightarrow> decoders \<Rightarrow> string list \<Rightarrow> string \<Rightarrow> bool" where
  "fails_with os lb r dec cmd e \<longleftrightarrow>
     (case main cmd of Err e' \<Rightarrow> e' = e
      | Ok (RunsController a) \<Rightarrow> fst (RunController os lb r dec (ca_config a) []) = Err e
      | _ \<Rightarrow> False)"

text \<open>
  The machine of the tests runs the program: files can be written, a command that fails prints
  its error and does not succeed.
\<close>

definition test_machine :: "test_env \<Rightarrow> string \<Rightarrow> os \<Rightarrow> libs \<Rightarrow> rng \<Rightarrow> decoders \<Rightarrow> bool" where
  "test_machine te tmp os lb r dec \<longleftrightarrow>
     (\<forall>h d p. ta_err (te h (TempFile d p)) = None \<and> ta_text (te h (TempFile d p)) = tmp) \<and>
     (\<forall>h bytes. ta_err (te h (WriteTo tmp bytes)) = None) \<and>
     (\<forall>h. ta_err (te h (RenameFile tmp (tmp @ ''.json''))) = None) \<and>
     (\<forall>h cmd e. fails_with os lb r dec cmd e \<longrightarrow>
        Contains (ta_text (te h (CombinedOutput [] cmd))) e \<and>
        ta_hasState (te (h @ [CombinedOutput [] cmd]) State) \<and> \<not> ta_success (te (h @ [CombinedOutput [] cmd]) State))"

lemma failing_command:
  assumes "test_machine te tmp os lb r dec" "fails_with os lb r dec (command_line cmd) e" "Contains e expected" "expected \<noteq> []"
    and "ec_Dir (fx_Cmd cmd) = []"
  shows "fst (conveyCommandFailure te cmd expected h) = Ok ()"
proof -
  let ?cmd = "command_line cmd"
  have m: "Contains (ta_text (te h (CombinedOutput [] ?cmd))) e" "ta_hasState (te (h @ [CombinedOutput [] ?cmd]) State)"
    "\<not> ta_success (te (h @ [CombinedOutput [] ?cmd]) State)"
    using assms(1,2) unfolding test_machine_def by blast+
  have c: "Contains (ta_text (te h (CombinedOutput [] ?cmd))) expected"
    using m(1) assms(3) unfolding Contains_iff by (metis append.assoc)
  then have "ta_text (te h (CombinedOutput [] ?cmd)) \<noteq> []" using assms(4) by auto
  with m(2,3) c assms(5) show ?thesis
    by (simp add: conveyCommandFailure_def External_CombinedOutput_def exec_output_def Success_def So_def act_bind_def ask_def act_ok_def)
qed

lemma config_command:
  "main (command_line (runFusty gl [''controller'', ''-config'', f])) = Ok (RunsController \<lparr>ca_config = f, ca_verbose = False\<rparr>)"
proof -
  have "parse_flags controller_flags [''-config'', f] controller_defaults =
      res_bind (set_flag controller_flags ''config'' f controller_defaults) (parse_flags controller_flags [])"
    using parse_flags_step [of "''config''" controller_flags f "[]" controller_defaults]
    by (simp add: plain_name_def controller_flags_def)
  then show ?thesis
    by (simp add: main_def run_simps Run_def parse_controller_def controller_flags_def set_flag_def controller_defaults_def)
qed

lemma written_config:
  assumes "test_machine te tmp os lb r dec" "json_Marshal enc conf = Inr bytes"
  shows "withTempConfig te enc ctx conf f h = f (tmp @ ''.json'') (h @ [TempFile (tempDirectory ctx) ''fusty-config'',
    WriteTo tmp bytes, CloseFile tmp, RenameFile tmp (tmp @ ''.json'')])"
  using assms
  by (simp add: test_machine_def withTempConfig_def writeConfigFile_def ToJSON_def act_bind_def act_finally_def ask_def
      act_ok_def So_def Let_def)

text \<open>The files under the name of the configuration file hold what was written there.\<close>

definition file_holds :: "os \<Rightarrow> string \<Rightarrow> string \<Rightarrow> bool" where
  "file_holds os f bytes \<longleftrightarrow> (\<forall>h. an_err (os h (EvStat f)) = None \<and> an_err (os h (EvReadFile f)) = None \<and>
     an_text (os h (EvReadFile f)) = bytes)"

definition config_failures :: "test_context \<Rightarrow> string \<Rightarrow> ((cfg_Config \<Rightarrow> cfg_Config) \<times> string) list" where
  "config_failures ctx badgit = job_failures @ device_failures @ data_failures ctx badgit"

lemma config_failures_texts: "(f, expected) \<in> set (config_failures ctx badgit) \<Longrightarrow> expected \<noteq> []"
  by (auto simp: config_failures_def job_failures_def device_failures_def data_failures_def)

lemma config_refused:
  assumes "test_cron (lb_cron lb)" "test_mail (lb_txt lb)" "valid_rng r" "test_os ctx badgit os"
    and "(change, expected) \<in> set (config_failures ctx badgit)"
  shows "refused os lb r (change (newWorkingConfig ctx)) expected"
  using assms(5) jobs_refused [OF assms(1,3)] devices_refused [OF assms(1,3)] data_refused [OF assms(1-4)]
  by (auto simp: config_failures_def)

text \<open>
  C31. The tests of failing configurations pass: each change the tests make to the working
  configuration is written to a file, the controller that is started with it ends with an error,
  and its output has the text that the test expects. This holds for every order in which the
  program visits its maps, for any operating system on which the directories of the test are
  there, and with a cron library that reports the two errors of the tests.
\<close>

theorem config_failure_tests_pass:
  assumes "test_cron (lb_cron lb)" and "test_mail (lb_txt lb)" and "valid_rng r" and "test_os ctx badgit os"
    and "(change, expected) \<in> set (config_failures ctx badgit)"
    and "test_machine te tmp os lb r dec"
    and "json_Marshal enc (change (newWorkingConfig ctx)) = Inr bytes"
    and "json_Unmarshal dec bytes NewDefault = Ok (change (newWorkingConfig ctx))"
    and "file_holds os (tmp @ ''.json'') bytes"
  shows "fst (withTempConfig te enc ctx (change (newWorkingConfig ctx))
    (\<lambda>f. conveyCommandFailure te (runFusty gl [''controller'', ''-config'', f]) expected) h) = Ok ()"
proof -
  let ?f = "tmp @ ''.json''"
  have holds: "an_err (os h (EvStat ?f)) = None" "an_err (os h (EvReadFile ?f)) = None"
    "an_text (os h (EvReadFile ?f)) = bytes" for h
    using assms(9) unfolding file_holds_def by blast+
  have "fails (RunController os lb r dec ?f) expected"
    by (rule RunController_refused [OF config_refused [OF assms(1-5)] assms(8) HasSuffix_append holds])
  then obtain e h' where e: "RunController os lb r dec ?f [] = (Err e, h')" "Contains e expected"
    unfolding fails_def by blast
  have "fails_with os lb r dec (command_line (runFusty gl [''controller'', ''-config'', ?f])) e"
    by (simp add: fails_with_def config_command e(1))
  from failing_command [OF assms(6) this e(2) config_failures_texts [OF assms(5)]]
  show ?thesis by (simp add: run_simps written_config [OF assms(6,7)])
qed

definition sample_ctx :: test_context where
  "sample_ctx = \<lparr>tempDirectory = ''/tmp'', gitRepoDirectory = ''/repo'', gitPullDataDirectory = ''/pull'', ctx_verbose = False\<rparr>"

definition sample_machine_os :: os where
  "sample_machine_os h ev =
     (let fine = \<lparr>an_err = None, an_notExist = False, an_isDir = True, an_text = ''ok'', an_list = []\<rparr>
      in if ev = EvStat ''/tmp/notpresent'' then fine\<lparr>an_err := Some ''no such file or directory'', an_notExist := True\<rparr>
         else if ev = EvWait \<and> h \<noteq> [] \<and> last h = EvStart [] None [''ls-remote'', ''/bad''] then fine\<lparr>an_err := Some ''exit status 128''\<rparr>
         else fine)"

definition sample_test_cron :: cron_lib where
  "sample_test_cron = \<lparr>cron_Parse = (\<lambda>s. if s = ''blah'' then Inl ''missing field(s)''
       else if s = ''0 30 * * * *'' then Inl hour_error else Inr (length s)),
     cron_Next = (\<lambda>e t. GoTime (nanos t + int e * second))\<rparr>"

definition sample_test_libs :: libs where
  "sample_test_libs = \<lparr>lb_cron = sample_test_cron, lb_re = sample_re,
     lb_txt = sample_txt\<lparr>tl_ParseAddress := (\<lambda>s. if s = ''invalidemail'' then Some ''missing phrase'' else None)\<rparr>,
     lb_clock = sample_clock\<rparr>"

definition no_jobs_conf :: cfg_Config where
  "no_jobs_conf = (newWorkingConfig sample_ctx)\<lparr>c_JobStore := None\<rparr>"

definition sample_dec :: decoders where
  "sample_dec = \<lparr>json_Unmarshal = (\<lambda>bytes c. Ok no_jobs_conf), toml_Unmarshal = (\<lambda>bytes c. Err ''toml''),
     yaml_Unmarshal = (\<lambda>bytes c. Err ''yaml''), hcl_Decode = (\<lambda>bytes c. Err ''hcl'')\<rparr>"

definition sample_enc :: encoders where
  "sample_enc = \<lparr>json_Marshal = (\<lambda>c. Inr ''ok''), json_MarshalIndent = (\<lambda>c. Inr ''ok'')\<rparr>"

text \<open>A machine that prints what a failing command line ends with.\<close>

definition sample_output :: "string list \<Rightarrow> string" where
  "sample_output cmd =
     (case main cmd of Err e \<Rightarrow> e
      | Ok (RunsController a) \<Rightarrow>
          (case fst (RunController sample_machine_os sample_test_libs (\<lambda>p ks. ks) sample_dec (ca_config a) []) of
             Err e \<Rightarrow> e | _ \<Rightarrow> [])
      | _ \<Rightarrow> [])"

definition sample_te :: test_env where
  "sample_te h ev =
     \<lparr>ta_err = None,
      ta_text = (case ev of CombinedOutput d cmd \<Rightarrow> sample_output cmd | TempFile d p \<Rightarrow> ''/tmp/fusty-config1'' | _ \<Rightarrow> []),
      ta_status = 200, ta_hasProcess = True, ta_hasState = True, ta_exited = True, ta_success = False\<rparr>"

lemma sample_machine:
  "test_machine sample_te ''/tmp/fusty-config1'' sample_machine_os sample_test_libs (\<lambda>p ks. ks) sample_dec"
proof -
  have "Contains (sample_output cmd) e" if "fails_with sample_machine_os sample_test_libs (\<lambda>p ks. ks) sample_dec cmd e" for cmd e
    using that by (auto simp: fails_with_def sample_output_def split: res.splits command.splits)
  then show ?thesis by (simp add: test_machine_def sample_te_def)
qed

lemma sample_test_os: "test_os sample_ctx ''/bad'' sample_machine_os"
proof -
  have "path_Join [''/tmp'', ''notpresent''] = ''/tmp/notpresent''"
    by (simp add: path_Join_def Clean_def Let_def)
  then show ?thesis by (simp add: test_os_def sample_ctx_def sample_machine_os_def)
qed

theorem config_failure_tests_pass_witness:
  "fst (withTempConfig sample_te sample_enc sample_ctx no_jobs_conf
    (\<lambda>f. conveyCommandFailure sample_te
       (runFusty \<lparr>baseDirectory = ''/src'', globalTempDirectory = ''/tmp'', coverageEnabled = False\<rparr> [''controller'', ''-config'', f])
       ''Job store configuration not found'') []) = Ok ()"
proof -
  let ?change = "\<lambda>c. c\<lparr>c_JobStore := None\<rparr>"
  have "test_cron (lb_cron sample_test_libs)" "test_mail (lb_txt sample_test_libs)"
    by (simp_all add: test_cron_def test_mail_def sample_test_libs_def sample_test_cron_def)
  moreover have "(?change, ''Job store configuration not found'') \<in> set (config_failures sample_ctx ''/bad'')"
    by (simp add: config_failures_def job_failures_def)
  moreover have "file_holds sample_machine_os (''/tmp/fusty-config1'' @ ''.json'') ''ok''"
    by (simp add: file_holds_def sample_machine_os_def)
  ultimately show ?thesis
    using config_failure_tests_pass [OF _ _ valid_rng_id sample_test_os _ sample_machine, of _ _ sample_enc "''ok''"]
    by (simp add: no_jobs_conf_def sample_enc_def sample_dec_def)
qed

section \<open>The working configuration\<close>

lemma runs_then:
  "runs (\<lambda>a. a = b) xs m \<Longrightarrow> runs Q ys (f b) \<Longrightarrow> runs Q (xs @ ys) (act_bind m f)"
  by (rule runs_bind [where Q = "\<lambda>a. a = b"]) simp_all

definition working_git :: "test_context \<Rightarrow> cfg_DataStoreGit" where
  "working_git ctx = (test_git ctx)\<lparr>cg_Structure := [GitStructureByDevice]\<rparr>"

lemma working_git_validates:
  assumes "os_fine os" "\<And>h. an_isDir (os h (EvStat (gitPullDataDirectory ctx)))" "test_mail tx"
    and "gitRepoDirectory ctx \<noteq> []" "gitPullDataDirectory ctx \<noteq> []"
  shows "runs (\<lambda>c. c = working_git ctx) ([] @ [Git [] [''ls-remote'', gitRepoDirectory ctx]])
    (ValidateAndApplyDefaults os tx r (test_git ctx))"
proof -
  have d: "runs (\<lambda>c. c = working_git ctx) [] (apply_dataDir os (working_git ctx))"
    using assms(1,2,5)
    by (simp add: runs_def apply_dataDir_def working_git_def test_git_simps os_fine_def act_bind_def ask_def act_ok_def)
  have u: "check_user tx (working_git ctx) = act_ok ()"
    using assms(3) by (simp add: check_user_def working_git_def test_git_simps test_mail_def)
  have names: "username (working_git ctx) = []" "password (working_git ctx) = []" "cg_Url (working_git ctx) = gitRepoDirectory ctx"
    by (simp_all add: working_git_def test_git_simps username_def password_def)
  have "runs (\<lambda>c. c = working_git ctx) [Git [] [''ls-remote'', gitRepoDirectory ctx]]
      (act_bind (act_wrap w (doGitCmd os r [] [] [] [] [''ls-remote'', gitRepoDirectory ctx])) (\<lambda>_. act_ok (working_git ctx)))" for w
    by (rule runs_bind [OF runs_wrap [OF runs_doGitCmd [OF assms(1)]], of _ "[]", simplified]) (rule runs_ok, simp)
  from runs_then [OF d, of _ _ "\<lambda>c. act_bind (check_user tx c) (\<lambda>_. act_bind (act_wrap (\<lambda>err.
      ''Git repository validation using ls-remote failed to validate URL '' @ cg_Url c @ '': '' @ err)
      (doGitCmd os r [] (username c) (password c) [] [''ls-remote'', cg_Url c])) (\<lambda>_. act_ok c))", OF _] this
  show ?thesis
    using assms(4) by (simp add: ValidateAndApplyDefaults_def apply_structure_def test_git_simps u names working_git_def [symmetric])
qed

lemma working_data_store:
  assumes "os_fine os" "\<And>h. an_isDir (os h (EvStat (gitPullDataDirectory ctx)))" "test_mail tx"
    and "gitRepoDirectory ctx \<noteq> []" "gitPullDataDirectory ctx \<noteq> []" "c_DataStore (newWorkingConfig ctx) = Some dst"
  shows "\<exists>h'. NewDataStoreFromConfig os tx r dst h = (Ok (working_git ctx, [pool_worker (working_git ctx) 0]), h')"
proof -
  let ?c = "working_git ctx"
  obtain h1 where v: "ValidateAndApplyDefaults os tx r (test_git ctx) h = (Ok ?c, h1)"
    using working_git_validates [OF assms(1-5)] by (rule runsE [where h = h]) blast
  have "runs (\<lambda>_. True) (concat (map (\<lambda>g. [Git (gw_dir g) [''reset'', ''--hard'']] @ [Git (gw_dir g) [''pull'']]) [pool_worker ?c 0]))
      (act_each (initialize os r) [pool_worker ?c 0])"
    by (rule runs_each) (rule runs_initialize [OF assms(1)])
  then obtain h' where "act_each (initialize os r) [pool_worker ?c 0] h1 = (Ok (), h')"
    by (rule runsE [where h = h1]) simp
  moreover have "map (pool_worker ?c) [0..<nat (cg_PoolSize ?c)] = [pool_worker ?c 0]"
    by (simp add: working_git_def test_git_simps)
  moreover have "dst = \<lparr>cds_Type = ''git'', cds_DataStoreGit = Some (test_git ctx)\<rparr>"
    using assms(6) by (auto simp: test_git_def newWorkingConfig_def)
  ultimately show ?thesis
    using v by (simp add: NewDataStoreFromConfig_def newGitDataStore_def act_bind_def Let_def act_ok_def del: act_each.simps)
qed

text \<open>A controller for the data store of the working configuration, from the stores it is given.\<close>

lemma backup_controller:
  assumes "\<not> c_Syslog conf" "c_JobStore conf = Some js" "c_DeviceStore conf = Some ds"
    and "c_DataStore conf = c_DataStore (newWorkingConfig ctx)"
    and "NewJobStoreFromConfig (lb_cron lb) (lb_re lb) (at ''jobs'' r) js = Ok st"
    and "NewDeviceStoreFromConfig (lb_cron lb) (lb_re lb) (at ''devices'' r) ds (AllJobs st) = Ok dv"
    and "test_mail (lb_txt lb)" "os_fine os" "\<And>h. an_isDir (os h (EvStat (gitPullDataDirectory ctx)))"
    and "gitRepoDirectory ctx \<noteq> []" "gitPullDataDirectory ctx \<noteq> []"
  shows "\<exists>c h'. NewController os lb r conf h = (Ok c, h') \<and> co_DeviceStore c = dv \<and>
    co_DataStore c = (working_git ctx, [pool_worker (working_git ctx) 0]) \<and>
    co_Scheduler c = NewLocalScheduler (at ''scheduler'' r) (lb_clock lb) (AllDevices dv) \<and>
    co_JobStore c = st \<and> co_conf c = conf \<and> \<not> co_started c"
proof -
  obtain dst where dst: "c_DataStore (newWorkingConfig ctx) = Some dst" by (simp add: newWorkingConfig_def)
  obtain h' where "NewDataStoreFromConfig os (lb_txt lb) (at ''data'' r) dst h =
      (Ok (working_git ctx, [pool_worker (working_git ctx) 0]), h')"
    using working_data_store [OF assms(8,9,7,10,11) dst] by blast
  then show ?thesis
    using assms(1-6) by (simp add: NewController_def new_loggers_def dst act_bind_def act_res_def act_wrap_def act_ok_def)
qed

lemma working_controller:
  assumes "cron_Parse (lb_cron lb) ''0 0 * * * * *'' = Inr k" "test_mail (lb_txt lb)" "valid_rng r" "os_fine os"
    and "\<And>h. an_isDir (os h (EvStat (gitPullDataDirectory ctx)))"
    and "gitRepoDirectory ctx \<noteq> []" "gitPullDataDirectory ctx \<noteq> []"
  shows "\<exists>c h'. NewController os lb r (newWorkingConfig ctx) h = (Ok c, h') \<and>
    AllJobs (co_JobStore c) = [(''bar'', test_bar k)] \<and> AllDevices (co_DeviceStore c) = [(''qux'', test_qux)] \<and>
    co_DataStore c = (working_git ctx, [pool_worker (working_git ctx) 0]) \<and>
    co_conf c = newWorkingConfig ctx \<and> \<not> co_started c"
proof -
  let ?wc = "newWorkingConfig ctx"
  obtain js ds where js: "c_JobStore ?wc = Some js" "c_DeviceStore ?wc = Some ds" using working_parts by blast
  show ?thesis
    using backup_controller [OF working_no_syslog js refl working_jobs [OF assms(1) valid_rng_at [OF assms(3)] js(1)]
        working_devices [OF valid_rng_at [OF assms(3)] js(2)] assms(2,4-7), of h]
    by (auto simp: AllJobs_def AllDevices_def)
qed

lemma working_address: "listen_address (newWorkingConfig ctx) = ''127.0.0.1'' @ '':'' @ Itoa 9400"
  by (simp add: listen_address_def newWorkingConfig_def)



end
