(* ===== verification/Test_Checks.thy ===== *)
theory Test_Checks
  imports Test_Results
begin

text \<open>
  What the harness of the integration tests runs and checks (integration/util.go), against the
  model of the program: the command lines it starts, how long it waits, and that its assertion
  about the last commit holds of what a pool worker commits.
\<close>

section \<open>Command lines\<close>

lemma parse_bool_flag:
  assumes "plain_name k" "fs_is_bool fs k = Some True"
  shows "parse_flags fs ((''-'' @ k) # rest) c = res_bind (set_flag fs k ''true'' c) (parse_flags fs rest)"
proof -
  obtain a as where k: "k = a # as" "a \<noteq> CHR ''-''" "a \<noteq> CHR ''=''" using assms(1) by (cases k) (auto simp: plain_name_def)
  have "flag_name (''-'' @ k) = k" "is_flag (''-'' @ k)" "''-'' @ k \<noteq> ''--''"
    using k by (auto simp: flag_name_def is_flag_def)
  then show ?thesis
    using assms(2) split_value_plain [OF assms(1)] k by (simp add: Let_def)
qed

definition verbose_args :: "test_context \<Rightarrow> string list" where
  "verbose_args ctx = (if ctx_verbose ctx then [''-verbose''] else [])"

lemma parse_controller_command:
  "main (command_line (runFusty gl (controller_command ctx f))) = Ok (RunsController \<lparr>ca_config = f, ca_verbose = ctx_verbose ctx\<rparr>)"
proof -
  have 1: "parse_flags controller_flags (''-config'' # f # rest) c =
      res_bind (set_flag controller_flags ''config'' f c) (parse_flags controller_flags rest)" for rest c
    using parse_flags_step [of "''config''" controller_flags f rest c]
    by (simp add: plain_name_def controller_flags_def)
  have 2: "parse_flags controller_flags [''-verbose''] c =
      res_bind (set_flag controller_flags ''verbose'' ''true'' c) (parse_flags controller_flags [])" for c
    using parse_bool_flag [of "''verbose''" controller_flags "[]" c]
    by (simp add: plain_name_def controller_flags_def)
  have 3: "set_flag controller_flags ''config'' f c = Ok (c\<lparr>ca_config := f\<rparr>)"
    "set_flag controller_flags ''verbose'' ''true'' c = Ok (c\<lparr>ca_verbose := True\<rparr>)" for c
    by (simp_all add: set_flag_def controller_flags_def ParseBool_def)
  show ?thesis
    by (simp add: controller_command_def main_def run_simps Run_def parse_controller_def 1 2 3 controller_defaults_def
        del: parse_flags.simps(2))
qed

definition harness_worker :: "test_context \<Rightarrow> worker_args" where
  "harness_worker ctx = worker_defaults
     \<lparr>wa_conf := (wa_conf worker_defaults)\<lparr>wc_SleepSeconds := 1200, wc_MaxJobs := 1\<rparr>, wa_verbose := ctx_verbose ctx\<rparr>"

lemma parse_worker_command:
  "main (command_line (runFusty gl ([''worker'', ''-controller'', ''http://127.0.0.1:9400'', ''-sleep'', ''1200'',
     ''-maxjobs'', ''1''] @ verbose_args ctx))) = Ok (RunsWorker (harness_worker ctx))"
proof -
  have 1: "parse_flags worker_flags ((''-'' @ k) # v # rest) c = res_bind (set_flag worker_flags k v c) (parse_flags worker_flags rest)"
    if "k \<in> {''controller'', ''sleep'', ''maxjobs''}" for k v rest c
    using that by (intro parse_flags_step) (auto simp: plain_name_def worker_flags_def worker_flag_kind_def)
  have 2: "parse_flags worker_flags [''-verbose''] c = res_bind (set_flag worker_flags ''verbose'' ''true'' c) (parse_flags worker_flags [])" for c
    using parse_bool_flag [of "''verbose''" worker_flags "[]" c]
    by (simp add: plain_name_def worker_flags_def worker_flag_kind_def)
  have 3: "ParseInt ''1200'' = Some 1200" "ParseInt ''1'' = Some 1"
    by (simp_all add: ParseInt_def base_and_digits_def digit_value_def Let_def)
  have 4: "set_flag worker_flags ''controller'' v c = Ok (c\<lparr>wa_conf := (wa_conf c)\<lparr>wc_ControllerUrl := v\<rparr>\<rparr>)"
    "set_flag worker_flags ''sleep'' ''1200'' c = Ok (c\<lparr>wa_conf := (wa_conf c)\<lparr>wc_SleepSeconds := 1200\<rparr>\<rparr>)"
    "set_flag worker_flags ''maxjobs'' ''1'' c = Ok (c\<lparr>wa_conf := (wa_conf c)\<lparr>wc_MaxJobs := 1\<rparr>\<rparr>)"
    "set_flag worker_flags ''verbose'' ''true'' c = Ok (c\<lparr>wa_verbose := True\<rparr>)" for v c
    by (simp_all add: set_flag_def worker_flags_def set_worker_flag_def Let_def ParseBool_def 3)
  show ?thesis
    using 1 [of "''controller''"] 1 [of "''sleep''"] 1 [of "''maxjobs''"]
    by (simp add: main_def run_simps Run_def parse_worker_def verbose_args_def 2 4 worker_defaults_def harness_worker_def
        del: parse_flags.simps(2))
qed

lemma harness_worker_command:
  "fst (startWorkerInBackground te gl ctx h) = Ok cmd \<Longrightarrow> main (command_line cmd) = Ok (RunsWorker (harness_worker ctx))"
  using parse_worker_command [of gl ctx]
  by (auto simp: startWorkerInBackground_def startWorkerInBackgroundWithArgs_def RunAndStreamOutput_def verbose_args_def
      act_bind_def ask_def act_ok_def Let_def)

section \<open>Waiting\<close>

definition waited :: "test_event list \<Rightarrow> nat" where
  "waited evs = length (filter (\<lambda>ev. ev = SleepSecond) evs)"

lemma waited_simps [simp]:
  "waited [] = 0" "waited (ev # evs) = (if ev = SleepSecond then 1 else 0) + waited evs"
  "waited (xs @ ys) = waited xs + waited ys"
  by (simp_all add: waited_def)

text \<open>A process is seen to have exited, within the seconds allowed.\<close>

lemma wait_rounds_run:
  "\<exists>b evs. wait_rounds te n h = (Ok b, h @ evs) \<and> waited evs \<le> n \<and>
     (b \<longrightarrow> (\<exists>pre. h @ evs = pre @ [State] \<and> ta_hasState (te pre State) \<and> ta_exited (te pre State)))"
proof (induction n arbitrary: h)
  case 0
  show ?case by (intro exI [of _ False] exI [of _ "[]"]) (simp add: act_ok_def)
next
  case (Suc n)
  let ?pre = "h @ [SleepSecond]" and ?h = "h @ [SleepSecond, State]"
  show ?case
  proof (cases "ta_hasState (te ?pre State) \<and> ta_exited (te ?pre State)")
    case True
    then show ?thesis
      by (intro exI [of _ True] exI [of _ "[SleepSecond, State]"])
        (simp add: Exited_def act_bind_def ask_def act_ok_def exI [of _ ?pre])
  next
    case False
    obtain b evs where "wait_rounds te n ?h = (Ok b, ?h @ evs)" "waited evs \<le> n"
      "b \<longrightarrow> (\<exists>pre. ?h @ evs = pre @ [State] \<and> ta_hasState (te pre State) \<and> ta_exited (te pre State))"
      using Suc.IH [of ?h] by blast
    with False show ?thesis
      by (intro exI [of _ b] exI [of _ "[SleepSecond, State] @ evs"]) (auto simp: Exited_def act_bind_def ask_def act_ok_def)
  qed
qed

text \<open>\<open>Wait\<close> returns within its bound, without an error only after the process has exited.\<close>

lemma Wait_bounded:
  "\<exists>out evs. Wait te n h = (out, h @ evs) \<and> \<not> is_panic out \<and> waited evs \<le> nat n \<and>
     (out = Ok () \<longrightarrow> (\<exists>pre. h @ evs = pre @ [State] \<and> ta_hasState (te pre State) \<and> ta_exited (te pre State)))"
proof -
  obtain b evs where "wait_rounds te (nat n) h = (Ok b, h @ evs)" "waited evs \<le> nat n"
    "b \<longrightarrow> (\<exists>pre. h @ evs = pre @ [State] \<and> ta_hasState (te pre State) \<and> ta_exited (te pre State))"
    using wait_rounds_run by blast
  then show ?thesis by (cases b) (auto simp: Wait_def act_bind_def act_ok_def act_err_def)
qed

definition answered :: "test_env \<Rightarrow> string \<Rightarrow> test_event list \<Rightarrow> bool" where
  "answered te url h \<longleftrightarrow> (\<exists>pre post. h = pre @ GetUrl url # post \<and> ta_err (te pre (GetUrl url)) = None \<and>
     ta_status (te pre (GetUrl url)) = 200)"

lemma answered_append: "answered te url h \<Longrightarrow> answered te url (h @ evs)"
  unfolding answered_def by force

lemma ping_rounds_run:
  "\<exists>b evs. ping_rounds te url n h = (Ok b, h @ evs) \<and> waited evs \<le> n \<and> (b \<longrightarrow> answered te url (h @ evs))"
proof (induction n arbitrary: h)
  case 0
  show ?case by (intro exI [of _ False] exI [of _ "[]"]) (simp add: act_ok_def)
next
  case (Suc n)
  let ?pre = "h @ [SleepSecond]" and ?h = "h @ [SleepSecond, GetUrl url]"
  show ?case
  proof (cases "ta_err (te ?pre (GetUrl url)) = None \<and> ta_status (te ?pre (GetUrl url)) = 200")
    case True
    then have "answered te url ?h" unfolding answered_def by (intro exI [of _ ?pre] exI [of _ "[]"]) simp
    with True show ?thesis
      by (intro exI [of _ True] exI [of _ "[SleepSecond, GetUrl url]"]) (simp add: act_bind_def ask_def act_ok_def)
  next
    case False
    obtain b evs where "ping_rounds te url n ?h = (Ok b, ?h @ evs)" "waited evs \<le> n" "b \<longrightarrow> answered te url (?h @ evs)"
      using Suc.IH [of ?h] by blast
    with False show ?thesis
      by (intro exI [of _ b] exI [of _ "[SleepSecond, GetUrl url] @ evs"]) (auto simp: act_bind_def ask_def act_ok_def)
  qed
qed

lemma writeConfigFile_waited:
  "writeConfigFile te enc ctx conf h = (out, h') \<Longrightarrow> \<exists>evs. h' = h @ evs \<and> waited evs = 0"
  by (auto simp: writeConfigFile_def act_bind_def act_finally_def ask_def act_ok_def Let_def
      split: option.splits sum.splits)

text \<open>
  A controller that is started to be up has answered a ping within five seconds; the comment in
  the code speaks of ten.
\<close>

lemma startController_up:
  assumes "startControllerInBackground te enc gl ctx conf True h = (Ok cmd, h')"
  shows "\<exists>f evs. main (command_line cmd) = Ok (RunsController \<lparr>ca_config = f, ca_verbose = ctx_verbose ctx\<rparr>) \<and> h' = h @ evs \<and>
    waited evs \<le> 5 \<and> answered te (ping_url conf) h'"
proof -
  let ?h0 = "h @ [OnReset]"
  obtain f err h1 where w: "writeConfigFile te enc ctx conf ?h0 = (Ok (f, err), h1)"
    using assms by (auto simp: startControllerInBackground_def act_bind_Ok ask_def)
  let ?cmd = "runFusty gl (controller_command ctx f)"
  let ?h2 = "h1 @ [InBackground \<lparr>sw_prefix = ''Controller out: ''\<rparr> (command_line ?cmd)]"
  obtain b evs where p: "ping_rounds te (ping_url conf) 5 ?h2 = (Ok b, ?h2 @ evs)" "waited evs \<le> 5"
    "b \<longrightarrow> answered te (ping_url conf) (?h2 @ evs)"
    using ping_rounds_run by blast
  obtain evs1 where e1: "h1 = ?h0 @ evs1" "waited evs1 = 0" using writeConfigFile_waited [OF w] by blast
  have "b \<and> cmd = ?cmd \<and> h' = ?h2 @ evs @ [State]"
    using assms w p(1)
    by (cases b) (auto simp: startControllerInBackground_def RunAndStreamOutput_def Exited_def So_def act_bind_Ok ask_def
        act_ok_def act_panic_def Let_def split: if_splits)
  then show ?thesis
    using parse_controller_command [of gl ctx f] e1 p(2,3) answered_append [of te _ "?h2 @ evs" "[State]"] by simp
qed

section \<open>The assertion about a commit\<close>

text \<open>What a clone shows of its last commit.\<close>

record commit_view =
  cv_author :: string
  cv_email :: string
  cv_message :: string
  cv_files :: "(string \<times> string) list"

fun is_file :: "effect \<Rightarrow> bool" where
  "is_file (File p c) = True"
| "is_file (Git d args) = False"

text \<open>The effects of a worker that end in this commit, with these files written.\<close>

definition committed :: "gitWorker \<Rightarrow> effect list \<Rightarrow> commit_view \<Rightarrow> bool" where
  "committed g xs v \<longleftrightarrow>
     (\<exists>pre. xs = pre @ [Git (gw_dir g) [''commit'', ''--allow-empty'', ''-m'', cv_message v,
        ''--author'', cv_author v @ '' <'' @ cv_email v @ ''>'']]) \<and>
     filter is_file xs = map (\<lambda>(p, c). File (path_Join [gw_dir g, p]) c) (cv_files v)"

definition prints :: "test_answer \<Rightarrow> string \<Rightarrow> bool" where
  "prints a s \<longleftrightarrow> ta_err a = None \<and> TrimSpace (ta_text a) = TrimSpace s"

text \<open>The commands of the assertion show the commit, up to space around the output.\<close>

definition clone_shows :: "test_env \<Rightarrow> test_context \<Rightarrow> string \<Rightarrow> commit_view \<Rightarrow> bool" where
  "clone_shows te ctx dir v \<longleftrightarrow>
     (\<forall>h. ta_err (te h (TempDir (tempDirectory ctx) ''git-assert-temp'')) = None \<and>
        ta_text (te h (TempDir (tempDirectory ctx) ''git-assert-temp'')) = dir) \<and>
     (\<forall>h. ta_err (te h (MakeDirs dir)) = None) \<and>
     (\<forall>h. ta_err (te h (CombinedOutput dir [''git'', ''clone'', gitRepoDirectory ctx, dir])) = None) \<and>
     (\<forall>h. prints (te h (CombinedOutput dir [''git'', ''log'', ''-1'', ''--pretty=%an''])) (cv_author v)) \<and>
     (\<forall>h. prints (te h (CombinedOutput dir [''git'', ''log'', ''-1'', ''--pretty=%ae''])) (cv_email v)) \<and>
     (\<forall>h. prints (te h (CombinedOutput dir [''git'', ''log'', ''-1'', ''--pretty=%B''])) (cv_message v)) \<and>
     (\<forall>h. prints (te h (CombinedOutput dir [''git'', ''diff-tree'', ''--no-commit-id'', ''--name-only'', ''-r'', ''HEAD'']))
        (join newline (map fst (cv_files v)))) \<and>
     (\<forall>h. \<forall>(p, c) \<in> set (cv_files v). ta_err (te h (ReadBytes (path_Join [dir, p]))) = None \<and>
        ta_text (te h (ReadBytes (path_Join [dir, p]))) = c)"

lemma dropWhile_space: "P \<noteq> [] \<Longrightarrow> \<not> is_space (hd P) \<Longrightarrow> dropWhile is_space (P @ r) = P @ r"
  by (cases P) auto

lemma TrimSpace_keeps:
  assumes "P \<noteq> []" "\<not> is_space (hd P)" "\<not> is_space (last P)"
  shows "\<exists>w. TrimSpace (P @ rest) = P @ w"
proof -
  have 2: "dropWhile is_space (rev P) = rev P"
    using dropWhile_space [of "rev P" "[]"] assms(1,3) by (simp add: hd_rev)
  have "\<exists>w. dropWhile is_space (rev rest @ rev P) = w @ rev P"
  proof (cases "\<forall>c \<in> set (rev rest). is_space c")
    case True
    then have "dropWhile is_space (rev rest @ rev P) = dropWhile is_space (rev P)" by (intro dropWhile_append2) blast
    then show ?thesis using 2 by (intro exI [of _ "[]"]) simp
  next
    case False
    then obtain c where "c \<in> set (rev rest)" "\<not> is_space c" by blast
    then have "dropWhile is_space (rev rest @ rev P) = dropWhile is_space (rev rest) @ rev P" by (rule dropWhile_append1)
    then show ?thesis by (rule exI)
  qed
  then obtain w where "dropWhile is_space (rev (P @ rest)) = w @ rev P" by auto
  then have "TrimSpace (P @ rest) = P @ rev w" unfolding TrimSpace_def dropWhile_space [OF assms(1,2)] by simp
  then show ?thesis by blast
qed

lemma TrimSpace_plain: "P \<noteq> [] \<Longrightarrow> \<not> is_space (hd P) \<Longrightarrow> \<not> is_space (last P) \<Longrightarrow> TrimSpace P = P"
  using dropWhile_space [of P "[]"] dropWhile_space [of "rev P" "[]"] by (simp add: TrimSpace_def hd_rev)

lemma Split_single: "c \<notin> set s \<Longrightarrow> Split s c = [s]"
  by (induction s) auto

lemma Contains_piece: "p \<in> set ps \<Longrightarrow> Contains (concat ps) p"
  by (auto dest!: split_list intro: ContainsI)

lemma assert_comment_passes:
  assumes "ga_job g = dsj_JobName j" "ga_device g = dsj_DeviceName j"
  shows "assert_comment g (TrimSpace (commit_message tx j)) h = (Ok (), h)"
proof -
  let ?P = "[''* '', ''Job: '' @ dsj_JobName j @ newline, ''* '', ''Device: '' @ dsj_DeviceName j @ newline,
     ''* '', ''Expected Run Date:'', '' '' @ tl_ANSIC tx (dsj_JobTime j) @ newline @ ''* '',
     ''Start Date:'', '' '' @ tl_ANSIC tx (dsj_StartTime j) @ newline @ ''* '',
     ''End On:'', '' '' @ tl_ANSIC tx (dsj_EndTime j) @ newline @ ''* '', ''Elapsed Time:'']"
  obtain rest where r: "commit_message tx j = concat ?P @ rest" by (simp add: commit_message_def)
  have "\<exists>w. TrimSpace (concat ?P @ rest) = concat ?P @ w"
    by (rule TrimSpace_keeps) (simp_all add: is_space_def)
  then obtain w where "TrimSpace (commit_message tx j) = concat (?P @ [w])" by (auto simp: r)
  moreover have "Contains (concat (?P @ [w])) p"
    if "p \<in> {''Job: '' @ dsj_JobName j @ newline, ''Device: '' @ dsj_DeviceName j @ newline, ''Expected Run Date:'',
      ''Start Date:'', ''End On:'', ''Elapsed Time:''}" for p
    by (rule Contains_piece) (use that in auto)
  ultimately show ?thesis
    using assms by (simp add: assert_comment_def So_def act_bind_def act_ok_def del: concat.simps)
qed

lemma must_ok: "ta_err (te h ev) = None \<Longrightarrow> must te ev h = (Ok (te h ev), h @ [ev])"
  by (simp add: must_def So_def act_bind_def ask_def act_ok_def)

lemma runInDir_ok: "ta_err (te h (CombinedOutput dir cmd)) = None \<Longrightarrow>
    runInDir te dir cmd h = (Ok (TrimSpace (ta_text (te h (CombinedOutput dir cmd)))), h @ [CombinedOutput dir cmd])"
  by (simp add: runInDir_def exec_output_def exec_Command_def So_def act_bind_def ask_def act_ok_def)

lemma bind_ok: "m h = (Ok a, h1) \<Longrightarrow> act_bind m f h = f a h1"
  by (simp add: act_bind_def)

lemma bind_So: "b \<Longrightarrow> act_bind (So b) f h = f () h"
  by (simp add: So_def act_bind_def act_ok_def)

lemma prints_run: "prints (te h (CombinedOutput dir cmd)) s \<Longrightarrow> TrimSpace s = t \<Longrightarrow>
    runInDir te dir cmd h = (Ok t, h @ [CombinedOutput dir cmd])"
  by (simp add: prints_def runInDir_ok)

lemma assertValid_passes:
  assumes "clone_shows te ctx dir v" "cv_author v = ''John Doe''" "cv_email v = ''jdoe@example.com''"
    and "cv_message v = commit_message tx j" "ga_job g = dsj_JobName j" "ga_device g = dsj_DeviceName j"
    and "cv_files v = [(p, c)]" "ga_filesUpdated g = [p]" "TrimSpace p = p" "CHR 0x0A \<notin> set p"
    and "Contains (crlf_to_lf c) (crlf_to_lf (ga_fileContents g))"
  shows "fst (assertValid te ctx g h) = Ok ()"
proof -
  note sh = assms(1) [unfolded clone_shows_def]
  have 1: "ta_err (te h (TempDir (tempDirectory ctx) ''git-assert-temp'')) = None"
    "ta_text (te h (TempDir (tempDirectory ctx) ''git-assert-temp'')) = dir" "ta_err (te h (MakeDirs dir)) = None"
    "ta_err (te h (CombinedOutput dir [''git'', ''clone'', gitRepoDirectory ctx, dir])) = None" for h
    using sh by blast+
  have 2: "prints (te h (CombinedOutput dir [''git'', ''log'', ''-1'', ''--pretty=%an''])) (cv_author v)"
    "prints (te h (CombinedOutput dir [''git'', ''log'', ''-1'', ''--pretty=%ae''])) (cv_email v)"
    "prints (te h (CombinedOutput dir [''git'', ''log'', ''-1'', ''--pretty=%B''])) (cv_message v)"
    "prints (te h (CombinedOutput dir [''git'', ''diff-tree'', ''--no-commit-id'', ''--name-only'', ''-r'', ''HEAD'']))
        (join newline (map fst (cv_files v)))" for h
    using sh by blast+
  have 3: "ta_err (te h (ReadBytes (path_Join [dir, p]))) = None" "ta_text (te h (ReadBytes (path_Join [dir, p]))) = c" for h
    using sh assms(7) by simp_all
  have t: "TrimSpace (cv_author v) = ''John Doe''" "TrimSpace (cv_email v) = ''jdoe@example.com''"
    "TrimSpace (join newline (map fst (cv_files v))) = p"
    using assms(2,3,7,9) by (simp_all add: TrimSpace_plain is_space_def)
  have run: "runInDir te dir [''git'', ''log'', ''-1'', ''--pretty=%an''] h =
        (Ok ''John Doe'', h @ [CombinedOutput dir [''git'', ''log'', ''-1'', ''--pretty=%an'']])"
    "runInDir te dir [''git'', ''log'', ''-1'', ''--pretty=%ae''] h =
        (Ok ''jdoe@example.com'', h @ [CombinedOutput dir [''git'', ''log'', ''-1'', ''--pretty=%ae'']])"
    "runInDir te dir [''git'', ''log'', ''-1'', ''--pretty=%B''] h =
        (Ok (TrimSpace (cv_message v)), h @ [CombinedOutput dir [''git'', ''log'', ''-1'', ''--pretty=%B'']])"
    "runInDir te dir [''git'', ''diff-tree'', ''--no-commit-id'', ''--name-only'', ''-r'', ''HEAD''] h =
        (Ok p, h @ [CombinedOutput dir [''git'', ''diff-tree'', ''--no-commit-id'', ''--name-only'', ''-r'', ''HEAD'']])" for h
    by (rule prints_run, rule 2, rule t refl)+
  note comment = assert_comment_passes [OF assms(5,6), of tx, folded assms(4)]
  show ?thesis
    unfolding assertValid_def Let_def
    apply (subst bind_ok, rule must_ok, rule 1)
    apply (simp only: 1)
    apply (subst bind_ok, rule must_ok, rule 1)
    apply (subst bind_ok, rule runInDir_ok, rule 1)
    apply (subst bind_ok, rule run, subst bind_So, rule refl)
    apply (subst bind_ok, rule run, subst bind_So, rule refl)
    apply (subst bind_ok, rule run, subst bind_ok, rule comment)
    apply (subst bind_ok, rule run)
    using assms(8,10,11) 3
    apply (simp add: Split_single must_ok So_def act_bind_def act_ok_def)
    done
qed

definition no_space :: "string \<Rightarrow> bool" where
  "no_space s \<longleftrightarrow> (\<forall>c \<in> set s. \<not> is_space c)"

text \<open>The commit of a result under the working configuration.\<close>

definition working_commit :: "text_lib \<Rightarrow> DataStoreJob \<Rightarrow> commit_view" where
  "working_commit tx j =
     \<lparr>cv_author = ''John Doe'', cv_email = ''jdoe@example.com'', cv_message = commit_message tx j,
      cv_files = [(''by_device/'' @ dsj_DeviceName j @ ''/'' @ dsj_JobName j, dsj_Contents j)]\<rparr>"

lemma commit_committed:
  assumes "gw_conf g = working_git ctx" "dsj_Contents j \<noteq> []"
  shows "committed g (commit_script tx g j) (working_commit tx j)"
  using assms
  by (simp add: committed_def commit_script_def write_script_def working_git_def test_git_simps author_args_def
      structure_path_def GitStructureByDevice_def working_commit_def)

text \<open>A commit of a result with contents under the working configuration, and the assertion about it.\<close>

lemma commit_checked:
  assumes "os_fine os" and "gw_conf g = working_git ctx" and "dsj_Contents j \<noteq> []"
    and "no_space (dsj_DeviceName j)" and "no_space (dsj_JobName j)"
    and "Contains (crlf_to_lf (dsj_Contents j)) (crlf_to_lf expected)"
  shows "\<exists>h' xs. commitJob os tx r g j h = (Ok (), h') \<and> effects h' = effects h @ xs \<and> committed g xs (working_commit tx j) \<and>
    (\<forall>te dir h2. clone_shows te ctx dir (working_commit tx j) \<longrightarrow>
      fst (assertValid te ctx \<lparr>ga_job = dsj_JobName j, ga_device = dsj_DeviceName j,
        ga_filesUpdated = [''by_device/'' @ dsj_DeviceName j @ ''/'' @ dsj_JobName j], ga_fileContents = expected\<rparr> h2) = Ok ())"
proof -
  let ?p = "''by_device/'' @ dsj_DeviceName j @ ''/'' @ dsj_JobName j"
  have "set (cg_Structure (gw_conf g)) \<subseteq> {GitStructureByDevice, GitStructureByJob}"
    by (simp add: assms(2) working_git_def)
  from runs_commitJob [OF assms(1) this, of tx j r]
  obtain h' where h': "commitJob os tx r g j h = (Ok (), h')" "effects h' = effects h @ commit_script tx g j"
    by (rule runsE [where h = h]) simp
  have p: "no_space ?p" using assms(4,5) by (auto simp: no_space_def is_space_def)
  have "last ?p \<in> set ?p" by (rule last_in_set) simp
  then have "TrimSpace ?p = ?p"
    using p by (intro TrimSpace_plain) (auto simp: no_space_def is_space_def)
  moreover have "CHR 0x0A \<notin> set ?p" using p by (auto simp: no_space_def is_space_def)
  ultimately have "fst (assertValid te ctx \<lparr>ga_job = dsj_JobName j, ga_device = dsj_DeviceName j,
      ga_filesUpdated = [?p], ga_fileContents = expected\<rparr> h2) = Ok ()" if "clone_shows te ctx dir (working_commit tx j)" for te dir h2
    by (intro assertValid_passes [OF that, of tx j _ ?p "dsj_Contents j"]) (simp_all add: assms(6) working_commit_def)
  then show ?thesis using h' commit_committed [OF assms(2,3), of tx] by blast
qed


definition sample_clone :: test_env where
  "sample_clone h ev =
     \<lparr>ta_err = None,
      ta_text = (case ev of
          TempDir d p \<Rightarrow> ''/tmp/clone''
        | CombinedOutput d cmd \<Rightarrow>
            (if last cmd = ''--pretty=%an'' then ''John Doe'' @ newline
             else if last cmd = ''--pretty=%ae'' then ''jdoe@example.com'' @ newline
             else if last cmd = ''--pretty=%B'' then commit_message sample_txt (sample_result ''cfg'' 60)
             else ''by_device/qux/bar'' @ newline)
        | ReadBytes f \<Rightarrow> ''cfg''
        | _ \<Rightarrow> []),
      ta_status = 0, ta_hasProcess = True, ta_hasState = True, ta_exited = True, ta_success = True\<rparr>"

lemma sample_clone_shows: "clone_shows sample_clone sample_ctx ''/tmp/clone'' (working_commit sample_txt (sample_result ''cfg'' 60))"
  by (simp add: clone_shows_def sample_clone_def working_commit_def prints_def TrimSpace_def is_space_def newline_def
      sample_result_def)


end
