(* ===== verification/Test_Cli.thy ===== *)
theory Test_Cli
  imports Test_Checks Worker_Access
begin

text \<open>
  The remaining tests of command lines: the two of integration/controller_cli_failure_test.go
  that need no configuration, and integration/http_auth_test.go, which starts controllers and
  workers with and without credentials and looks at how they end.
\<close>

section \<open>Command lines that fail at once\<close>

definition plain_failures :: "test_globals \<Rightarrow> (string list \<times> string) list" where
  "plain_failures gl =
     [([''controller'', ''thisisnotconfig''], ''only accepts config''),
      ([''controller'', ''-config'', path_Join [baseDirectory gl, ''doesnotexist.json'']], ''Cannot find config file'')]"

lemma missing_config:
  assumes "an_err (os [] (EvStat f)) \<noteq> None" "an_notExist (os [] (EvStat f))" "f \<noteq> []"
  shows "fst (RunController os lb r dec f []) = Err (''Cannot find config file: '' @ f)"
  using assms by (auto simp: RunController_def load_config_def act_bind_def ask_def act_ok_def act_err_def)

theorem plain_failure_tests_pass:
  assumes "test_machine te tmp os lb r dec" and "(args, expected) \<in> set (plain_failures gl)"
    and "f = path_Join [baseDirectory gl, ''doesnotexist.json'']"
    and "an_err (os [] (EvStat f)) \<noteq> None" and "an_notExist (os [] (EvStat f))"
  shows "fst (conveyCommandFailure te (runFusty gl args) expected h) = Ok ()"
proof -
  have f: "f \<noteq> []" unfolding assms(3) by (rule path_Join_nonempty) simp
  have 1: "fails_with os lb r dec (command_line (runFusty gl [''controller'', ''thisisnotconfig'']))
      ''Controller only accepts config and/or verbose arguments at most''"
    by (simp add: fails_with_def main_def run_simps Run_def parse_controller_def is_flag_def)
  have 2: "fails_with os lb r dec (command_line (runFusty gl [''controller'', ''-config'', f])) (''Cannot find config file: '' @ f)"
    by (simp add: fails_with_def config_command missing_config [of os f, OF assms(4,5) f])
  have c: "Contains ''Controller only accepts config and/or verbose arguments at most'' ''only accepts config''"
    by (rule ContainsI [of _ "''Controller ''" _ "'' and/or verbose arguments at most''"]) simp
  have d: "ec_Dir (fx_Cmd (runFusty gl args)) = []" for args by (simp add: run_simps)
  show ?thesis
    using assms(2) failing_command [OF assms(1) 1 c _ d, of h] failing_command [OF assms(1) 2 _ _ d, of "''Cannot find config file''" h]
      Contains_append_left [of "''Cannot find config file''" "'': '' @ f"]
    by (auto simp: plain_failures_def assms(3))
qed
section \<open>Programs in the background\<close>

text \<open>How a command line ends: a controller or a worker that cannot start reports why.\<close>

definition ends_with :: "os \<Rightarrow> libs \<Rightarrow> rng \<Rightarrow> decoders \<Rightarrow> outside \<Rightarrow> wk_lib \<Rightarrow> string list \<Rightarrow> string \<Rightarrow> bool" where
  "ends_with os lb r dec out lib cmd e \<longleftrightarrow>
     (case main cmd of
        Err e' \<Rightarrow> e' = e
      | Ok (RunsController a) \<Rightarrow> fst (RunController os lb r dec (ca_config a) []) = Err e
      | Ok (RunsWorker a) \<Rightarrow> fst (RunWorker out lib (wa_conf a) []) = Err e
      | Panic p \<Rightarrow> False)"

text \<open>The machine: a program that ends has done so a second later, and its output has the error.\<close>

definition background :: "test_env \<Rightarrow> (string list \<Rightarrow> string \<Rightarrow> bool) \<Rightarrow> bool" where
  "background te ends \<longleftrightarrow> (\<forall>h w cmd e evs. ends cmd e \<and> SleepSecond \<in> set evs \<longrightarrow>
     (let h' = h @ [InBackground w cmd] @ evs in
      ta_hasState (te h' State) \<and> ta_exited (te h' State) \<and> \<not> ta_success (te h' State) \<and>
      Contains (ta_text (te h' Streamed)) e))"

text \<open>\<open>So(cmd.Wait(n), ShouldBeNil)\<close>, then the checks of a failure.\<close>

definition fails_to_run :: "test_env \<Rightarrow> int \<Rightarrow> string \<Rightarrow> unit test" where
  "fails_to_run te n expected =
     act_bind (\<lambda>h. case Wait te n h of (Err e, h') \<Rightarrow> So False h' | res \<Rightarrow> res) (\<lambda>_.
     act_bind (Success te) (\<lambda>ok.
     act_bind (So (\<not> ok)) (\<lambda>_.
     act_bind (StreamedOutput te) (\<lambda>out. So (Contains out expected)))))"

lemma fails_to_run_passes:
  assumes "background te ends" "ends cmd e" "Contains e expected" "0 < n"
  shows "fst (fails_to_run te n expected (h @ [InBackground w cmd])) = Ok ()"
proof -
  let ?h = "h @ [InBackground w cmd]"
  have b: "ta_hasState (te (?h @ evs) State)" "ta_exited (te (?h @ evs) State)" "\<not> ta_success (te (?h @ evs) State)"
    "Contains (ta_text (te (?h @ evs) Streamed)) e" if "SleepSecond \<in> set evs" for evs
    using assms(1,2) that unfolding background_def Let_def by (metis append.assoc)+
  obtain m where m: "nat n = Suc m" using assms(4) by (cases "nat n") auto
  have w: "Wait te n ?h = (Ok (), ?h @ [SleepSecond, State])"
    using b(1,2) [of "[SleepSecond]"]
    by (simp add: Wait_def m Exited_def act_bind_def ask_def act_ok_def)
  have "Contains (ta_text (te (?h @ [SleepSecond, State, State]) Streamed)) expected"
    using b(4) [of "[SleepSecond, State, State]"] assms(3) unfolding Contains_iff by (metis append.assoc list.set_intros(1))
  then show ?thesis
    using b(1,3) [of "[SleepSecond, State]"] w
    by (simp add: fails_to_run_def Success_def StreamedOutput_def So_def act_bind_def ask_def act_ok_def)
qed

section \<open>Credentials\<close>

text \<open>A controller with only a user or only a password does not start.\<close>

definition half_credentials :: "(cfg_Config \<Rightarrow> cfg_Config) list" where
  "half_credentials = [\<lambda>c. c\<lparr>c_Username := ''someuser''\<rparr>, \<lambda>c. c\<lparr>c_Password := ''somepass''\<rparr>]"

lemma half_credentials_fail:
  assumes "cron_Parse (lb_cron lb) ''0 0 * * * * *'' = Inr k" "test_mail (lb_txt lb)" "valid_rng r" "os_fine os"
    and "\<And>h. an_isDir (os h (EvStat (gitPullDataDirectory ctx)))"
    and "gitRepoDirectory ctx \<noteq> []" "gitPullDataDirectory ctx \<noteq> []" "change \<in> set half_credentials"
    and "json_Unmarshal dec bytes NewDefault = Ok (change (newWorkingConfig ctx))" "HasSuffix f ''.json''" "file_holds os f bytes"
  shows "fails (RunController os lb r dec f) ''Username and password must be supplied together''"
proof -
  let ?wc = "newWorkingConfig ctx" and ?c = "change (newWorkingConfig ctx)"
  have same: "c_Syslog ?c = c_Syslog ?wc" "c_JobStore ?c = c_JobStore ?wc" "c_DeviceStore ?c = c_DeviceStore ?wc"
    "c_DataStore ?c = c_DataStore ?wc" "(c_Username ?c = []) \<noteq> (c_Password ?c = [])"
    using assms(8) by (auto simp: half_credentials_def newWorkingConfig_def)
  obtain js ds where js: "c_JobStore ?wc = Some js" "c_DeviceStore ?wc = Some ds" using working_parts by blast
  let ?W = "\<lambda>err. ''Unable to start controller: '' @ err" and ?e = "''Username and password must be supplied together''"
  have "fails (act_bind (act_wrap ?W (NewController os lb r ?c)) (\<lambda>cont. act_wrap ?W (Start os cont))) ?e"
    unfolding fails_def
  proof
    fix h
    obtain c h' where "NewController os lb r ?c h = (Ok c, h')" "co_conf c = ?c" "\<not> co_started c"
      using backup_controller [of ?c js ds ctx, unfolded same, OF working_no_syslog js refl
          working_jobs [OF assms(1) valid_rng_at [OF assms(3)] js(1)]
          working_devices [OF valid_rng_at [OF assms(3)] js(2)] assms(2,4-7), of h] by blast
    then show "\<exists>e h'. act_bind (act_wrap ?W (NewController os lb r ?c)) (\<lambda>cont. act_wrap ?W (Start os cont)) h = (Err e, h') \<and>
        Contains e ?e"
      using same(5) Contains_prepend [OF Contains_self, of "''Unable to start controller: ''" ?e]
      by (simp add: act_bind_def act_wrap_def Start_def act_err_def)
  qed
  moreover have "gives (load_config os dec f) ?c"
    by (rule loads_config [OF assms(9,10)]) (use assms(11) in \<open>auto simp: file_holds_def\<close>)
  ultimately show ?thesis unfolding RunController_def by (rule gives_bind [rotated])
qed

lemma started_controller:
  assumes "test_machine te tmp os lb r dec" "json_Marshal enc conf = Inr bytes" "json_MarshalIndent enc conf = Inr pretty"
  shows "startControllerInBackground te enc gl ctx conf False h =
    (Ok (runFusty gl (controller_command ctx (tmp @ ''.json''))),
     h @ [OnReset, TempFile (tempDirectory ctx) ''fusty-config'', WriteTo tmp bytes, CloseFile tmp,
       RenameFile tmp (tmp @ ''.json''),
       InBackground \<lparr>sw_prefix = ''Controller out: ''\<rparr> (command_line (runFusty gl (controller_command ctx (tmp @ ''.json''))))])"
  using assms
  by (simp add: test_machine_def startControllerInBackground_def writeConfigFile_def ToJSON_def RunAndStreamOutput_def
      act_bind_def act_finally_def ask_def act_ok_def So_def Let_def)

text \<open>
  The tests of half credentials pass: the controller started with only a user or only a password
  ends within the five seconds, without success and with the text that the test expects.
\<close>

theorem half_credentials_tests_pass:
  assumes "cron_Parse (lb_cron lb) ''0 0 * * * * *'' = Inr k" and "test_mail (lb_txt lb)" and "valid_rng r" and "os_fine os"
    and "\<And>h. an_isDir (os h (EvStat (gitPullDataDirectory ctx)))"
    and "gitRepoDirectory ctx \<noteq> []" and "gitPullDataDirectory ctx \<noteq> []" and "change \<in> set half_credentials"
    and "test_machine te tmp os lb r dec" and "background te (ends_with os lb r dec out lib)"
    and "json_Marshal enc (change (newWorkingConfig ctx)) = Inr bytes"
    and "json_MarshalIndent enc (change (newWorkingConfig ctx)) = Inr pretty"
    and "json_Unmarshal dec bytes NewDefault = Ok (change (newWorkingConfig ctx))" and "file_holds os (tmp @ ''.json'') bytes"
  shows "fst (act_bind (startControllerInBackground te enc gl ctx (change (newWorkingConfig ctx)) False)
    (\<lambda>cont. fails_to_run te 5 ''Username and password must be supplied together'') h) = Ok ()"
proof -
  let ?f = "tmp @ ''.json''" and ?e = "''Username and password must be supplied together''"
  have "fails (RunController os lb r dec ?f) ?e"
    by (rule half_credentials_fail [OF assms(1-8,13) HasSuffix_append assms(14)])
  then obtain e h' where e: "RunController os lb r dec ?f [] = (Err e, h')" "Contains e ?e"
    unfolding fails_def by blast
  have "ends_with os lb r dec out lib (command_line (runFusty gl (controller_command ctx ?f))) e"
    by (simp add: ends_with_def parse_controller_command e(1))
  from fails_to_run_passes [OF assms(10) this e(2), of 5 "h @ [OnReset, TempFile (tempDirectory ctx) ''fusty-config'',
      WriteTo tmp bytes, CloseFile tmp, RenameFile tmp ?f]" "\<lparr>sw_prefix = ''Controller out: ''\<rparr>"]
  show ?thesis by (simp add: act_bind_def started_controller [OF assms(9,11,12)])
qed

text \<open>
  The tests of credentials of a worker pass: a worker whose URL does not have the controller's
  credentials ends, and its output has the status of its ping.
\<close>

lemma parse_worker_url:
  "main (command_line (runFusty gl ([''worker'', ''-controller'', url] @ verbose_args ctx))) =
     Ok (RunsWorker (worker_defaults\<lparr>wa_conf := (wa_conf worker_defaults)\<lparr>wc_ControllerUrl := url\<rparr>, wa_verbose := ctx_verbose ctx\<rparr>))"
proof -
  have 1: "parse_flags worker_flags (''-controller'' # v # rest) c =
      res_bind (set_flag worker_flags ''controller'' v c) (parse_flags worker_flags rest)" for v rest c
    using parse_flags_step [of "''controller''" worker_flags v rest c]
    by (simp add: plain_name_def worker_flags_def worker_flag_kind_def)
  have 2: "parse_flags worker_flags [''-verbose''] c = res_bind (set_flag worker_flags ''verbose'' ''true'' c) (parse_flags worker_flags [])" for c
    using parse_bool_flag [of "''verbose''" worker_flags "[]" c]
    by (simp add: plain_name_def worker_flags_def worker_flag_kind_def)
  have 3: "set_flag worker_flags ''controller'' v c = Ok (c\<lparr>wa_conf := (wa_conf c)\<lparr>wc_ControllerUrl := v\<rparr>\<rparr>)"
    "set_flag worker_flags ''verbose'' ''true'' c = Ok (c\<lparr>wa_verbose := True\<rparr>)" for v c
    by (simp_all add: set_flag_def worker_flags_def set_worker_flag_def Let_def ParseBool_def)
  show ?thesis
    by (simp add: main_def run_simps Run_def parse_worker_def verbose_args_def 1 2 3 worker_defaults_def
        del: parse_flags.simps(2))
qed

theorem refused_worker_tests_pass:
  assumes "url_Parse lib url = Inr scheme" and "scheme \<noteq> []" and "url \<noteq> []"
    and "ping = TrimRight url (CHR ''/'') @ ''/worker/ping''"
    and "basic_codec cl (web_BasicAuth web) ping" and "pings out cl web conf st ping"
    and "\<not> admitted conf (hc_Userinfo cl ping)"
    and "background te (ends_with os lb r dec out lib)"
  shows "fst (act_bind (startWorkerInBackgroundWithArgs te gl ctx [''-controller'', url])
    (\<lambda>worker. fails_to_run te 5 (''Bad status from /worker/ping: '' @ (if c_Username conf \<noteq> [] then ''401'' else ''403''))) h) = Ok ()"
proof -
  let ?cmd = "command_line (runFusty gl ([''worker'', ''-controller'', url] @ verbose_args ctx))"
  let ?w = "(wa_conf worker_defaults)\<lparr>wc_ControllerUrl := url\<rparr>"
  let ?s = "''Bad status from /worker/ping: '' @ (if c_Username conf \<noteq> [] then ''401'' else ''403'')"
  have "fst (RunWorker out lib ?w []) = Err (''Unable to start worker: '' @ ?s)"
    using worker_start [of lib ?w scheme ping cl web out conf st "[]"] assms(1-7)
    by (simp add: worker_defaults_def)
  then have "ends_with os lb r dec out lib ?cmd (''Unable to start worker: '' @ ?s)"
    by (simp only: ends_with_def parse_worker_url) (simp add: worker_defaults_def)
  from fails_to_run_passes [OF assms(8) this Contains_prepend [OF Contains_self], of 5 "h @ [OnReset]" "\<lparr>sw_prefix = ''Worker out: ''\<rparr>"]
  show ?thesis
    by (simp add: startWorkerInBackgroundWithArgs_def RunAndStreamOutput_def act_bind_def ask_def act_ok_def Let_def verbose_args_def)
qed

end
