(* ===== verification/Test_Ssh.thy ===== *)
theory Test_Ssh
  imports Test_Checks Execution_Properties Worker_Api
begin

text \<open>
  The test of a backup over SSH (integration/simple_ssh_test.go), end to end: from the
  configuration it starts the controller with, through the run of the job on a device that
  prints a file, to the commit and the assertion about it.
\<close>

section \<open>The configuration\<close>

definition vm_prompt :: string where
  "vm_prompt = ''vagrant@linux-vm:''"

definition no_file :: string where
  "no_file = ''No such file or directory''"

definition show_command :: string where
  "show_command = ''cat /vagrant/sample-config.txt''"

definition original :: string where
  "original = ''multilink bundle-name authenticated''"

definition linux_vm_base :: cfg_Device where
  "linux_vm_base = zero_Device\<lparr>cd_Host := ''127.0.0.1'',
     cd_DeviceProtocol := Some \<lparr>cp_Type = ''ssh'',
       cp_DeviceProtocolSsh = Some \<lparr>cps_Port = 3222, cps_IncludeCbcCiphers = False\<rparr>\<rparr>,
     cd_DeviceCredentials := Some \<lparr>ccr_User = ''vagrant'', ccr_Pass = ''vagrant''\<rparr>\<rparr>"

definition linux_vm_job :: cfg_Job where
  "linux_vm_job = zero_Job\<lparr>cj_CommandGeneric := Some (zero_JobCommand
     \<lparr>cc_Expect := [vm_prompt], cc_ExpectNot := [no_file], cc_Timeout := Some 20\<rparr>)\<rparr>"

definition show_config :: cfg_Job where
  "show_config = zero_Job
     \<lparr>cj_Generic := ''linux_vm_job'',
      cj_JobSchedule := Some (zero_JobSchedule\<lparr>cs_Cron := ''*/3 * * * * * *''\<rparr>),
      cj_Commands := [Some (zero_JobCommand\<lparr>cc_Command := show_command\<rparr>)],
      cj_Scrubbers := [Some \<lparr>csc_Type = ''simple'', csc_Search = original,
        csc_Replace = ''multilink bundle-name {{replace_authenticated}}''\<rparr>],
      cj_TemplateValues := [(''replace_authenticated'', ''job-level'')]\<rparr>"

definition ssh_jobs :: cfg_JobStoreLocal where
  "ssh_jobs = \<lparr>cjl_JobGenerics = [(''linux_vm_job'', Some linux_vm_job)], cjl_Jobs = [(''show_config'', Some show_config)]\<rparr>"

definition local_linux_vm :: cfg_Device where
  "local_linux_vm = zero_Device
     \<lparr>cd_Generic := ''linux_vm_base'',
      cd_Jobs := [(''show_config'', Some (zero_Job
        \<lparr>cj_TemplateValues := [(''replace_authenticated'', ''device-level'')]\<rparr>))]\<rparr>"

definition ssh_devices :: cfg_DeviceStoreLocal where
  "ssh_devices = \<lparr>cdl_DeviceGenerics = [(''linux_vm_base'', Some linux_vm_base)],
     cdl_Devices = [(''local_linux_vm'', Some local_linux_vm)]\<rparr>"

definition ssh_config :: "test_context \<Rightarrow> cfg_Config" where
  "ssh_config ctx = on_local_jobs (\<lambda>_. ssh_jobs) (on_devices (\<lambda>ds. ds
     \<lparr>cdvs_DeviceStoreLocal := map_option (\<lambda>_. ssh_devices) (cdvs_DeviceStoreLocal ds)\<rparr>) (newWorkingConfig ctx))"

section \<open>The controller\<close>

definition ssh_cmd :: CommandSetCommand where
  "ssh_cmd = \<lparr>cmd_Command = show_command, cmd_Expect = [''.*'' @ vm_prompt @ ''.*''],
     cmd_ExpectNot = [''.*'' @ no_file @ ''.*''], cmd_Timeout = 20, cmd_ImplicitEnter = True\<rparr>"

text \<open>The job in the job store, and the job of the device, with its own template value.\<close>

definition stored_ssh_job :: "cronexpr \<Rightarrow> Job" where
  "stored_ssh_job k =
     \<lparr>job_Name = ''show_config'',
      job_CommandSet = Some \<lparr>cset_Generic = Some (NewDefaultCommandSetCommand
          \<lparr>cmd_Expect := [''.*'' @ vm_prompt @ ''.*''], cmd_ExpectNot := [''.*'' @ no_file @ ''.*''], cmd_Timeout := 20\<rparr>),
        cset_Commands = [ssh_cmd]\<rparr>,
      job_FileSet = None, job_Schedule = Some \<lparr>originalString = ''*/3 * * * * * *'', expr = k\<rparr>,
      job_Scrubbers = [\<lparr>scr_Type = ''simple'', scr_Search = original,
        scr_Replace = ''multilink bundle-name {{replace_authenticated}}''\<rparr>],
      job_TemplateValues = [(''replace_authenticated'', ''job-level'')]\<rparr>"

definition replacement :: string where
  "replacement = ''multilink bundle-name device-level''"

definition ssh_job :: "cronexpr \<Rightarrow> Job" where
  "ssh_job k =
     \<lparr>job_Name = ''show_config'', job_CommandSet = Some \<lparr>cset_Generic = None, cset_Commands = [ssh_cmd]\<rparr>,
      job_FileSet = None, job_Schedule = Some \<lparr>originalString = ''*/3 * * * * * *'', expr = k\<rparr>,
      job_Scrubbers = [\<lparr>scr_Type = ''simple'', scr_Search = original, scr_Replace = replacement\<rparr>],
      job_TemplateValues = [(''replace_authenticated'', ''device-level'')]\<rparr>"

definition ssh_device :: "cronexpr \<Rightarrow> Device" where
  "ssh_device k =
     \<lparr>dev_Name = ''local_linux_vm'', dev_Host = ''127.0.0.1'',
      dev_DeviceCredentials = Some \<lparr>cred_User = ''vagrant'', cred_Pass = ''vagrant''\<rparr>,
      dev_DeviceProtocol = Some \<lparr>dp_Type = ''ssh'',
        dp_SshDeviceProtocol = Some \<lparr>ssh_Port = 3222, ssh_IncludeCbcCiphers = False\<rparr>\<rparr>,
      dev_Tags = [], dev_Jobs = [(''show_config'', ssh_job k)]\<rparr>"

definition ssh_libs :: "libs \<Rightarrow> cronexpr \<Rightarrow> bool" where
  "ssh_libs lb k \<longleftrightarrow> cron_Parse (lb_cron lb) ''*/3 * * * * * *'' = Inr k \<and>
     lb_re lb (''.*'' @ vm_prompt @ ''.*'') = None \<and> lb_re lb (''.*'' @ no_file @ ''.*'') = None \<and> test_mail (lb_txt lb)"

lemmas ssh_text_defs = vm_prompt_def no_file_def show_command_def original_def replacement_def

lemma sanitized:
  "sanitizeRegex vm_prompt = ''.*'' @ vm_prompt @ ''.*''" "sanitizeRegex no_file = ''.*'' @ no_file @ ''.*''"
  by (simp_all add: sanitizeRegex_def vm_prompt_def no_file_def HasPrefix_def HasSuffix_def)

lemma ssh_command:
  "CommandSetCommand_ApplyConfig (CommandSetCommand_DeepCopy (CommandSetCommand_ApplyConfig NewDefaultCommandSetCommand
     (zero_JobCommand\<lparr>cc_Expect := [vm_prompt], cc_ExpectNot := [no_file], cc_Timeout := Some 20\<rparr>)))
     (zero_JobCommand\<lparr>cc_Command := show_command\<rparr>) = ssh_cmd"
  by (simp add: CommandSetCommand_ApplyConfig_def CommandSetCommand_DeepCopy_def NewDefaultCommandSetCommand_def
      zero_JobCommand_def sanitized ssh_cmd_def show_command_def)

lemma ssh_command_valid:
  "ssh_libs lb k \<Longrightarrow> CommandSet_Validate (lb_re lb) \<lparr>cset_Generic = g, cset_Commands = [ssh_cmd]\<rparr> = []"
  by (simp add: CommandSet_Validate_def CommandSetCommand_Validate_def ssh_cmd_def pattern_errors_def ssh_libs_def
      show_command_def)

definition generic_ssh_job :: Job where
  "generic_ssh_job = (NewDefaultJob ''show_config'')\<lparr>job_CommandSet := Some
     \<lparr>cset_Generic = Some (NewDefaultCommandSetCommand
        \<lparr>cmd_Expect := [''.*'' @ vm_prompt @ ''.*''], cmd_ExpectNot := [''.*'' @ no_file @ ''.*''], cmd_Timeout := 20\<rparr>),
      cset_Commands = []\<rparr>\<rparr>"

lemma visits_single: "valid_rng r \<Longrightarrow> at n r [] [k] = [k]"
proof -
  assume "valid_rng r"
  then have "mset (at n r [] [k]) = {#k#}" using valid_rng_at [of r n] by (simp add: valid_rng_def)
  then show ?thesis by simp
qed

lemma ssh_job_generic: "Job_ApplyConfig lib r (NewDefaultJob ''show_config'') (Some linux_vm_job) = Ok generic_ssh_job"
  by (simp add: linux_vm_job_def generic_ssh_job_def job_defs zero_defs sanitized)

lemma ssh_job_specific:
  "ssh_libs lb k \<Longrightarrow> valid_rng r \<Longrightarrow> Job_ApplyConfig (lb_cron lb) r generic_ssh_job (Some show_config) = Ok (stored_ssh_job k)"
  by (simp add: show_config_def generic_ssh_job_def job_defs zero_defs ssh_libs_def stored_ssh_job_def ssh_cmd_def
      show_command_def CommandSetCommand_DeepCopy_def add_scrubber_def NewJobScrubberFromConfig_def visits_single)

lemma ssh_job_configured:
  assumes "ssh_libs lb k" "valid_rng r"
  shows "configure_job (lb_cron lb) r ssh_jobs ''show_config'' show_config = Ok (stored_ssh_job k)"
proof -
  have "cj_Generic show_config = ''linux_vm_job''" by (simp add: show_config_def)
  then show ?thesis
    using ssh_job_generic ssh_job_specific [OF assms(1) valid_rng_at [OF assms(2)]]
    by (simp add: configure_job_def apply_job_generic_def ssh_jobs_def lookup_ptr_def)
qed

lemma ssh_scrubber_valid: "JobScrubber_Validate re \<lparr>scr_Type = ''simple'', scr_Search = original, scr_Replace = x\<rparr> = None"
  by (simp add: JobScrubber_Validate_def original_def)

lemma ssh_jobs_valid:
  assumes "ssh_libs lb k"
  shows "Job_Validate (lb_re lb) (stored_ssh_job k) = []" "Job_Validate (lb_re lb) (ssh_job k) = []"
  using ssh_command_valid [OF assms] by (simp_all add: Job_Validate_def stored_ssh_job_def ssh_job_def ssh_scrubber_valid)

lemma ssh_job_store:
  assumes "ssh_libs lb k" "valid_rng r" "c_JobStore (ssh_config ctx) = Some js"
  shows "NewJobStoreFromConfig (lb_cron lb) (lb_re lb) r js = Ok \<lparr>ljs_jobs = [(''show_config'', stored_ssh_job k)]\<rparr>"
proof -
  have js: "cjs_Type js = ''local''" "cjs_JobStoreLocal js = Some ssh_jobs"
    using assms(3) by (auto simp: ssh_config_def test_defs)
  have "cjl_Jobs ssh_jobs = [(''show_config'', Some show_config)]" by (simp add: ssh_jobs_def)
  from one_job_Ok [OF assms(2) this ssh_job_configured [OF assms(1) valid_rng_at [OF assms(2)]] ssh_jobs_valid(1) [OF assms(1)]]
  show ?thesis by (simp add: NewJobStoreFromConfig_def js)
qed

text \<open>The copy of the job for the device, and what the device's own configuration makes of it.\<close>

definition copied_ssh_job :: "cronexpr \<Rightarrow> Job" where
  "copied_ssh_job k = (stored_ssh_job k)\<lparr>job_CommandSet := Some \<lparr>cset_Generic = None, cset_Commands = [ssh_cmd]\<rparr>\<rparr>"

lemma ssh_job_copied:
  "ssh_libs lb k \<Longrightarrow> valid_rng r \<Longrightarrow> Job_DeepCopy (lb_cron lb) r (stored_ssh_job k) = Ok (copied_ssh_job k)"
  by (simp add: Job_DeepCopy_def stored_ssh_job_def copied_ssh_job_def Schedule_DeepCopy_def NewCronSchedule_def ssh_libs_def
      CommandSet_DeepCopy_def CommandSetCommand_DeepCopy_def ssh_cmd_def JobScrubber_DeepCopy_def put_all_def go_range_single)

lemma ssh_template:
  "replace_var ''replace_authenticated'' ''device-level'' ''multilink bundle-name {{replace_authenticated}}'' = replacement"
  "replace_var ''replace_authenticated'' ''device-level'' original = original"
proof -
  let ?v = "''replace_authenticated''" and ?ts = "[Lit ''multilink bundle-name '', Var ''replace_authenticated'']"
  have "replace_var ?v ''device-level'' (render ?ts) = render (map (subst1 [?v \<mapsto> ''device-level'']) ?ts)"
    by (rule replace_var_render) simp_all
  then show "replace_var ?v ''device-level'' ''multilink bundle-name {{replace_authenticated}}'' = replacement"
    by (simp add: template_var_def replacement_def)
  have "replace_var ?v ''device-level'' (render [Lit original]) = render (map (subst1 [?v \<mapsto> ''device-level'']) [Lit original])"
    by (rule replace_var_render) (simp_all add: original_def)
  then show "replace_var ?v ''device-level'' original = original" by simp
qed

lemma ssh_cmd_template: "command_replace ''replace_authenticated'' ''device-level'' ssh_cmd = ssh_cmd"
proof -
  have "replace_var ''replace_authenticated'' ''device-level'' s = s" if "brace_free s" for s
    using replace_var_render [of "''replace_authenticated''" "[Lit s]" "''device-level''"] that by simp
  then show ?thesis
    by (simp add: command_replace_def ssh_cmd_def ssh_text_defs)
qed

lemma ssh_device_job:
  assumes "valid_rng r"
  shows "apply_device_job lib r [(''show_config'', copied_ssh_job k)]
    (''show_config'', Some (zero_Job\<lparr>cj_TemplateValues := [(''replace_authenticated'', ''device-level'')]\<rparr>)) =
    Ok [(''show_config'', ssh_job k)]"
proof -
  let ?j = "(copied_ssh_job k)\<lparr>job_TemplateValues := [(''replace_authenticated'', ''device-level'')]\<rparr>"
  have "Job_ApplyConfig lib q (copied_ssh_job k)
      (Some (zero_Job\<lparr>cj_TemplateValues := [(''replace_authenticated'', ''device-level'')]\<rparr>)) = Ok ?j" if "valid_rng q" for q
    using that by (simp add: copied_ssh_job_def stored_ssh_job_def job_defs zero_defs visits_single)
  moreover have "ApplyTemplateValues q ?j = ssh_job k" if "valid_rng q" for q
    using that by (simp add: ApplyTemplateValues_def go_range_single template_step_def copied_ssh_job_def stored_ssh_job_def
        ssh_cmd_template scrubber_replace_def ssh_template ssh_job_def)
  ultimately show ?thesis using assms by (simp add: valid_rng_at)
qed

lemma ssh_device_initial:
  assumes "ssh_libs lb k" "valid_rng r"
  shows "initial_device (lb_cron lb) r [(''show_config'', stored_ssh_job k)] ''local_linux_vm'' local_linux_vm =
    Ok ((NewDefaultDevice ''local_linux_vm'')\<lparr>dev_Jobs := [(''show_config'', copied_ssh_job k)]\<rparr>)"
  using ssh_job_copied [OF assms(1) valid_rng_at [OF valid_rng_at [OF assms(2)]]]
  by (simp add: initial_device_def local_linux_vm_def zero_defs go_range_single [OF assms(2)])

lemma ssh_device_generic:
  assumes "valid_rng r"
  shows "Device_ApplyConfig lib r ((NewDefaultDevice ''local_linux_vm'')\<lparr>dev_Jobs := js\<rparr>) linux_vm_base =
    Ok ((ssh_device k)\<lparr>dev_Jobs := js\<rparr>)"
  using assms
  by (simp add: Device_ApplyConfig_def linux_vm_base_def zero_defs apply_protocol_def apply_credentials_def
      NewDefaultDevice_def ssh_device_def)

lemma ssh_device_specific:
  assumes "valid_rng r"
  shows "Device_ApplyConfig lib r ((ssh_device k)\<lparr>dev_Jobs := [(''show_config'', copied_ssh_job k)]\<rparr>) local_linux_vm =
    Ok (ssh_device k)"
  using ssh_device_job [OF assms, of lib k]
  by (simp add: Device_ApplyConfig_def local_linux_vm_def zero_defs apply_protocol_def apply_credentials_def
      go_range_single [OF assms] ssh_device_def del: apply_device_job.simps)

lemma ssh_device_configured:
  assumes "ssh_libs lb k" "valid_rng r"
  shows "configure_device (lb_cron lb) r ssh_devices [(''show_config'', stored_ssh_job k)] ''local_linux_vm'' local_linux_vm =
    Ok (ssh_device k)"
proof -
  have "cd_Generic local_linux_vm = ''linux_vm_base''" by (simp add: local_linux_vm_def)
  then show ?thesis
    using ssh_device_initial [OF assms(1) valid_rng_at [OF assms(2)]] ssh_device_generic [OF valid_rng_at [OF assms(2)], where k = k]
      ssh_device_specific [OF valid_rng_at [OF assms(2)]]
    by (simp add: configure_device_def apply_device_generic_def ssh_devices_def lookup_ptr_def)
qed

lemma ssh_device_store:
  assumes "ssh_libs lb k" "valid_rng r" "c_DeviceStore (ssh_config ctx) = Some ds"
  shows "NewDeviceStoreFromConfig (lb_cron lb) (lb_re lb) r ds [(''show_config'', stored_ssh_job k)] =
    Ok \<lparr>lds_devices = [(''local_linux_vm'', ssh_device k)]\<rparr>"
proof -
  have ds: "cdvs_Type ds = ''local''" "cdvs_DeviceStoreLocal ds = Some ssh_devices"
    using assms(3) by (auto simp: ssh_config_def test_defs)
  have valid: "Device_Validate (lb_re lb) q (ssh_device k) = []" if "valid_rng q" for q
    using ssh_jobs_valid(2) [OF assms(1)] by (simp add: Device_Validate_def ssh_device_def go_range_single [OF that])
  have "cdl_Devices ssh_devices = [(''local_linux_vm'', Some local_linux_vm)]" by (simp add: ssh_devices_def)
  from one_device_Ok [OF assms(2) this ssh_device_configured [OF assms(1) valid_rng_at [OF assms(2)]] _
      valid [OF valid_rng_at [OF valid_rng_at [OF assms(2)]]]]
  show ?thesis by (simp add: NewDeviceStoreFromConfig_def ds) (simp add: ssh_device_def)
qed

lemma ssh_config_parts:
  "\<not> c_Syslog (ssh_config ctx)" "c_DataStore (ssh_config ctx) = c_DataStore (newWorkingConfig ctx)"
  "\<exists>js ds. c_JobStore (ssh_config ctx) = Some js \<and> c_DeviceStore (ssh_config ctx) = Some ds"
  by (simp_all add: ssh_config_def on_local_jobs_def on_jobs_def on_devices_def newWorkingConfig_def)

lemma ssh_controller:
  assumes "ssh_libs lb k" "valid_rng r" "os_fine os" "\<And>h. an_isDir (os h (EvStat (gitPullDataDirectory ctx)))"
    and "gitRepoDirectory ctx \<noteq> []" "gitPullDataDirectory ctx \<noteq> []"
  shows "\<exists>c h'. NewController os lb r (ssh_config ctx) h = (Ok c, h') \<and>
    co_DeviceStore c = \<lparr>lds_devices = [(''local_linux_vm'', ssh_device k)]\<rparr> \<and>
    co_DataStore c = (working_git ctx, [pool_worker (working_git ctx) 0]) \<and>
    co_Scheduler c = NewLocalScheduler (at ''scheduler'' r) (lb_clock lb) [(''local_linux_vm'', ssh_device k)]"
proof -
  obtain js ds where js: "c_JobStore (ssh_config ctx) = Some js" "c_DeviceStore (ssh_config ctx) = Some ds"
    using ssh_config_parts(3) by blast
  have mail: "test_mail (lb_txt lb)" using assms(1) by (simp add: ssh_libs_def)
  show ?thesis
    using backup_controller [OF ssh_config_parts(1) js ssh_config_parts(2) ssh_job_store [OF assms(1) valid_rng_at [OF assms(2)] js(1)]
        _ mail assms(3-6), of _ h]
      ssh_device_store [OF assms(1) valid_rng_at [OF assms(2)] js(2)]
    by (simp add: AllJobs_def AllDevices_def) blast
qed

end
