(* ===== verification/Test_Backup.thy ===== *)
theory Test_Backup
  imports Test_Ssh System
begin

text \<open>
  The rest of the SSH test (integration/simple_ssh_test.go): the run of its job on a device whose
  shell prints a file, and the assertion about the commit of what the run returns.
\<close>

section \<open>The device\<close>

definition literal_patterns :: "bytes_lib \<Rightarrow> bool" where
  "literal_patterns lib \<longleftrightarrow> (\<forall>p \<in> {vm_prompt, no_file}. re_Compile lib (''.*'' @ p @ ''.*'') = None \<and>
     (\<forall>s. re_Match lib (''.*'' @ p @ ''.*'') s \<longleftrightarrow> Contains s p))"

text \<open>
  Nothing fails; before the command is sent the shell has printed \<open>before\<close>, and after it one of
  the \<open>chunks\<close> each second.
\<close>

definition polls :: "nat \<Rightarrow> dev_event list" where
  "polls i = concat (replicate i [EvReceive, EvSleep])"

definition vm_shell :: "network \<Rightarrow> string \<Rightarrow> string list \<Rightarrow> bool" where
  "vm_shell net before chunks \<longleftrightarrow>
     (\<forall>h ev. dv_err (net h ev) = None) \<and>
     (\<forall>h. dv_bytes (net (h @ [EvSleep, EvReceive]) EvReceive) = before) \<and>
     (\<forall>h i. i < length chunks \<longrightarrow> dv_bytes (net (h @ [EvSend lf] @ polls i) EvReceive) = chunks ! i)"

text \<open>The prompt comes with the last chunk, within the timeout.\<close>

definition prompt_last :: "string list \<Rightarrow> bool" where
  "prompt_last chunks \<longleftrightarrow> length chunks \<le> 20 \<and>
     (\<forall>i < length chunks. \<not> Contains (concat (take i chunks)) vm_prompt) \<and>
     Contains (concat chunks) vm_prompt \<and> \<not> Contains (concat chunks) no_file"

lemma polls_Suc: "polls (Suc i) = polls i @ [EvReceive, EvSleep]"
  by (simp add: polls_def replicate_append_same [symmetric])

lemma Contains_prefix: "Contains (a @ b) p \<Longrightarrow> \<not> Contains (a @ b @ c) p \<Longrightarrow> False"
  unfolding Contains_iff by (metis append.assoc)

lemma ssh_patterns:
  assumes "literal_patterns lib"
  shows "first_match lib s 0 (cmd_Expect ssh_cmd) = (if Contains s vm_prompt then Some 0 else None)"
    "first_match lib s 0 (cmd_ExpectNot ssh_cmd) = (if Contains s no_file then Some 0 else None)"
    "compile_all lib (cmd_Expect ssh_cmd @ cmd_ExpectNot ssh_cmd) = None"
  using assms by (simp_all add: literal_patterns_def ssh_cmd_def)

lemma poll_step:
  assumes "literal_patterns lib" "dv_bytes (net h EvReceive) = c" "\<not> Contains (s @ c) no_file"
  shows "poll net lib ssh_cmd (Suc n) s buff h =
    (if Contains (s @ c) vm_prompt then (Ok (buff @ c, Inr True), h @ [EvReceive])
     else poll net lib ssh_cmd n (s @ c) (buff @ c) (h @ [EvReceive, EvSleep]))"
  using assms(2,3) by (simp add: act_bind_def ask_def Let_def ssh_patterns [OF assms(1)] act_ok_def)

lemma poll_chunks:
  assumes "literal_patterns lib" "vm_shell net before chunks" "prompt_last chunks"
  shows "i < length chunks \<Longrightarrow> length chunks - i \<le> n \<Longrightarrow>
    \<exists>h'. poll net lib ssh_cmd n (concat (take i chunks)) buff (h @ [EvSend lf] @ polls i) =
      (Ok (buff @ concat (drop i chunks), Inr True), h')"
proof (induction n arbitrary: i buff)
  case 0
  then show ?case by simp
next
  case (Suc n)
  let ?h = "h @ [EvSend lf] @ polls i" and ?t = "concat (take (Suc i) chunks)"
  have c: "dv_bytes (net ?h EvReceive) = chunks ! i"
    using assms(2) Suc.prems(1) by (simp add: vm_shell_def)
  have sofar: "concat (take i chunks) @ chunks ! i = ?t"
    using Suc.prems(1) by (simp add: take_Suc_conv_app_nth)
  have "concat chunks = ?t @ concat (drop (Suc i) chunks)"
    by (metis append_take_drop_id concat_append)
  then have no: "\<not> Contains ?t no_file"
    using assms(3) Contains_prefix [of "[]" ?t no_file "concat (drop (Suc i) chunks)"] by (auto simp: prompt_last_def)
  note step = poll_step [of lib net ?h "chunks ! i" "concat (take i chunks)" n buff, unfolded sofar, OF assms(1) c no]
  show ?case
  proof (cases "Suc i = length chunks")
    case True
    then have "Contains ?t vm_prompt" using assms(3) by (simp add: prompt_last_def)
    moreover have "drop i chunks = [chunks ! i]"
      using True by (metis Cons_nth_drop_Suc Suc.prems(1) drop_all order_refl)
    ultimately show ?thesis using step by simp
  next
    case False
    then have i: "Suc i < length chunks" using Suc.prems(1) by simp
    then have no_prompt: "\<not> Contains ?t vm_prompt" using assms(3) by (simp add: prompt_last_def)
    have le: "length chunks - Suc i \<le> n" using Suc.prems(2) by simp
    obtain h' where p: "poll net lib ssh_cmd n ?t (buff @ chunks ! i) (h @ [EvSend lf] @ polls (Suc i)) =
        (Ok ((buff @ chunks ! i) @ concat (drop (Suc i) chunks), Inr True), h')"
      using Suc.IH [OF i le, of "buff @ chunks ! i"] by blast
    have "drop i chunks = chunks ! i # drop (Suc i) chunks"
      using Suc.prems(1) by (simp add: Cons_nth_drop_Suc)
    then show ?thesis using step no_prompt p by (simp add: polls_Suc)
  qed
qed

lemma prompt_last_nonempty: "prompt_last chunks \<Longrightarrow> chunks \<noteq> []"
  by (auto simp: prompt_last_def vm_prompt_def)

lemma run_ssh_command:
  assumes "literal_patterns lib" "vm_shell net before chunks" "prompt_last chunks" "dv_bytes (net h EvReceive) = before"
  shows "\<exists>h'. run_command net lib ssh_cmd [] h = (Ok (before @ concat chunks, None), h')"
proof -
  have fine: "dv_err (net h ev) = None" for h ev using assms(2) by (simp add: vm_shell_def)
  have t: "cmd_Timeout ssh_cmd = 20" "cmd_ImplicitEnter ssh_cmd" by (simp_all add: ssh_cmd_def)
  have "0 < length chunks" "length chunks - 0 \<le> nat (cmd_Timeout ssh_cmd)"
    using prompt_last_nonempty [OF assms(3)] assms(3) by (simp_all add: prompt_last_def t)
  from poll_chunks [OF assms(1-3) this, of before "h @ [EvReceive, EvSend (cmd_Command ssh_cmd)]"]
  obtain h' where "poll net lib ssh_cmd (nat (cmd_Timeout ssh_cmd)) [] before
      (h @ [EvReceive, EvSend (cmd_Command ssh_cmd), EvSend lf]) = (Ok (before @ concat chunks, Inr True), h')"
    by (auto simp: polls_def)
  then have "\<exists>h'. expect_output net lib ssh_cmd before (h @ [EvReceive, EvSend (cmd_Command ssh_cmd), EvSend lf]) =
      (Ok (before @ concat chunks, None), h')"
    by (simp add: expect_output_def ssh_patterns [OF assms(1)] act_bind_def act_ok_def)
  then show ?thesis
    by (simp add: run_command_def act_bind_def ask_def fine t assms(4) Let_def act_ok_def)
qed

lemma open_shell_fine:
  "(\<And>h ev. dv_err (net h ev) = None) \<Longrightarrow>
   open_shell net sess h = (Ok (), h @ [EvNewSession, EvStdinPipe, EvRequestPty, EvStartShell])"
  by (simp add: open_shell_def dev_do_def shell_step_def act_bind_def ask_def act_ok_def)

lemma run_ssh_commands:
  assumes "literal_patterns lib" "vm_shell net before chunks" "prompt_last chunks"
  shows "\<exists>h'. runCommands net lib sess \<lparr>cset_Generic = g, cset_Commands = [ssh_cmd]\<rparr> h = (Ok (before @ concat chunks, None), h')"
proof -
  have fine: "dv_err (net h ev) = None" for h ev using assms(2) by (simp add: vm_shell_def)
  let ?h = "h @ [EvNewSession, EvStdinPipe, EvRequestPty, EvStartShell]"
  have "dv_bytes (net (?h @ [EvSleep, EvReceive]) EvReceive) = before"
    using assms(2) unfolding vm_shell_def by blast
  from run_ssh_command [OF assms this]
  obtain h' where r: "run_command net lib ssh_cmd [] (?h @ [EvSleep, EvReceive]) = (Ok (before @ concat chunks, None), h')"
    by blast
  then show ?thesis
    by (simp add: runCommands_def act_try_def open_shell_fine [OF fine] act_bind_def act_finally_def ask_def act_ok_def
        shell_close_def Let_def)
qed

section \<open>The run of the job\<close>

definition ssh_execution :: "cronexpr \<Rightarrow> int \<Rightarrow> Execution" where
  "ssh_execution k t = \<lparr>ex_Device = ssh_device k, ex_Job = ssh_job k, ex_Timestamp = t\<rparr>"

lemma run_ssh_execution:
  assumes "literal_patterns lib" "vm_shell net before chunks" "prompt_last chunks"
  shows "\<exists>res h'. runExecution net lib (ssh_execution k t) h = (Ok res, h') \<and> res_failure res = None \<and>
    res_deviceName res = ''local_linux_vm'' \<and> res_jobName res = ''show_config'' \<and>
    res_file res = bytes_Replace (before @ concat chunks) original replacement"
proof -
  let ?ex = "ssh_execution k t"
  have "concat chunks \<noteq> []"
  proof
    assume "concat chunks = []"
    then have "Contains [] vm_prompt" using assms(3) by (metis prompt_last_def)
    then show False by (simp add: vm_prompt_def)
  qed
  then have scrub: "scrub_result lib (ex_Job ?ex) (before @ concat chunks, None) =
      (bytes_Replace (before @ concat chunks) original replacement, None)"
    by (simp add: scrub_result_def ssh_execution_def ssh_job_def scrubBytes_def scrub_step_def)
  obtain h1 where "runJob net lib \<lparr>ss_Host = dev_Host (ex_Device ?ex)\<rparr> (ex_Job ?ex) (h @ [EvNow, dial (ex_Device ?ex)]) =
      (Ok (before @ concat chunks, None), h1)"
    using run_ssh_commands [OF assms] by (fastforce simp: runJob_def ssh_execution_def ssh_job_def)
  moreover have "dialable (ex_Device ?ex)"
    by (simp add: ssh_execution_def dialable_def has_ssh_def ssh_device_def)
  moreover have "dv_err (net (h @ [EvNow]) (dial (ex_Device ?ex))) = None" using assms(2) by (simp add: vm_shell_def)
  ultimately have "runExecution net lib ?ex h = (fst (finish net (new_result ?ex (dv_now (net h EvNow)))
      (scrub_result lib (ex_Job ?ex) (before @ concat chunks, None)) h1), h1 @ [EvNow, EvClientClose])"
    by (intro runExecution_connected)
  moreover have "job_Name (ex_Job ?ex) = ''show_config''" "dev_Name (ex_Device ?ex) = ''local_linux_vm''"
    by (simp_all add: ssh_execution_def ssh_device_def ssh_job_def)
  ultimately show ?thesis by (simp add: scrub finish_eq new_result_def)
qed

section \<open>Texts\<close>

text \<open>A byte that the search text does not have separates what is replaced.\<close>

lemma HasPrefix_before:
  "c \<notin> set old \<Longrightarrow> HasPrefix (a @ c # b) old \<longleftrightarrow> HasPrefix a old"
proof (induction old arbitrary: a)
  case Nil
  then show ?case by (simp add: HasPrefix_def)
next
  case (Cons x old)
  then show ?case by (cases a) (auto simp: HasPrefix_def)
qed

lemma HasPrefix_length: "HasPrefix s p \<Longrightarrow> length p \<le> length s"
  by (auto simp: HasPrefix_iff)

lemma replace_separated:
  assumes "c \<notin> set old"
  shows "replace_ne old new (a @ c # b) = replace_ne old new a @ c # replace_ne old new b"
proof (induction a rule: length_induct)
  case (1 a)
  show ?case
  proof (cases a)
    case Nil
    have "\<not> (old \<noteq> [] \<and> HasPrefix (c # b) old)" using assms by (cases old) (auto simp: HasPrefix_def)
    then show ?thesis using Nil by (simp only: append_Nil replace_ne.simps if_False)
  next
    case (Cons x xs)
    have pre: "HasPrefix (x # xs @ c # b) old \<longleftrightarrow> HasPrefix (x # xs) old"
      using HasPrefix_before [OF assms, of "x # xs" b] by simp
    have "drop (length old - 1) (xs @ c # b) = drop (length old - 1) xs @ c # b" if "HasPrefix (x # xs) old"
      using HasPrefix_length [OF that] by simp
    then show ?thesis using 1 Cons pre by auto
  qed
qed

lemma join_split: "ls \<noteq> [] \<Longrightarrow> join sep (l # ls) = l @ sep @ join sep ls"
  by (cases ls) simp_all

definition crlf :: string where
  "crlf = [CHR 0x0D, CHR 0x0A]"

definition line_free :: "string \<Rightarrow> bool" where
  "line_free s \<longleftrightarrow> CHR 0x0A \<notin> set s \<and> CHR 0x0D \<notin> set s"

lemma replace_sep:
  assumes "line_free old" "sep \<in> {lf, crlf}"
  shows "replace_ne old new (x @ sep @ y) = replace_ne old new x @ sep @ replace_ne old new y"
  using assms replace_separated [of "CHR 0x0A" old new x y] replace_separated [of "CHR 0x0A" old new "[]" y]
    replace_separated [of "CHR 0x0D" old new x "CHR 0x0A # y"]
  by (auto simp: line_free_def lf_def crlf_def)

lemma replace_join:
  assumes "line_free old" "sep \<in> {lf, crlf}"
  shows "replace_ne old new (join sep ls) = join sep (map (replace_ne old new) ls)"
proof (induction ls)
  case (Cons l ls)
  then show ?case
    using replace_sep [OF assms, of new l "join sep ls"] by (cases "ls = []") (simp_all add: join_split)
qed simp

text \<open>Line ends become \<open>\n\<close>, where no text before or after them takes part.\<close>

lemma crlf_apart:
  assumes "a = [] \<or> last a \<noteq> CHR 0x0D"
  shows "replace_ne crlf lf (a @ b) = replace_ne crlf lf a @ replace_ne crlf lf b"
  using assms
proof (induction a rule: length_induct)
  case (1 a)
  have ih: "replace_ne crlf lf (a' @ b) = replace_ne crlf lf a' @ replace_ne crlf lf b"
    if "length a' < length a" "a' = [] \<or> last a' \<noteq> CHR 0x0D" for a'
    using 1(1) that by blast
  have p: "HasPrefix (x # y # zs) crlf \<longleftrightarrow> x = CHR 0x0D \<and> y = CHR 0x0A" for x y zs
    by (auto simp: crlf_def HasPrefix_def)
  consider "a = []" | x where "a = [x]" | x y ys where "a = x # y # ys" by (cases a; cases "tl a") auto
  then show ?case
  proof cases
    case 2
    then show ?thesis using 1(2) by (auto simp: crlf_def HasPrefix_def)
  next
    case 3
    then have e: "replace_ne crlf lf (ys @ b) = replace_ne crlf lf ys @ replace_ne crlf lf b"
        "replace_ne crlf lf (y # ys @ b) = replace_ne crlf lf (y # ys) @ replace_ne crlf lf b"
      using ih [of ys] ih [of "y # ys"] 1(2) by (auto split: if_splits)
    have step: "replace_ne crlf lf (x # y # zs) =
        (if x = CHR 0x0D \<and> y = CHR 0x0A then lf @ replace_ne crlf lf zs else x # replace_ne crlf lf (y # zs))" for zs
      unfolding replace_ne.simps(2) [of crlf lf x] p by (simp add: crlf_def)
    show ?thesis unfolding 3 append_Cons step using e by (simp del: replace_ne.simps)
  qed simp
qed

lemma crlf_to_lf_eq: "crlf_to_lf s = replace_ne crlf lf (TrimSpace s)"
  by (simp add: crlf_to_lf_def crlf_def lf_def)

lemma crlf_absent: "CHR 0x0D \<notin> set s \<Longrightarrow> replace_ne crlf lf s = s"
  by (rule replace_ne_absent) (auto simp: Contains_iff crlf_def)

lemma crlf_join:
  assumes "\<forall>l \<in> set ls. CHR 0x0D \<notin> set l"
  shows "replace_ne crlf lf (join crlf ls) = join lf ls"
  using assms
proof (induction ls)
  case (Cons l ls)
  have "l = [] \<or> last l \<noteq> CHR 0x0D" using Cons.prems by (metis last_in_set list.set_intros(1))
  then have "replace_ne crlf lf (l @ crlf @ join crlf ls) = l @ replace_ne crlf lf (crlf @ join crlf ls)"
    using Cons.prems by (simp add: crlf_apart crlf_absent)
  also have "\<dots> = l @ lf @ replace_ne crlf lf (join crlf ls)"
    using replace_ne_prefix [of crlf] by (simp add: crlf_def)
  finally show ?case using Cons by (cases "ls = []") (simp_all add: join_split crlf_absent)
qed simp

lemma set_replace: "set (replace_ne old new s) \<subseteq> set s \<union> set new"
proof (induction old new s rule: replace_ne.induct)
  case (2 old new c cs)
  then show ?case using set_drop_subset [of "length old - 1" cs] by auto
qed simp

lemma set_join: "set (join sep ls) \<subseteq> set sep \<union> \<Union>(set ` set ls)"
proof (induction ls)
  case (Cons l ls)
  then show ?case by (cases "ls = []") (auto simp: join_split)
qed simp

lemma hd_join: "ls \<noteq> [] \<Longrightarrow> hd ls \<noteq> [] \<Longrightarrow> hd (join sep ls) = hd (hd ls) \<and> join sep ls \<noteq> []"
  by (cases ls; cases "tl ls") auto

lemma last_join: "ls \<noteq> [] \<Longrightarrow> last ls \<noteq> [] \<Longrightarrow> last (join sep ls) = last (last ls) \<and> join sep ls \<noteq> []"
proof (induction ls)
  case (Cons l ls)
  then show ?case by (cases "ls = []") (auto simp: join_split)
qed simp

lemma TrimSpace_around:
  assumes "P \<noteq> []" "\<not> is_space (hd P)" "\<not> is_space (last P)"
  shows "\<exists>u v w. TrimSpace (a @ P @ rest) = u @ P @ w \<and> a = v @ u"
proof -
  let ?u = "dropWhile is_space a"
  have "dropWhile is_space (a @ P @ rest) = ?u @ P @ rest"
  proof (cases "\<forall>c \<in> set a. is_space c")
    case True
    then show ?thesis using dropWhile_space [OF assms(1,2), of rest] by simp
  next
    case False
    then obtain c where "c \<in> set a" "\<not> is_space c" by blast
    then show ?thesis by (rule dropWhile_append1)
  qed
  then have "TrimSpace (a @ P @ rest) = TrimSpace (?u @ P @ rest)"
    unfolding TrimSpace_def by (metis dropWhile_idem comp_apply)
  moreover have "\<not> is_space (hd (?u @ P))"
    using assms(1,2) hd_dropWhile [of is_space a] by (metis append_Nil hd_append2)
  then have "\<exists>w. TrimSpace ((?u @ P) @ rest) = (?u @ P) @ w"
    using assms(1,3) by (intro TrimSpace_keeps) simp_all
  moreover have "a = takeWhile is_space a @ ?u" by simp
  ultimately show ?thesis by (metis append.assoc)
qed

lemma TrimSpace_line: "P \<noteq> [] \<Longrightarrow> \<not> is_space (hd P) \<Longrightarrow> \<not> is_space (last P) \<Longrightarrow> TrimSpace (P @ lf) = P"
  using dropWhile_space [of P lf] dropWhile_space [of "rev P" "[]"]
  by (simp add: TrimSpace_def hd_rev lf_def is_space_def)

text \<open>A text file of whole lines, of which the first and the last are left alone by a replacement.\<close>

definition text_file :: "string \<Rightarrow> string list \<Rightarrow> bool" where
  "text_file old ls \<longleftrightarrow> ls \<noteq> [] \<and> (\<forall>l \<in> set ls. line_free l) \<and>
     hd ls \<noteq> [] \<and> \<not> is_space (hd (hd ls)) \<and> \<not> Contains (hd ls) old \<and>
     last ls \<noteq> [] \<and> \<not> is_space (last (last ls)) \<and> \<not> Contains (last ls) old"

lemma backup_shows_file:
  assumes "text_file old ls" "line_free old" "line_free new"
  shows "Contains (crlf_to_lf (replace_ne old new (a @ lf @ join crlf ls @ crlf @ b)))
    (crlf_to_lf (replace_ne old new (join lf ls @ lf)))"
proof -
  let ?R = "replace_ne old new"
  let ?ls = "map ?R ls"
  let ?P = "join crlf ?ls" and ?Q = "join lf ?ls"
  have f: "ls \<noteq> []" "\<forall>l \<in> set ls. line_free l" "hd ls \<noteq> []" "\<not> is_space (hd (hd ls))" "last ls \<noteq> []"
    "\<not> is_space (last (last ls))" "?R (hd ls) = hd ls" "?R (last ls) = last ls"
    using assms(1) by (auto simp: text_file_def replace_ne_absent)
  then have ends: "?ls \<noteq> []" "hd ?ls = hd ls" "last ?ls = last ls" by (simp_all add: hd_map last_map)
  have PQ: "join s ?ls \<noteq> []" "\<not> is_space (hd (join s ?ls))" "\<not> is_space (last (join s ?ls))" for s
    using hd_join [of ?ls s] last_join [of ?ls s] ends f by simp_all
  have no: "CHR 0x0D \<notin> set l" if "l \<in> set ?ls" for l
    using that f(2) assms(3) set_replace [of old new] unfolding line_free_def by fastforce
  have "CHR 0x0D \<notin> set ?Q" using set_join [of lf ?ls] no by (auto simp: lf_def)
  then have q: "crlf_to_lf (?Q @ lf) = ?Q"
    using TrimSpace_line [OF PQ] crlf_absent by (simp add: crlf_to_lf_eq)
  have sep: "?R (x @ lf @ y) = ?R x @ lf @ ?R y" "?R (x @ crlf @ y) = ?R x @ crlf @ ?R y" for x y
    by (rule replace_sep [OF assms(2)]; simp)+
  have j: "?R (join lf ls) = ?Q" "?R (join crlf ls) = ?P" by (rule replace_join [OF assms(2)]; simp)+
  obtain u v w where u: "TrimSpace ((?R a @ lf) @ ?P @ crlf @ ?R b) = u @ ?P @ w" "?R a @ lf = v @ u"
    using TrimSpace_around [OF PQ [of crlf], of "?R a @ lf" "crlf @ ?R b"] by metis
  have "u = [] \<or> last u \<noteq> CHR 0x0D"
    using arg_cong [OF u(2), of last] by (cases "u = []") (auto simp: lf_def)
  moreover have "last ?P \<noteq> CHR 0x0D" using PQ(3) [of crlf] by (auto simp: is_space_def)
  moreover have "replace_ne crlf lf ?P = ?Q" by (rule crlf_join) (use no in blast)
  ultimately have "crlf_to_lf (?R (a @ lf @ join crlf ls @ crlf @ b)) = replace_ne crlf lf u @ ?Q @ replace_ne crlf lf w"
    using u(1) by (simp add: crlf_to_lf_eq sep j crlf_apart)
  moreover have "?R (join lf ls @ lf) = ?Q @ lf" using sep(1) [of "join lf ls" "[]"] j(1) by simp
  ultimately show ?thesis using q by (simp only:) (rule Contains_intro)
qed

section \<open>From the configuration to the commit\<close>

text \<open>A device with one job: what the scheduler hands out for it.\<close>

definition single_job :: "Device \<Rightarrow> Job \<Rightarrow> bool" where
  "single_job d j \<longleftrightarrow> dev_Jobs d = [(job_Name j, j)] \<and> job_Schedule j \<noteq> None \<and> dev_Tags d = []"

lemma single_scheduler:
  "valid_rng r \<Longrightarrow> single_job d j \<Longrightarrow> NewLocalScheduler r clk [(dev_Name d, d)] =
     \<lparr>sl_heap = [\<lparr>dj_Device = d, dj_Job = j, dj_lastRun = clk 0\<rparr>], sl_byTag = [([], [0])], sl_ticks = 1\<rparr>"
  by (simp add: NewLocalScheduler_def go_range_single addDeviceJob_def valid_rng_at single_job_def add_one_job_def
      addDeviceJobToTag_def jobs_of_tag_def Let_def)

lemma single_scheduled:
  assumes "valid_rng r" "clock_ok clk" "single_job d j"
    and "NextExecution lib clk (NewLocalScheduler r clk [(dev_Name d, d)]) tags until = Ok (Some ex, s')"
  shows "\<exists>t. ex = \<lparr>ex_Device = d, ex_Job = j, ex_Timestamp = t\<rparr>"
proof -
  let ?s = "NewLocalScheduler r clk [(dev_Name d, d)]"
  have "schedulable [(dev_Name d, d)]" using assms(3) by (simp add: schedulable_def single_job_def)
  from NextExecution_handed [OF handed_start NewLocalScheduler_ok [OF this assms(1)] assms(2,4)]
  have "\<exists>gs. [ex] = map (execution_of ?s) gs \<and> handed lib ?s s' gs" by (auto simp only: option.case append_Nil)
  then obtain gs where gs: "[ex] = map (execution_of ?s) gs" "handed lib ?s s' gs" by (elim exE conjE)
  then obtain g where g: "gs = [g]" "ex = execution_of ?s g" by auto
  have "fst g < length (sl_heap ?s)" using gs(2) g(1) by (auto simp: handed_def grants_ok_def)
  then have "fst g = 0" by (simp add: single_scheduler [OF assms(1,3)])
  then show ?thesis using g(2) by (simp add: execution_of_def single_scheduler [OF assms(1,3)])
qed

text \<open>
  The backup of an execution meets an assertion: the run succeeds, the commit of its result is
  one commit of one file, and a clone that shows it passes the assertion.
\<close>

definition backed_up :: "os \<Rightarrow> text_lib \<Rightarrow> rng \<Rightarrow> test_context \<Rightarrow> bytes_lib \<Rightarrow> network \<Rightarrow> gitAssertion \<Rightarrow> Execution \<Rightarrow> bool" where
  "backed_up os tx r ctx lib net g ex \<longleftrightarrow> (\<forall>dh h1.
    (\<exists>res h2 h3 xs. runExecution net lib ex dh = (Ok res, h2) \<and> res_failure res = None \<and>
     commitJob os tx r (pool_worker (working_git ctx) 0) (reported_job res) h1 = (Ok (), h3) \<and> effects h3 = effects h1 @ xs \<and>
     committed (pool_worker (working_git ctx) 0) xs (working_commit tx (reported_job res)) \<and>
     (\<forall>te dir h4. clone_shows te ctx dir (working_commit tx (reported_job res)) \<longrightarrow>
       fst (assertValid te ctx g h4) = Ok ())))"

lemma backed_up_wire: "backed_up os tx r ctx lib net g (wire ex) \<longleftrightarrow> backed_up os tx r ctx lib net g ex"
  unfolding backed_up_def runExecution_wire by (rule refl)

text \<open>What a run without failure reports.\<close>

definition runs_to :: "bytes_lib \<Rightarrow> network \<Rightarrow> Execution \<Rightarrow> string \<Rightarrow> bool" where
  "runs_to lib net ex output \<longleftrightarrow> (\<forall>h. \<exists>res h'. runExecution net lib ex h = (Ok res, h') \<and> res_failure res = None \<and>
     res_deviceName res = dev_Name (ex_Device ex) \<and> res_jobName res = job_Name (ex_Job ex) \<and> res_file res = output)"

lemma runs_backed_up:
  assumes "os_fine os" "runs_to lib net ex output" "output \<noteq> []"
    and "no_space (dev_Name (ex_Device ex))" "no_space (job_Name (ex_Job ex))"
    and "Contains (crlf_to_lf output) (crlf_to_lf expected)"
  shows "backed_up os tx r ctx lib net \<lparr>ga_job = job_Name (ex_Job ex), ga_device = dev_Name (ex_Device ex),
    ga_filesUpdated = [''by_device/'' @ dev_Name (ex_Device ex) @ ''/'' @ job_Name (ex_Job ex)], ga_fileContents = expected\<rparr> ex"
  unfolding backed_up_def
proof (intro allI)
  fix dh h1
  let ?g = "pool_worker (working_git ctx) 0"
  obtain res h2 where res: "runExecution net lib ex dh = (Ok res, h2)" "res_failure res = None"
    "res_deviceName res = dev_Name (ex_Device ex)" "res_jobName res = job_Name (ex_Job ex)" "res_file res = output"
    using assms(2) unfolding runs_to_def by blast
  then have j: "dsj_DeviceName (reported_job res) = dev_Name (ex_Device ex)"
    "dsj_JobName (reported_job res) = job_Name (ex_Job ex)" "dsj_Contents (reported_job res) = output"
    by (simp_all add: reported_job_def)
  have "gw_conf ?g = working_git ctx" by (simp add: pool_worker_def)
  from commit_checked [OF assms(1) this, of "reported_job res", unfolded j, OF assms(3-6), of tx r h1] res(1,2)
  show "\<exists>res h2 h3 xs. runExecution net lib ex dh = (Ok res, h2) \<and> res_failure res = None \<and>
     commitJob os tx r ?g (reported_job res) h1 = (Ok (), h3) \<and> effects h3 = effects h1 @ xs \<and>
     committed ?g xs (working_commit tx (reported_job res)) \<and>
     (\<forall>te dir h4. clone_shows te ctx dir (working_commit tx (reported_job res)) \<longrightarrow>
       fst (assertValid te ctx \<lparr>ga_job = job_Name (ex_Job ex), ga_device = dev_Name (ex_Device ex),
         ga_filesUpdated = [''by_device/'' @ dev_Name (ex_Device ex) @ ''/'' @ job_Name (ex_Job ex)],
         ga_fileContents = expected\<rparr> h4) = Ok ())"
    by blast
qed

text \<open>What the test asserts of the commit.\<close>

definition ssh_assertion :: "string list \<Rightarrow> gitAssertion" where
  "ssh_assertion ls = \<lparr>ga_job = ''show_config'', ga_device = ''local_linux_vm'',
     ga_filesUpdated = [''by_device/local_linux_vm/show_config''],
     ga_fileContents = bytes_Replace (join lf ls @ lf) original replacement\<rparr>"

lemma bytes_Replace_original: "bytes_Replace s original new = replace_ne original new s"
  by (simp add: bytes_Replace_def original_def)

lemma ssh_names: "job_Name (ssh_job k) = ''show_config''" "dev_Name (ssh_device k) = ''local_linux_vm''"
  by (simp_all add: ssh_job_def ssh_device_def)

lemma ssh_single: "single_job (ssh_device k) (ssh_job k)"
  by (simp add: single_job_def ssh_device_def ssh_job_def)

lemma ssh_backup_committed:
  assumes "os_fine os" "literal_patterns lib" "vm_shell net before chunks" "prompt_last chunks"
    and "text_file original ls" "before @ concat chunks = a @ lf @ join crlf ls @ crlf @ b"
  shows "backed_up os tx r ctx lib net (ssh_assertion ls) (ssh_execution k t)"
proof -
  let ?out = "bytes_Replace (before @ concat chunks) original replacement"
  have out: "?out = replace_ne original replacement (a @ lf @ join crlf ls @ crlf @ b)"
    by (simp add: assms(6) bytes_Replace_original)
  have l: "line_free original" "line_free replacement" by (simp_all add: line_free_def original_def replacement_def)
  have "Contains (crlf_to_lf ?out) (crlf_to_lf (bytes_Replace (join lf ls @ lf) original replacement))"
    unfolding assms(6) bytes_Replace_original by (rule backup_shows_file [OF assms(5) l])
  moreover have "?out \<noteq> []"
    unfolding out using replace_sep [OF l(1), of lf replacement a "join crlf ls @ crlf @ b"] by (simp add: lf_def)
  moreover have "runs_to lib net (ssh_execution k t) ?out"
    using run_ssh_execution [OF assms(2-4), of k t] by (simp add: runs_to_def ssh_execution_def ssh_names)
  moreover have "no_space ''local_linux_vm''" "no_space ''show_config''" by (simp_all add: no_space_def is_space_def)
  ultimately show ?thesis
    using runs_backed_up [OF assms(1), of lib net "ssh_execution k t" ?out _ tx r ctx]
    by (simp add: ssh_execution_def ssh_names ssh_assertion_def)
qed


definition vm_libs :: libs where
  "vm_libs = sample_test_libs\<lparr>lb_cron := sample_cron\<lparr>cron_Parse := (\<lambda>s. Inr 3)\<rparr>, lb_re := (\<lambda>_. None)\<rparr>"

definition vm_lines :: "string list" where
  "vm_lines = [''hostname Router'', '' '' @ original, ''end'']"

definition vm_chunks :: "string list" where
  "vm_chunks = [show_command @ crlf, join crlf vm_lines, crlf @ vm_prompt @ ''~$ '']"

definition vm_lib :: bytes_lib where
  "vm_lib = (sample_bytes_lib False)\<lparr>re_Match := (\<lambda>p s.
     if p = ''.*'' @ vm_prompt @ ''.*'' then Contains s vm_prompt
     else if p = ''.*'' @ no_file @ ''.*'' then Contains s no_file else False)\<rparr>"

text \<open>The chunk is the number of polls since the command was sent.\<close>

definition vm_net :: network where
  "vm_net h ev =
     (let since = takeWhile (\<lambda>e. e \<noteq> EvSend lf) (rev h); i = length since div 2
      in sample_answer\<lparr>dv_bytes := if take 2 since = [EvReceive, EvSleep] \<or> length vm_chunks \<le> i then [] else vm_chunks ! i\<rparr>)"

lemma vm_literal: "literal_patterns vm_lib"
  by (simp add: literal_patterns_def vm_lib_def sample_bytes_lib_def vm_prompt_def no_file_def)

lemma polls_shape: "EvSend lf \<notin> set (polls i) \<and> length (polls i) = 2 * i \<and> take 2 (rev (polls i)) \<noteq> [EvReceive, EvSleep]"
  by (induction i) (simp_all add: polls_Suc, simp add: polls_def)

lemma vm_net_shell: "vm_shell vm_net [] vm_chunks"
proof -
  have "takeWhile (\<lambda>e. e \<noteq> EvSend lf) (rev (h @ [EvSend lf] @ polls i)) = rev (polls i)" for h i
  proof -
    have "takeWhile (\<lambda>e. e \<noteq> EvSend lf) (rev (polls i) @ EvSend lf # rev h) = rev (polls i)"
      using polls_shape [of i] by (subst takeWhile_append2) auto
    then show ?thesis by simp
  qed
  then have "dv_bytes (vm_net (h @ [EvSend lf] @ polls i) EvReceive) = vm_chunks ! i" if "i < length vm_chunks" for h i
    using that polls_shape [of i] by (simp only: vm_net_def Let_def) simp
  moreover have "dv_bytes (vm_net (h @ [EvSleep, EvReceive]) EvReceive) = []" for h
    by (simp add: vm_net_def Let_def)
  moreover have "dv_err (vm_net h ev) = None" for h ev by (simp add: vm_net_def Let_def sample_answer_def)
  ultimately show ?thesis unfolding vm_shell_def by blast
qed

lemma vm_prompt_last: "prompt_last vm_chunks"
  by (simp add: prompt_last_def vm_chunks_def vm_lines_def ssh_text_defs crlf_def HasPrefix_def All_less_Suc
      numeral_2_eq_2 numeral_3_eq_3)

lemma vm_text: "text_file original vm_lines"
  by (simp add: text_file_def vm_lines_def line_free_def original_def HasPrefix_def is_space_def)

lemma vm_dialogue: "[] @ concat vm_chunks = (show_command @ [CHR 0x0D]) @ lf @ join crlf vm_lines @ crlf @ vm_prompt @ ''~$ ''"
  by (simp add: vm_chunks_def crlf_def lf_def)
lemma vm_due:
  "\<exists>s'. NextExecution (lb_cron vm_libs) (lb_clock vm_libs)
     (NewLocalScheduler (at n (\<lambda>p ks. ks)) (lb_clock vm_libs) [(''local_linux_vm'', ssh_device 3)]) [] (sample_clock 5000) =
     Ok (Some (ssh_execution 3 1451606401), s')"
  unfolding single_scheduler [OF valid_rng_at [OF valid_rng_id] ssh_single [of 3], unfolded ssh_names]
  by (simp add: NextExecution_def effective_tags_def jobs_of_tag_def nextRun_def ssh_job_def Schedule_Next_def vm_libs_def
      sample_test_libs_def sample_cron_def sample_clock_def execution_of_def ssh_execution_def IsZero_def zero_time_def
      second_def Unix_def wrap64_def unixToInternal_def Let_def)


end
