(* ===== verification/Test_Sftp.thy ===== *)
theory Test_Sftp
  imports Test_Backup
begin

text \<open>
  The test of a backup over SFTP (integration/simple_sftp_test.go), end to end: a job of type
  \<open>file\<close> fetches a gzip file and the commit has its decompressed contents.
\<close>

section \<open>The configuration\<close>

definition gz_path :: string where
  "gz_path = ''/vagrant/sample-config.txt.gz''"

definition linux_file_job :: cfg_Job where
  "linux_file_job = zero_Job\<lparr>cj_Type := ''file'', cj_JobFile := [(gz_path, Some \<lparr>cf_Compression = ''gzip''\<rparr>)]\<rparr>"

definition get_file :: cfg_Job where
  "get_file = zero_Job\<lparr>cj_Generic := ''linux_file_job'',
     cj_JobSchedule := Some (zero_JobSchedule\<lparr>cs_Cron := ''*/3 * * * * * *''\<rparr>)\<rparr>"

definition sftp_jobs :: cfg_JobStoreLocal where
  "sftp_jobs = \<lparr>cjl_JobGenerics = [(''linux_file_job'', Some linux_file_job)], cjl_Jobs = [(''get_file'', Some get_file)]\<rparr>"

definition sftp_linux_vm :: cfg_Device where
  "sftp_linux_vm = zero_Device\<lparr>cd_Generic := ''linux_vm_base'', cd_Jobs := [(''get_file'', Some zero_Job)]\<rparr>"

definition sftp_devices :: cfg_DeviceStoreLocal where
  "sftp_devices = \<lparr>cdl_DeviceGenerics = [(''linux_vm_base'', Some linux_vm_base)],
     cdl_Devices = [(''local_linux_vm'', Some sftp_linux_vm)]\<rparr>"

definition sftp_config :: "test_context \<Rightarrow> cfg_Config" where
  "sftp_config ctx = on_local_jobs (\<lambda>_. sftp_jobs) (on_devices (\<lambda>ds. ds
     \<lparr>cdvs_DeviceStoreLocal := map_option (\<lambda>_. sftp_devices) (cdvs_DeviceStoreLocal ds)\<rparr>) (newWorkingConfig ctx))"

section \<open>The controller\<close>

definition gz_files :: FileSet where
  "gz_files = \<lparr>fset_Files = [\<lparr>file_Name = gz_path, file_Compression = ''gzip''\<rparr>]\<rparr>"

definition sftp_job :: "cronexpr \<Rightarrow> Job" where
  "sftp_job k = (NewDefaultJob ''get_file'')\<lparr>job_FileSet := Some gz_files,
     job_Schedule := Some \<lparr>originalString = ''*/3 * * * * * *'', expr = k\<rparr>\<rparr>"

definition sftp_device :: "cronexpr \<Rightarrow> Device" where
  "sftp_device k = (ssh_device k)\<lparr>dev_Jobs := [(''get_file'', sftp_job k)]\<rparr>"

lemma sftp_job_generic:
  "valid_rng r \<Longrightarrow> Job_ApplyConfig lib r (NewDefaultJob ''get_file'') (Some linux_file_job) =
     Ok ((NewDefaultJob ''get_file'')\<lparr>job_FileSet := Some gz_files\<rparr>)"
  by (simp add: linux_file_job_def job_defs zero_defs FileSet_ApplyConfig_def NewDefaultFileSet_def gz_files_def
      FileSetFile_ApplyConfig_def NewDefaultFileSetFile_def visits_single gz_path_def)

lemma sftp_job_specific:
  "cron_Parse lib ''*/3 * * * * * *'' = Inr k \<Longrightarrow> valid_rng r \<Longrightarrow>
   Job_ApplyConfig lib r ((NewDefaultJob ''get_file'')\<lparr>job_FileSet := Some gz_files\<rparr>) (Some get_file) = Ok (sftp_job k)"
  by (simp add: get_file_def job_defs zero_defs FileSet_ApplyConfig_def gz_files_def sftp_job_def)

lemma sftp_job_configured:
  assumes "cron_Parse lib ''*/3 * * * * * *'' = Inr k" "valid_rng r"
  shows "configure_job lib r sftp_jobs ''get_file'' get_file = Ok (sftp_job k)"
proof -
  have "cj_Generic get_file = ''linux_file_job''" by (simp add: get_file_def)
  then show ?thesis
    using sftp_job_generic [OF valid_rng_at [OF assms(2)]] sftp_job_specific [OF assms(1) valid_rng_at [OF assms(2)]]
    by (simp add: configure_job_def apply_job_generic_def sftp_jobs_def lookup_ptr_def)
qed

lemma sftp_job_valid: "Job_Validate re (sftp_job k) = []"
  by (simp add: Job_Validate_def sftp_job_def NewDefaultJob_def FileSet_Validate_def FileSetFile_Validate_def gz_files_def
      gz_path_def)

lemma sftp_job_store:
  assumes "cron_Parse lib ''*/3 * * * * * *'' = Inr k" "valid_rng r" "c_JobStore (sftp_config ctx) = Some js"
  shows "NewJobStoreFromConfig lib re r js = Ok \<lparr>ljs_jobs = [(''get_file'', sftp_job k)]\<rparr>"
proof -
  have js: "cjs_Type js = ''local''" "cjs_JobStoreLocal js = Some sftp_jobs"
    using assms(3) by (auto simp: sftp_config_def test_defs)
  have "cjl_Jobs sftp_jobs = [(''get_file'', Some get_file)]" by (simp add: sftp_jobs_def)
  from one_job_Ok [OF assms(2) this sftp_job_configured [OF assms(1) valid_rng_at [OF assms(2)]] sftp_job_valid]
  show ?thesis by (simp add: NewJobStoreFromConfig_def js)
qed

lemma sftp_job_copied:
  "cron_Parse lib ''*/3 * * * * * *'' = Inr k \<Longrightarrow> valid_rng r \<Longrightarrow> Job_DeepCopy lib r (sftp_job k) = Ok (sftp_job k)"
  by (simp add: Job_DeepCopy_def sftp_job_def NewDefaultJob_def Schedule_DeepCopy_def NewCronSchedule_def put_all_def)

lemma sftp_device_initial:
  assumes "cron_Parse lib ''*/3 * * * * * *'' = Inr k" "valid_rng r"
  shows "initial_device lib r [(''get_file'', sftp_job k)] ''local_linux_vm'' sftp_linux_vm =
    Ok ((NewDefaultDevice ''local_linux_vm'')\<lparr>dev_Jobs := [(''get_file'', sftp_job k)]\<rparr>)"
  using sftp_job_copied [OF assms(1) valid_rng_at [OF valid_rng_at [OF assms(2)]]]
  by (simp add: initial_device_def sftp_linux_vm_def zero_defs go_range_single [OF assms(2)])

lemma sftp_device_job:
  assumes "valid_rng r"
  shows "apply_device_job lib r [(''get_file'', sftp_job k)] (''get_file'', Some zero_Job) = Ok [(''get_file'', sftp_job k)]"
proof -
  have "Job_ApplyConfig lib q (sftp_job k) (Some zero_Job) = Ok (sftp_job k)" if "valid_rng q" for q
    using that by (simp add: sftp_job_def job_defs zero_defs FileSet_ApplyConfig_def gz_files_def)
  moreover have "ApplyTemplateValues q (sftp_job k) = sftp_job k" if "valid_rng q" for q
    using that by (simp add: ApplyTemplateValues_def sftp_job_def NewDefaultJob_def)
  ultimately show ?thesis using assms by (simp add: valid_rng_at)
qed

lemma sftp_device_specific:
  assumes "valid_rng r"
  shows "Device_ApplyConfig lib r (sftp_device k) sftp_linux_vm = Ok (sftp_device k)"
  using sftp_device_job [OF assms, of lib k]
  by (simp add: Device_ApplyConfig_def sftp_linux_vm_def zero_defs apply_protocol_def apply_credentials_def
      go_range_single [OF assms] sftp_device_def ssh_device_def del: apply_device_job.simps)

lemma sftp_device_configured:
  assumes "cron_Parse lib ''*/3 * * * * * *'' = Inr k" "valid_rng r"
  shows "configure_device lib r sftp_devices [(''get_file'', sftp_job k)] ''local_linux_vm'' sftp_linux_vm = Ok (sftp_device k)"
proof -
  have "cd_Generic sftp_linux_vm = ''linux_vm_base''" by (simp add: sftp_linux_vm_def)
  then show ?thesis
    using sftp_device_initial [OF assms(1) valid_rng_at [OF assms(2)]] ssh_device_generic [OF valid_rng_at [OF assms(2)], where k = k]
      sftp_device_specific [OF valid_rng_at [OF assms(2)], of lib _ k]
    by (simp add: configure_device_def apply_device_generic_def sftp_devices_def lookup_ptr_def sftp_device_def)
qed
lemma sftp_device_store:
  assumes "cron_Parse lib ''*/3 * * * * * *'' = Inr k" "valid_rng r" "c_DeviceStore (sftp_config ctx) = Some ds"
  shows "NewDeviceStoreFromConfig lib re r ds [(''get_file'', sftp_job k)] =
    Ok \<lparr>lds_devices = [(''local_linux_vm'', sftp_device k)]\<rparr>"
proof -
  have ds: "cdvs_Type ds = ''local''" "cdvs_DeviceStoreLocal ds = Some sftp_devices"
    using assms(3) by (auto simp: sftp_config_def test_defs)
  have valid: "Device_Validate re q (sftp_device k) = []" if "valid_rng q" for q
    using sftp_job_valid [of re k] by (simp add: Device_Validate_def sftp_device_def ssh_device_def go_range_single [OF that])
  have name: "dev_Name (sftp_device k) = ''local_linux_vm''" by (simp add: sftp_device_def ssh_device_def)
  have "cdl_Devices sftp_devices = [(''local_linux_vm'', Some sftp_linux_vm)]" by (simp add: sftp_devices_def)
  from one_device_Ok [OF assms(2) this sftp_device_configured [OF assms(1) valid_rng_at [OF assms(2)]] name
      valid [OF valid_rng_at [OF valid_rng_at [OF assms(2)]]]]
  show ?thesis by (simp add: NewDeviceStoreFromConfig_def ds)
qed

lemma sftp_config_parts:
  "\<not> c_Syslog (sftp_config ctx)" "c_DataStore (sftp_config ctx) = c_DataStore (newWorkingConfig ctx)"
  "\<exists>js ds. c_JobStore (sftp_config ctx) = Some js \<and> c_DeviceStore (sftp_config ctx) = Some ds"
  by (simp_all add: sftp_config_def on_local_jobs_def on_jobs_def on_devices_def newWorkingConfig_def)

lemma sftp_controller:
  assumes "cron_Parse (lb_cron lb) ''*/3 * * * * * *'' = Inr k" "test_mail (lb_txt lb)" "valid_rng r" "os_fine os"
    and "\<And>h. an_isDir (os h (EvStat (gitPullDataDirectory ctx)))"
    and "gitRepoDirectory ctx \<noteq> []" "gitPullDataDirectory ctx \<noteq> []"
  shows "\<exists>c h'. NewController os lb r (sftp_config ctx) h = (Ok c, h') \<and>
    co_DeviceStore c = \<lparr>lds_devices = [(''local_linux_vm'', sftp_device k)]\<rparr> \<and>
    co_DataStore c = (working_git ctx, [pool_worker (working_git ctx) 0]) \<and>
    co_Scheduler c = NewLocalScheduler (at ''scheduler'' r) (lb_clock lb) [(''local_linux_vm'', sftp_device k)]"
proof -
  obtain js ds where js: "c_JobStore (sftp_config ctx) = Some js" "c_DeviceStore (sftp_config ctx) = Some ds"
    using sftp_config_parts(3) by blast
  show ?thesis
    using backup_controller [OF sftp_config_parts(1) js sftp_config_parts(2)
        sftp_job_store [OF assms(1) valid_rng_at [OF assms(3)] js(1)] _ assms(2,4-7), of _ h]
      sftp_device_store [OF assms(1) valid_rng_at [OF assms(3)] js(2)]
    by (simp add: AllJobs_def AllDevices_def) blast
qed

section \<open>The run of the job\<close>

definition sftp_execution :: "cronexpr \<Rightarrow> int \<Rightarrow> Execution" where
  "sftp_execution k t = \<lparr>ex_Device = sftp_device k, ex_Job = sftp_job k, ex_Timestamp = t\<rparr>"

text \<open>The device has the compressed file.\<close>

definition gz_holds :: "bytes_lib \<Rightarrow> (string \<Rightarrow> string) \<Rightarrow> string \<Rightarrow> bool" where
  "gz_holds lib disk text \<longleftrightarrow> gz_NewReader lib (disk gz_path) = None \<and> gz_ReadAll lib (disk gz_path) = Inr text"

lemma run_sftp_job:
  assumes "serves net disk" "gz_holds lib disk text"
  shows "\<exists>h'. runJob net lib sess (sftp_job k) h = (Ok (text, None), h')"
proof -
  have "fst (fetchFile net lib sess gz_files h) = Ok (file_bundle (length (fset_Files gz_files)) 0
      (map (\<lambda>path. (path, (\<lambda>_. text) path)) (sort (map file_Name (fset_Files gz_files)))))"
    by (rule fetchFile_sorted [OF _ assms(1)]) (use assms(2) in \<open>simp_all add: gz_files_def gz_holds_def fetched_def decompress_def\<close>)
  also have "\<dots> = Ok text" by (simp add: gz_files_def file_section_def)
  finally obtain h' where "fetchFile net lib sess gz_files h = (Ok text, h')" by (metis prod.collapse)
  then show ?thesis by (simp add: runJob_def sftp_job_def)
qed

lemma sftp_names: "job_Name (sftp_job k) = ''get_file''" "dev_Name (sftp_device k) = ''local_linux_vm''"
  by (simp_all add: sftp_job_def NewDefaultJob_def sftp_device_def ssh_device_def)

lemma run_sftp_execution:
  assumes "serves net disk" "gz_holds lib disk text"
  shows "runs_to lib net (sftp_execution k t) text"
  unfolding runs_to_def
proof
  fix h
  let ?ex = "sftp_execution k t"
  have scrub: "scrub_result lib (ex_Job ?ex) (text, None) = (text, None)"
    by (simp add: scrub_result_def sftp_execution_def sftp_job_def NewDefaultJob_def)
  have job: "ex_Job ?ex = sftp_job k" "ex_Device ?ex = sftp_device k" by (simp_all add: sftp_execution_def)
  obtain h1 where "runJob net lib \<lparr>ss_Host = dev_Host (ex_Device ?ex)\<rparr> (ex_Job ?ex) (h @ [EvNow, dial (ex_Device ?ex)]) =
      (Ok (text, None), h1)"
    unfolding job(1) using run_sftp_job [OF assms] by blast
  moreover have "dialable (ex_Device ?ex)" by (simp add: job(2) dialable_def has_ssh_def sftp_device_def ssh_device_def)
  moreover have "dv_err (net (h @ [EvNow]) (dial (ex_Device ?ex))) = None" using assms(1) by (simp add: serves_def)
  ultimately have "runExecution net lib ?ex h = (fst (finish net (new_result ?ex (dv_now (net h EvNow)))
      (scrub_result lib (ex_Job ?ex) (text, None)) h1), h1 @ [EvNow, EvClientClose])"
    by (intro runExecution_connected)
  then show "\<exists>res h'. runExecution net lib ?ex h = (Ok res, h') \<and> res_failure res = None \<and>
      res_deviceName res = dev_Name (ex_Device ?ex) \<and> res_jobName res = job_Name (ex_Job ?ex) \<and> res_file res = text"
    by (simp add: scrub finish_eq new_result_def)
qed

lemma sftp_single: "single_job (sftp_device k) (sftp_job k)"
  by (simp add: single_job_def sftp_device_def ssh_device_def sftp_job_def NewDefaultJob_def)

text \<open>What the test asserts of the commit.\<close>

definition sftp_assertion :: "string \<Rightarrow> gitAssertion" where
  "sftp_assertion text = \<lparr>ga_job = ''get_file'', ga_device = ''local_linux_vm'',
     ga_filesUpdated = [''by_device/local_linux_vm/get_file''], ga_fileContents = text\<rparr>"


text \<open>A device whose files all are \<open>zipped\<close>, and a decoder for that.\<close>

definition zip_net :: network where
  "zip_net h ev = sample_answer\<lparr>dv_bytes := ''zipped''\<rparr>"

definition zip_lib :: bytes_lib where
  "zip_lib = (sample_bytes_lib False)\<lparr>gz_ReadAll := (\<lambda>b. if b = ''zipped'' then Inr ''hostname Router'' else Inl ''bad'')\<rparr>"

lemma sftp_due:
  "\<exists>s'. NextExecution (lb_cron vm_libs) (lb_clock vm_libs)
     (NewLocalScheduler (at n (\<lambda>p ks. ks)) (lb_clock vm_libs) [(''local_linux_vm'', sftp_device 3)]) [] (sample_clock 5000) =
     Ok (Some (sftp_execution 3 1451606401), s')"
  unfolding single_scheduler [OF valid_rng_at [OF valid_rng_id] sftp_single [of 3], unfolded sftp_names]
  by (simp add: NextExecution_def effective_tags_def jobs_of_tag_def nextRun_def sftp_job_def Schedule_Next_def vm_libs_def
      sample_test_libs_def sample_cron_def sample_clock_def execution_of_def sftp_execution_def IsZero_def zero_time_def
      second_def Unix_def wrap64_def unixToInternal_def Let_def)


end
