(* ===== verification/Spec2Isabelle.thy ===== *)
theory Spec2Isabelle
  imports Job_Templates Device_Store Scheduler_Runs Data_Store_Conc Git_Script Api
    Shell_Buffer Execution_Properties Worker_Api Worker_Runs Controller_Properties Main_Cmd
    Data_Store_Progress Git_Failures System System_Delivery Worker_Access Test_Checks Test_Cli Test_Sftp
begin

text \<open>
  Fusty backs up the configuration of network devices. A controller reads a configuration file,
  keeps the jobs and the devices it describes, decides which job is to run on which device when,
  and hands executions to workers over HTTP. A worker runs an execution over SSH or SFTP and
  posts the result, and the controller commits it to a git repository. This development models
  the whole Go program under src/ except what is listed under "Not modelled".

  \<^bold>\<open>Conventions\<close>

  Prelude has the outcomes of Go code (\<open>'a res\<close>: a value, an error, or a panic), Go maps as
  association lists whose iteration order is a parameter (\<open>rng\<close>), 64-bit wrap-around and time;
  Go_Strings the functions of package strings and strconv that are used; Actions code that talks
  to the outside. There every interaction is an event, and its answer comes from a parameter
  that may depend on the whole history of events: theorems about actions hold whatever the
  operating system, git, a device or the controller answers. \<open>act_only\<close> (with the rules
  \<open>act_intros\<close>) says that an action does not panic and what its events satisfy; \<open>runs\<close>
  (Git_Script) gives the effects of an action when all calls succeed; \<open>traced\<close>
  (Executor_Properties) relates its events and its outcome.

  \<^bold>\<open>The controller\<close>

  \<^item> Config_Types: the structs of config/config.go. Controller: the choice of the file and of the
    decoder (config/marshal.go, \<open>RunController\<close>), \<open>NewController\<close> and \<open>Start\<close>.
  \<^item> Command_Set, File_Set, Schedules, Templates, Jobs, Job_Templates, Devices: package model, one
    theory per file; \<open>ApplyConfig\<close>, \<open>Validate\<close> and \<open>DeepCopy\<close> of each type, with the invariants
    that they keep. \<open>ApplyTemplateValues\<close> is proved equal to a simultaneous substitution.
  \<^item> Job_Store and Device_Store: controller/job_store.go and device_store.go. The locales
    \<open>job_store_iface\<close> and \<open>device_store_iface\<close> are the Go interfaces with what their clients rely
    on; the local stores interpret them. A store holds exactly the configured entries, all valid.
  \<^item> Scheduler and Scheduler_Runs: controller/scheduler.go. \<open>NextExecution\<close> is sound, complete,
    and hands out each run at most once over any sequence of requests (locale \<open>scheduler_iface\<close>).
  \<^item> Data_Store and Data_Store_Conc: the queue of controller/data_store.go and its goroutines, a step
    relation with an executable scheduler of events. Exclusion of writers by key, no lost
    results, no lost wake-up, and the deadlock that is possible. Data_Store_Progress: while one
    worker listens, what is pending gets written.
  \<^item> Git_Os, Git_Data_Store, Git_Properties, Git_Script: the git worker of the same file against an
    arbitrary operating system. Writes stay below the directory of the worker, and when
    everything succeeds a batch is exactly its script of git commands and file writes.
    Git_Failures: what becomes of a batch when git fails before the first file.
  \<^item> Api: controller/api.go with the authentication of controller/controller.go.
    Controller_Properties: what an accepted configuration gives, and that the handlers keep
    serving.

  \<^bold>\<open>The worker\<close>

  \<^item> Sessions and Shell_Buffer: worker/session.go. The buffer is refined to a queue of bytes (locale
    \<open>byte_queue\<close>) with its memory explicit, which shows what happens to a late copy.
  \<^item> Executor, Executor_Properties, Execution_Properties: worker/executor.go. The dialogue of a
    command job follows its script within its time, everything that is printed is captured,
    nothing leaves unscrubbed, files come in a fixed format.
  \<^item> Url_Query and Worker: the request for work, the timers and the post of worker/worker.go.
    Worker_Api: worker and controller together; requests and results arrive as they were sent.
    Worker_Runs: the goroutines of a worker as a step relation. Worker_Access: which workers a
    controller lets in, by the credentials in their URL.
  \<^item> Main_Cmd: the command line (main.go).

  \<^bold>\<open>The system\<close>

  \<^item> System: the handlers over the scheduler, all workers and the pool of the data store as one
    step relation, \<open>system_step\<close>, in which every step is made of the operations above and
    responses may be lost and workers die. Whatever is written is an accepted report of a run,
    and the result of a run is accepted at most once.
  \<^item> System_Delivery: from every state it can be in, a report that a worker holds can get into a
    batch, and the batch writes, commits and pushes it.

  \<^bold>\<open>The integration tests\<close>

  \<^item> Test_Harness: the harness (integration/util.go), with its own events for what a test does
    outside, and \<open>ToJSON\<close> of config/marshal.go.
  \<^item> Test_Results: the working configuration of the tests runs, and every test of a failing
    configuration (integration/controller_cli_failure_test.go) passes on the model.
  \<^item> Test_Checks: the command lines the harness starts, how long it waits, and that its assertion
    about the last commit holds of what a pool worker commits.
  \<^item> Test_Cli: the other tests of command lines, and those of credentials
    (integration/http_auth_test.go), pass.
  \<^item> Test_Ssh and Test_Backup: the test of a backup over SSH (integration/simple_ssh_test.go) passes,
    through every component: the configuration is read into stores with its generics, copies and
    template values, the scheduler hands out the run, the executor holds the dialogue with a
    shell that prints a file in pieces and scrubs it, the pool worker commits, and the
    assertion holds. The shell is any network that answers as \<open>vm_shell\<close> says. Test_Sftp: the same
    for a compressed file over SFTP (integration/simple_sftp_test.go).

  \<^bold>\<open>Parameters and bounds\<close>

  Parameters are the cron library (\<open>cron_lib\<close>), the regular expression engine and gzip
  (\<open>bytes_lib\<close>), formatting of times and mail addresses (\<open>text_lib\<close>), JSON and the other decoders,
  URL parsing, the decoding of basic authentication and of multipart forms, the clock, the
  iteration orders of maps, and everything behind an event. Loops are structural recursion over
  lists or over the number of rounds that the code allows (a command polls \<open>Timeout\<close> times, a
  request collects at most \<open>max\<close> executions), so no fuel is needed. Numbers are integers, with
  64-bit wrap-around where the program computes with them.

  \<^bold>\<open>Not modelled\<close>

  Log lines, except where one panics or is the only effect of an error; the vendored SSH and SFTP
  packages; integration/tls_test.go, which tests the certificate checks of package crypto/tls; the
  texts of some errors of the flag package; the wire format of
  multipart forms and of HTTP itself; memory that runs out. A nil execution
  or nil job inside a decoded response is not modelled: the controller never sends one.
\<close>

end
